(* ===== verification/Py_Prelude.thy ===== *)
theory Py_Prelude
  imports Main "HOL-Library.AList" "HOL-Library.Sublist"
begin

text \<open>
  Shared vocabulary of the development.  A Python exception (or an abort of the C++ layer below
  it) is a value of type \<open>pyerr\<close>; a computation that may raise is a value of \<open>'a res\<close>, a sum whose
  left part is the exception.  \<open>bindE\<close> sequences two such computations, \<open>foldE\<close> is a Python
  \<^verbatim>\<open>for\<close> loop over a list with a state, \<open>mapE\<close> a loop that collects one result per element.
  A Python \<^verbatim>\<open>dict\<close> is an association list in insertion order: \<open>AList.update\<close> overwrites in place or
  appends, which is what item assignment does.
\<close>

section \<open>Errors and results\<close>

datatype pyerr =
    TypeError
  | ValueError
  | KeyError
  | IndexError
  | AttributeError
  | OverflowError
  | ZeroDivisionError
  | RecursionError
  | NotImplementedError
  | RuntimeError string
  | GenericException string
  | ParseError string
  | SystemExit int
  | AssertionError
  | IOError
  | Abort    \<comment> \<open>the process dies\<close>
  | Undefined \<comment> \<open>undefined behaviour of the C++ layer: anything may follow\<close>
  | Hang     \<comment> \<open>the call never returns\<close>

type_synonym 'a res = "pyerr + 'a"

named_theorems res_simps \<open>rewriting of result sequencing\<close>

definition bindE :: "'a res \<Rightarrow> ('a \<Rightarrow> 'b res) \<Rightarrow> 'b res" where
  "bindE m f = (case m of Inl e \<Rightarrow> Inl e | Inr x \<Rightarrow> f x)"

lemma bindE_simps [simp, res_simps]:
  "bindE (Inl e) f = Inl e"
  "bindE (Inr x) f = f x"
  by (simp_all add: bindE_def)

lemma bindE_cong [fundef_cong]:
  assumes "m = m'" and "\<And>x. m' = Inr x \<Longrightarrow> f x = g x"
  shows "bindE m f = bindE m' g"
  using assms by (cases m') (auto simp: bindE_def)

lemma bindE_eq_Inr_iff:
  "bindE m f = Inr y \<longleftrightarrow> (\<exists>x. m = Inr x \<and> f x = Inr y)"
  by (cases m) auto

lemma bindE_eq_InrE:
  assumes "bindE m f = Inr y"
  obtains x where "m = Inr x" and "f x = Inr y"
  using assms by (auto simp: bindE_eq_Inr_iff)

lemma bindE_assoc: "bindE (bindE m f) g = bindE m (\<lambda>x. bindE (f x) g)"
  by (cases m) auto

lemma bindE_Inr_right [simp]: "bindE m Inr = m"
  by (cases m) auto

text \<open>A loop that threads a state through the elements of a list and stops at the first exception.\<close>

fun foldE :: "('s \<Rightarrow> 'a \<Rightarrow> 's res) \<Rightarrow> 's \<Rightarrow> 'a list \<Rightarrow> 's res" where
  "foldE f s [] = Inr s"
| "foldE f s (x # xs) = bindE (f s x) (\<lambda>s'. foldE f s' xs)"

lemma foldE_cong [fundef_cong]:
  assumes "s = s'" and "xs = ys" and "\<And>s x. x \<in> set ys \<Longrightarrow> f s x = g s x"
  shows "foldE f s xs = foldE g s' ys"
  unfolding assms(1,2) using assms(3)
  by (induction ys arbitrary: s') (auto intro!: bindE_cong)

lemma foldE_map: "foldE f s (map g xs) = foldE (\<lambda>s x. f s (g x)) s xs"
  by (induction xs arbitrary: s) (auto intro!: bindE_cong)

lemma foldE_append: "foldE f s (xs @ ys) = bindE (foldE f s xs) (\<lambda>s'. foldE f s' ys)"
  by (induction xs arbitrary: s) (auto simp: bindE_assoc)

text \<open>A property that every iteration keeps holds after the loop.\<close>

lemma foldE_invariant:
  assumes "foldE f s xs = Inr t" and "P s"
    and "\<And>s x s'. x \<in> set xs \<Longrightarrow> P s \<Longrightarrow> f s x = Inr s' \<Longrightarrow> P s'"
  shows "P t"
  using assms
proof (induction xs arbitrary: s)
  case (Cons x xs)
  from Cons.prems(1) obtain s' where s': "f s x = Inr s'" "foldE f s' xs = Inr t"
    by (auto elim: bindE_eq_InrE)
  have "P s'" by (rule Cons.prems(3) [OF _ Cons.prems(2) s'(1)]) simp
  show ?case
    by (rule Cons.IH [OF s'(2) \<open>P s'\<close>]) (rule Cons.prems(3), simp_all)
qed simp

text \<open>A loop whose body never raises is the plain fold.\<close>

lemma foldE_total: "foldE (\<lambda>s x. Inr (f s x)) s xs = Inr (foldl f s xs)"
  by (induction xs arbitrary: s) auto

fun mapE :: "('a \<Rightarrow> 'b res) \<Rightarrow> 'a list \<Rightarrow> 'b list res" where
  "mapE f [] = Inr []"
| "mapE f (x # xs) = bindE (f x) (\<lambda>y. bindE (mapE f xs) (\<lambda>ys. Inr (y # ys)))"

lemma mapE_cong [fundef_cong]:
  assumes "xs = ys" and "\<And>x. x \<in> set ys \<Longrightarrow> f x = g x"
  shows "mapE f xs = mapE g ys"
  unfolding assms(1) using assms(2) by (induction ys) (auto intro!: bindE_cong)

lemma mapE_eq_Inr_iff:
  "mapE f xs = Inr ys \<longleftrightarrow> list_all2 (\<lambda>x y. f x = Inr y) xs ys"
  by (induction xs arbitrary: ys) (auto simp: bindE_eq_Inr_iff list_all2_Cons1)

lemma mapE_length: "mapE f xs = Inr ys \<Longrightarrow> length ys = length xs"
  by (simp add: mapE_eq_Inr_iff list_all2_lengthD)

lemma mapE_total: "mapE (\<lambda>x. Inr (f x)) xs = Inr (map f xs)"
  by (induction xs) auto

section \<open>Python containers\<close>

text \<open>Subscripting a list: a negative index counts from the end.\<close>

definition py_index :: "nat \<Rightarrow> int \<Rightarrow> nat res" where
  "py_index len i =
     (if i < 0 then (if nat (- i) \<le> len then Inr (len - nat (- i)) else Inl IndexError)
      else if nat i < len then Inr (nat i) else Inl IndexError)"

definition py_nth :: "'a list \<Rightarrow> int \<Rightarrow> 'a res" where
  "py_nth xs i = bindE (py_index (length xs) i) (\<lambda>k. Inr (xs ! k))"

lemma py_nth_nat [simp]: "n < length xs \<Longrightarrow> py_nth xs (int n) = Inr (xs ! n)"
  by (simp add: py_nth_def py_index_def)

lemma py_nth_ends:
  assumes "xs \<noteq> []"
  shows "py_nth xs 0 = Inr (hd xs)" "py_nth xs (int (length xs) - 1) = Inr (last xs)"
proof -
  have "nat (int (length xs) - 1) = length xs - 1" by simp
  then show "py_nth xs 0 = Inr (hd xs)" "py_nth xs (int (length xs) - 1) = Inr (last xs)"
    using assms by (simp_all add: py_nth_def py_index_def hd_conv_nth last_conv_nth del: nat_minus_as_int)
qed

lemma py_nth_mem: "py_nth xs i = Inr x \<Longrightarrow> x \<in> set xs"
  by (auto simp: py_nth_def py_index_def Let_def split: if_splits)

text \<open>Reading a key of a dictionary that must be there.\<close>

definition dict_get :: "('k \<times> 'v) list \<Rightarrow> 'k \<Rightarrow> 'v res" where
  "dict_get d k = (case map_of d k of None \<Rightarrow> Inl KeyError | Some v \<Rightarrow> Inr v)"

lemma dict_get_update [simp]:
  "dict_get (AList.update k v d) k' = (if k' = k then Inr v else dict_get d k')"
  by (simp add: dict_get_def update_conv')

lemma update_new: "k \<notin> fst ` set d \<Longrightarrow> AList.update k v d = d @ [(k, v)]"
  by (induction d) auto

lemma dict_get_Inr_iff: "dict_get d k = Inr v \<longleftrightarrow> map_of d k = Some v"
  by (simp add: dict_get_def split: option.split)

section \<open>Python strings\<close>

definition py_space :: "char \<Rightarrow> bool" where
  "py_space c \<longleftrightarrow> c \<in> {CHR '' '', CHR 0x09, CHR 0x0A, CHR 0x0B, CHR 0x0C, CHR 0x0D,
                     CHR 0x1C, CHR 0x1D, CHR 0x1E, CHR 0x1F}"

definition py_strip :: "string \<Rightarrow> string" where
  "py_strip s = rev (dropWhile py_space (rev (dropWhile py_space s)))"

definition startswith :: "string \<Rightarrow> string \<Rightarrow> bool" where
  "startswith s p \<longleftrightarrow> take (length p) s = p"

lemma startswith_append [simp]: "startswith (p @ s) p"
  by (simp add: startswith_def)

lemma startswith_simps [simp]:
  "startswith s []"
  "\<not> startswith [] (d # p)"
  "startswith (c # s) (d # p) \<longleftrightarrow> c = d \<and> startswith s p"
  by (auto simp: startswith_def)

lemma startswith_iff_prefix: "startswith s p \<longleftrightarrow> prefix p s"
  by (metis append_eq_conv_conj prefix_def startswith_def)

lemma startswith_set: "startswith s p \<Longrightarrow> set p \<subseteq> set s"
  by (metis set_take_subset startswith_def)

fun py_join :: "string \<Rightarrow> string list \<Rightarrow> string" where
  "py_join sep [] = []"
| "py_join sep [x] = x"
| "py_join sep (x # y # zs) = x @ sep @ py_join sep (y # zs)"

lemma strip_edges:
  assumes "s \<noteq> []" and "\<not> py_space (hd s)" and "\<not> py_space (last s)"
  shows "py_strip s = s"
proof -
  have "dropWhile py_space s = s"
    using assms by (cases s) auto
  moreover have "dropWhile py_space (rev s) = rev s"
  proof (cases "rev s")
    case (Cons c cs)
    then have "c = last s" by (metis hd_rev list.sel(1))
    then have "\<not> py_space c" using assms(3) by simp
    then show ?thesis unfolding Cons by simp
  qed simp
  ultimately show ?thesis by (simp add: py_strip_def)
qed

lemma strip_leading_space:
  assumes "py_space c"
  shows "py_strip (c # s) = py_strip s"
  using assms by (simp add: py_strip_def)

end
