(* ===== verification/Sparse_Int.thy ===== *)
theory Sparse_Int
  imports Py_Prelude "HOL-Library.Word"
begin

text \<open>
  The variable-length integers of the RPC wire format: class \<^verbatim>\<open>SparseInt\<close> of
  \<^verbatim>\<open>src/rrr/base/basetypes.cpp\<close>, on which \<^verbatim>\<open>Marshal.write_v32\<close>, \<^verbatim>\<open>write_v64\<close> and every length prefix
  of the Python RPC library rest.  An integer is a word of its width, its in-memory bytes
  (\<^verbatim>\<open>char* pv\<close>, little endian) are \<open>pv v 0, pv v 1, ...\<close>.
\<close>

unbundle bit_operations_syntax

type_synonym byte = "8 word"
type_synonym i8 = "8 word"
type_synonym i16 = "16 word"
type_synonym i32 = "32 word"
type_synonym i64 = "64 word"

section \<open>Bytes of a word\<close>

definition pv :: "'a::len word \<Rightarrow> nat \<Rightarrow> byte" where
  "pv v i = ucast (drop_bit (8 * i) v)"

fun le_join :: "byte list \<Rightarrow> 'a::len word" where
  "le_join [] = 0"
| "le_join (b # bs) = ucast b OR push_bit 8 (le_join bs)"

lemma bit_pv: "bit (pv v i) k \<longleftrightarrow> k < 8 \<and> bit v (8 * i + k)"
  by (auto simp: pv_def bit_simps)

lemma bit_le_join:
  "bit (le_join bs :: 'a::len word) i \<longleftrightarrow>
     i < LENGTH('a) \<and> i div 8 < length bs \<and> bit (bs ! (i div 8)) (i mod 8)"
proof (induction bs arbitrary: i)
  case Nil
  then show ?case by simp
next
  case (Cons b bs)
  show ?case
  proof (cases "i < 8")
    case True
    then show ?thesis by (auto simp: bit_simps)
  next
    case False
    then have "i div 8 = Suc ((i - 8) div 8)" and "i mod 8 = (i - 8) mod 8"
      by (auto simp: le_div_geq le_mod_geq)
    moreover have "\<not> bit b i" using False by (auto dest: bit_imp_le_length)
    ultimately show ?thesis
      using False Cons.IH [of "i - 8"] by (auto simp: bit_simps)
  qed
qed

text \<open>Reading back the bytes of a whole word gives the word.\<close>

lemma le_join_pv:
  assumes "LENGTH('a::len) \<le> 8 * n"
  shows "le_join (map (pv (v :: 'a word)) [0..<n]) = v"
proof (rule bit_word_eqI)
  fix i assume i: "i < LENGTH('a)"
  then have "i div 8 < n" using assms by auto
  then show "bit (le_join (map (pv v) [0..<n]) :: 'a word) i = bit v i"
    using i by (simp add: bit_le_join bit_pv)
qed

section \<open>SparseInt\<close>

definition buf_size :: "byte \<Rightarrow> nat" where
  "buf_size byte0 =
     (if byte0 AND 0x80 = 0 then 1
      else if byte0 AND 0xC0 = 0x80 then 2
      else if byte0 AND 0xE0 = 0xC0 then 3
      else if byte0 AND 0xF0 = 0xE0 then 4
      else if byte0 AND 0xF8 = 0xF0 then 5
      else if byte0 AND 0xFC = 0xF8 then 6
      else if byte0 AND 0xFE = 0xFC then 7
      else if byte0 AND 0xFF = 0xFE then 8
      else 9)"

definition val_size :: "int \<Rightarrow> nat" where
  "val_size val =
     (if -64 \<le> val \<and> val \<le> 63 then 1
      else if -8192 \<le> val \<and> val \<le> 8191 then 2
      else if -1048576 \<le> val \<and> val \<le> 1048575 then 3
      else if -134217728 \<le> val \<and> val \<le> 134217727 then 4
      else if -17179869184 \<le> val \<and> val \<le> 17179869183 then 5
      else if -2199023255552 \<le> val \<and> val \<le> 2199023255551 then 6
      else if -281474976710656 \<le> val \<and> val \<le> 281474976710655 then 7
      else if -36028797018963968 \<le> val \<and> val \<le> 36028797018963967 then 8
      else 9)"

text \<open>
  \<^verbatim>\<open>dump\<close> fills a buffer and returns how many of its bytes count; the caller writes that prefix.
  The two overloads are two functions; each result is the filled buffer and the returned size.
\<close>

definition dump_i32 :: "i32 \<Rightarrow> byte list \<times> nat" where
  "dump_i32 val =
     (let s = sint val; p = pv val in
      if -64 \<le> s \<and> s \<le> 63 then ([p 0 AND 0x7F], 1)
      else if -8192 \<le> s \<and> s \<le> 8191 then ([p 1 AND 0x3F OR 0x80, p 0], 2)
      else if -1048576 \<le> s \<and> s \<le> 1048575 then ([p 2 AND 0x1F OR 0xC0, p 1, p 0], 3)
      else if -134217728 \<le> s \<and> s \<le> 134217727
        then ([p 3 AND 0x0F OR 0xE0, p 2, p 1, p 0], 4)
      else ([if s < 0 then 0xF7 else 0xF0, p 3, p 2, p 1, p 0], 5))"

definition dump_i64 :: "i64 \<Rightarrow> byte list \<times> nat" where
  "dump_i64 val =
     (let s = sint val; p = pv val in
      if -64 \<le> s \<and> s \<le> 63 then ([p 0 AND 0x7F], 1)
      else if -8192 \<le> s \<and> s \<le> 8191 then ([p 1 AND 0x3F OR 0x80, p 0], 2)
      else if -1048576 \<le> s \<and> s \<le> 1048575 then ([p 2 AND 0x1F OR 0xC0, p 1, p 0], 3)
      else if -134217728 \<le> s \<and> s \<le> 134217727
        then ([p 3 AND 0x0F OR 0xE0, p 2, p 1, p 0], 4)
      else if -17179869184 \<le> s \<and> s \<le> 17179869183
        then ([p 4 AND 0x07 OR 0xF0, p 3, p 2, p 1, p 0], 5)
      else if -2199023255552 \<le> s \<and> s \<le> 2199023255551
        then ([p 5 AND 0x03 OR 0xF8, p 4, p 3, p 2, p 1, p 0], 6)
      else if -281474976710656 \<le> s \<and> s \<le> 281474976710655
        then ([p 6 AND 0x01 OR 0xFC, p 5, p 4, p 3, p 2, p 1, p 0], 7)
      else if -36028797018963968 \<le> s \<and> s \<le> 36028797018963967
        then ([0xFE, p 7, p 6, p 5, p 4, p 3, p 2, p 1, p 0], 8)
      else ([0xFF, p 7, p 6, p 5, p 4, p 3, p 2, p 1, p 0], 9))"

text \<open>
  \<^verbatim>\<open>load\<close>: for a short code the payload bytes are copied in reverse order, the length tag is masked
  off the top one and its sign bit is extended; the bytes of the result beyond the code stay zero or
  become \<open>0xFF\<close>.  A long code is copied whole from offset 1 of the buffer.
\<close>

definition load_short :: "nat \<Rightarrow> nat \<Rightarrow> byte list \<Rightarrow> 'a::len word" where
  "load_short width bsize buf =
     (let pv0 = map (\<lambda>i. buf ! (bsize - i - 1)) [0..<bsize];
          top = pv0 ! (bsize - 1) AND drop_bit bsize 0xFF in
      if bit top (7 - bsize)
      then le_join (pv0[bsize - 1 := top OR push_bit (7 - bsize) 0xFF] @ replicate (width - bsize) 0xFF)
      else le_join (pv0[bsize - 1 := top] @ replicate (width - bsize) 0))"

definition load_i32 :: "byte list \<Rightarrow> i32" where
  "load_i32 buf =
     (let bsize = buf_size (buf ! 0) in
      if bsize < 5 then load_short 4 bsize buf
      else le_join (map (\<lambda>i. buf ! (4 - i)) [0..<4]))"

definition load_i64 :: "byte list \<Rightarrow> i64" where
  "load_i64 buf =
     (let bsize = buf_size (buf ! 0) in
      if bsize < 8 then load_short 8 bsize buf
      else le_join (map (\<lambda>i. buf ! (8 - i)) [0..<8]))"

section \<open>What a dump is read back as\<close>

lemma bit_sign_extended:
  assumes "- (2 ^ k) \<le> sint (v :: 'a::len word)" and "sint v < 2 ^ k" and "k \<le> i" and "i < LENGTH('a)"
  shows "bit v i = bit v k"
proof -
  have "signed_take_bit k (sint v) = sint v"
    using assms(1,2) by (simp add: signed_take_bit_int_eq_self_iff)
  then have "bit (sint v) i = bit (sint v) (min k i)"
    by (metis bit_signed_take_bit_iff possible_bit_int)
  then show ?thesis
    using assms(3,4) by (simp add: bit_sint_iff min_def split: if_splits)
qed

lemma bit_ff: "bit (0xFF :: int) r \<longleftrightarrow> r < 8"
proof -
  have "(0xFF :: int) = mask 8" by (simp add: mask_eq_exp_minus_1)
  then show ?thesis by (simp only: bit_mask_iff) simp
qed

text \<open>The common part of all short codes: the payload bytes in reverse order below a tagged top byte.\<close>

lemma load_short_code:
  fixes v :: "'a::len word"
  assumes n: "1 \<le> n" "n \<le> 7" "n \<le> width" "LENGTH('a) = 8 * width"
    and range: "- (2 ^ (7 * n - 1)) \<le> sint v" "sint v < 2 ^ (7 * n - 1)"
    and top: "buf ! 0 AND drop_bit n 0xFF = pv v (n - 1) AND drop_bit n 0xFF"
    and rest: "\<And>i. 0 < i \<Longrightarrow> i < n \<Longrightarrow> buf ! i = pv v (n - 1 - i)"
  shows "load_short width n buf = v"
proof (rule bit_word_eqI)
  fix i assume i: "i < LENGTH('a)"
  let ?k = "7 * n - 1"
  let ?pv0 = "map (\<lambda>i. buf ! (n - i - 1)) [0..<n]"
  let ?top = "?pv0 ! (n - 1) AND drop_bit n 0xFF"
  have mask: "bit (drop_bit n (0xFF :: byte)) r \<longleftrightarrow> r < 8 - n" for r
    by (auto simp: bit_drop_bit_eq bit_ff)
  have topbit: "bit ?top r \<longleftrightarrow> r < 8 - n \<and> bit v (8 * (n - 1) + r)" for r
    using n top by (auto simp: bit_and_iff mask bit_pv)
  have k: "?k = 8 * (n - 1) + (7 - n)" using n by auto
  have sgn: "bit ?top (7 - n) = bit v ?k" using n unfolding topbit k by auto
  have ext: "bit v j = bit v ?k" if "?k \<le> j" "j < LENGTH('a)" for j
    using bit_sign_extended [OF range that] .
  have hi: "bit (push_bit (7 - n) (0xFF :: byte)) r \<longleftrightarrow> 7 - n \<le> r \<and> r < 8" for r
    by (auto simp: bit_push_bit_iff bit_ff)
  have low: "bit (?pv0 ! (i div 8)) (i mod 8) = bit v i" if "i div 8 < n - 1"
  proof -
    have "buf ! (n - i div 8 - 1) = pv v (i div 8)"
      using that rest [of "n - 1 - i div 8"] n by simp
    then have "?pv0 ! (i div 8) = pv v (i div 8)" using that n by (subst nth_map) simp_all
    then show ?thesis by (simp add: bit_pv)
  qed
  consider (lo) "i div 8 < n - 1" | (mid) "i div 8 = n - 1" | (hi) "n \<le> i div 8"
    using n by linarith
  then show "bit (load_short width n buf :: 'a word) i = bit v i"
  proof cases
    case lo
    then show ?thesis
      using i n low by (auto simp: load_short_def Let_def bit_le_join nth_append)
  next
    case mid
    have r: "i = 8 * (n - 1) + i mod 8" using mid by (metis mult_div_mod_eq)
    show ?thesis
    proof (cases "7 - n \<le> i mod 8")
      case True
      then have "?k \<le> i" using r k by linarith
      then have "bit v i = bit v ?k" using ext i by blast
      then show ?thesis
        using i n mid r sgn topbit [of "i mod 8"] True
        by (auto simp: load_short_def Let_def bit_le_join nth_append bit_or_iff hi)
    next
      case False
      then have "i mod 8 < 8 - n" by linarith
      then show ?thesis
        using i n mid r topbit [of "i mod 8"] False
        by (auto simp: load_short_def Let_def bit_le_join nth_append bit_or_iff hi)
    qed
  next
    case hi
    have "?k \<le> i" using hi n by linarith
    then have "bit v i = bit v ?k" using ext i by blast
    moreover have "bit (0xFF :: byte) (i mod 8)"
      by (simp add: bit_ff)
    ultimately show ?thesis
      using i n hi sgn by (auto simp: load_short_def Let_def bit_le_join nth_append)
  qed
qed

lemma buf_size_tags:
  "buf_size (x AND 0x7F) = 1"
  "buf_size (x AND 0x3F OR 0x80) = 2"
  "buf_size (x AND 0x1F OR 0xC0) = 3"
  "buf_size (x AND 0x0F OR 0xE0) = 4"
  "buf_size (x AND 0x07 OR 0xF0) = 5"
  "buf_size (x AND 0x03 OR 0xF8) = 6"
  "buf_size (x AND 0x01 OR 0xFC) = 7"
  "buf_size 0xF0 = 5" "buf_size 0xF7 = 5" "buf_size 0xFE = 8" "buf_size 0xFF = 9"
  by (simp_all add: buf_size_def word_ao_dist word_bw_assocs)

text \<open>The bytes a dump contributes to a marshal buffer.\<close>

definition dump_bytes :: "byte list \<times> nat \<Rightarrow> byte list" where
  "dump_bytes d = take (snd d) (fst d)"

text \<open>All short codes have one shape, indexed by their size.\<close>

definition size_tag :: "nat \<Rightarrow> byte" where
  "size_tag n = [0, 0, 0x80, 0xC0, 0xE0, 0xF0, 0xF8, 0xFC] ! n"

definition short_code :: "nat \<Rightarrow> 'a::len word \<Rightarrow> byte list" where
  "short_code n v = (pv v (n - 1) AND drop_bit n 0xFF OR size_tag n) # map (\<lambda>i. pv v (n - 1 - i)) [1..<n]"

lemma short_sizes:
  assumes "1 \<le> n" and "n \<le> 7"
  shows "n \<in> {1, 2, 3, 4, 5, 6, 7 :: nat}"
  using assms by auto

lemma length_short_code [simp]: "1 \<le> n \<Longrightarrow> length (short_code n v) = n"
  by (simp add: short_code_def)

lemma drop_bit_ff:
  "drop_bit 1 (0xFF :: byte) = 0x7F"
  "drop_bit 2 (0xFF :: byte) = 0x3F"
  "drop_bit 3 (0xFF :: byte) = 0x1F"
  "drop_bit 4 (0xFF :: byte) = 0x0F"
  "drop_bit 5 (0xFF :: byte) = 0x07"
  "drop_bit 6 (0xFF :: byte) = 0x03"
  "drop_bit 7 (0xFF :: byte) = 0x01"
  by simp_all

lemma size_tags:
  "size_tag 1 = 0" "size_tag 2 = 0x80" "size_tag 3 = 0xC0" "size_tag 4 = 0xE0"
  "size_tag 5 = 0xF0" "size_tag 6 = 0xF8" "size_tag 7 = 0xFC"
  by (simp_all add: size_tag_def)

lemma short_code_tag:
  assumes "1 \<le> n" and "n \<le> 7"
  shows "buf_size (x AND drop_bit n 0xFF OR size_tag n) = n"
    and "(x AND drop_bit n 0xFF OR size_tag n) AND drop_bit n 0xFF = x AND drop_bit n (0xFF :: byte)"
proof -
  have "n \<in> {1, 2, 3, 4, 5, 6, 7}" using short_sizes [OF assms] .
  then show "buf_size (x AND drop_bit n 0xFF OR size_tag n) = n"
    by (elim insertE emptyE; simp only: drop_bit_ff size_tags buf_size_tags or.right_neutral)
  show "(x AND drop_bit n 0xFF OR size_tag n) AND drop_bit n 0xFF = x AND drop_bit n (0xFF :: byte)"
    using \<open>n \<in> _\<close>
    by (elim insertE emptyE; simp only: drop_bit_ff size_tags; simp add: word_ao_dist word_bw_assocs)
qed

lemma load_short_short_code:
  fixes v :: "'a::len word"
  assumes "1 \<le> n" "n \<le> 7" "n \<le> width" "LENGTH('a) = 8 * width"
    and "- (2 ^ (7 * n - 1)) \<le> sint v" "sint v < 2 ^ (7 * n - 1)"
  shows "load_short width n (short_code n v @ junk) = v"
  using assms
  by (intro load_short_code)
    (auto simp: short_code_def short_code_tag nth_append nth_Cons')

lemma val_size_range:
  assumes "val_size s = n" and "n < 8"
  shows "1 \<le> n" "n \<le> 7" "- (2 ^ (7 * n - 1)) \<le> s" "s < 2 ^ (7 * n - 1)"
  using assms(2) unfolding assms(1) [symmetric] by (simp_all add: val_size_def split: if_splits)

lemma if_chain_select:
  fixes n :: nat
  assumes "(if c1 then 1 else if c2 then 2 else if c3 then 3 else if c4 then 4 else if c5 then 5
            else if c6 then 6 else if c7 then 7 else if c8 then 8 else 9) = n"
  shows "(if c1 then a1 else if c2 then a2 else if c3 then a3 else if c4 then a4 else if c5 then a5
          else if c6 then a6 else if c7 then a7 else if c8 then a8 else a9)
         = [a1, a2, a3, a4, a5, a6, a7, a8, a9] ! (n - 1)"
    and "(if c1 then a1 else if c2 then a2 else if c3 then a3 else if c4 then a4 else a9)
         = [a1, a2, a3, a4, a9] ! (min n 5 - 1)"
  unfolding assms [symmetric] by (auto simp: nth_Cons')

lemma short_code_simps:
  "short_code 1 v = [pv v 0 AND 0x7F]"
  "short_code 2 v = [pv v 1 AND 0x3F OR 0x80, pv v 0]"
  "short_code 3 v = [pv v 2 AND 0x1F OR 0xC0, pv v 1, pv v 0]"
  "short_code 4 v = [pv v 3 AND 0x0F OR 0xE0, pv v 2, pv v 1, pv v 0]"
  "short_code 5 v = [pv v 4 AND 0x07 OR 0xF0, pv v 3, pv v 2, pv v 1, pv v 0]"
  "short_code 6 v = [pv v 5 AND 0x03 OR 0xF8, pv v 4, pv v 3, pv v 2, pv v 1, pv v 0]"
  "short_code 7 v = [pv v 6 AND 0x01 OR 0xFC, pv v 5, pv v 4, pv v 3, pv v 2, pv v 1, pv v 0]"
  unfolding short_code_def drop_bit_ff size_tags by (simp_all add: upt_conv_Cons)

lemma dump_i64_short:
  assumes "val_size (sint v) = n" and "n < 8"
  shows "dump_i64 v = (short_code n v, n)"
proof -
  have "n \<in> {1, 2, 3, 4, 5, 6, 7}" using short_sizes val_size_range [OF assms] by blast
  then show ?thesis
    unfolding dump_i64_def Let_def if_chain_select(1) [OF assms(1) [unfolded val_size_def]]
    by (elim insertE emptyE; simp only: short_code_simps; simp)
qed

lemma dump_i64_long:
  assumes "val_size (sint v) = 9"
  shows "dump_i64 v = (0xFF # map (\<lambda>i. pv v (7 - i)) [0..<8], 9)"
  unfolding dump_i64_def Let_def if_chain_select(1) [OF assms(1) [unfolded val_size_def]]
  by (simp add: upt_conv_Cons)

lemma dump_i64_eight:
  assumes "val_size (sint v) = 8"
  shows "dump_i64 v = (0xFE # map (\<lambda>i. pv v (7 - i)) [0..<8], 8)"
  unfolding dump_i64_def Let_def if_chain_select(1) [OF assms(1) [unfolded val_size_def]]
  by (simp add: upt_conv_Cons)

lemma load_i64_long:
  assumes "8 \<le> buf_size b"
  shows "load_i64 (b # map (\<lambda>i. p (7 - i)) [0..<8] @ stk) = le_join (map p [0..<8])"
proof -
  have "map (\<lambda>i. (b # map (\<lambda>i. p (7 - i)) [0..<8] @ stk) ! (8 - i)) [0..<8] = map p [0..<8]"
    by (rule map_cong) (auto simp: nth_Cons' nth_append)
  then show ?thesis using assms by (simp only: load_i64_def Let_def nth_Cons_0) simp
qed

lemma load_i32_long:
  assumes "5 \<le> buf_size b"
  shows "load_i32 (b # map (\<lambda>i. p (3 - i)) [0..<4] @ stk) = le_join (map p [0..<4])"
proof -
  have "map (\<lambda>i. (b # map (\<lambda>i. p (3 - i)) [0..<4] @ stk) ! (4 - i)) [0..<4] = map p [0..<4]"
    by (rule map_cong) (auto simp: nth_Cons' nth_append)
  then show ?thesis using assms by (simp only: load_i32_def Let_def nth_Cons_0) simp
qed

lemma val_size_cases: "1 \<le> val_size s \<and> val_size s \<le> 9"
  by (simp add: val_size_def)

lemma dump_i32_short:
  assumes "val_size (sint v) = n" and "n < 5"
  shows "dump_i32 v = (short_code n v, n)"
proof -
  have "n \<in> {1, 2, 3, 4}" using val_size_range(1) [OF assms(1)] assms(2) by auto
  then show ?thesis
    unfolding dump_i32_def Let_def if_chain_select(2) [OF assms(1) [unfolded val_size_def]]
    by (elim insertE emptyE; simp only: short_code_simps; simp)
qed

lemma dump_i32_long:
  assumes "val_size (sint v) = n" and "5 \<le> n"
  shows "dump_i32 v = ((if sint v < 0 then 0xF7 else 0xF0) # map (\<lambda>i. pv v (3 - i)) [0..<4], 5)"
proof -
  have "min n 5 - 1 = 4" using assms(2) by simp
  then show ?thesis
    unfolding dump_i32_def Let_def if_chain_select(2) [OF assms(1) [unfolded val_size_def]]
    by (simp add: upt_conv_Cons)
qed

text \<open>
  Reading a dump back: the first byte tells how many bytes follow, and those bytes alone determine
  the value.  \<open>stk\<close> is whatever the reader's stack buffer holds behind the bytes it copied.
\<close>

lemma dump_i64_roundtrip:
  assumes "val_size (sint v) \<noteq> 8"
  defines "bs \<equiv> dump_bytes (dump_i64 v)"
  shows "bs \<noteq> []" "buf_size (hd bs) = length bs" "load_i64 (bs @ stk) = v" "length bs = val_size (sint v)"
proof -
  let ?n = "val_size (sint v)"
  have "bs \<noteq> [] \<and> buf_size (hd bs) = length bs \<and> load_i64 (bs @ stk) = v \<and> length bs = ?n"
  proof (cases "?n < 8")
    case True
    note r = val_size_range [OF refl True]
    have bs: "bs = short_code ?n v"
      using r by (simp add: bs_def dump_bytes_def dump_i64_short [OF refl True])
    have hd: "buf_size (hd bs) = ?n" and ne: "bs \<noteq> []"
      using short_code_tag(1) [OF r(1,2)] by (auto simp: bs short_code_def)
    moreover have "load_i64 (bs @ stk) = load_short 8 ?n (bs @ stk)"
      using hd ne True by (cases bs) (auto simp: load_i64_def)
    moreover have "load_short 8 ?n (bs @ stk) = v"
      unfolding bs using r by (intro load_short_short_code) auto
    ultimately show ?thesis using r by (simp add: bs)
  next
    case False
    then have "?n = 9" using assms val_size_cases [of "sint v"] by auto
    note d = dump_i64_long [OF this]
    have bs: "bs = 0xFF # map (\<lambda>i. pv v (7 - i)) [0..<8]"
      by (simp only: bs_def dump_bytes_def d fst_conv snd_conv) simp
    have "load_i64 (bs @ stk) = v"
      using load_i64_long [of "0xFF" "pv v" stk] le_join_pv [of 8 v]
      by (simp only: bs buf_size_tags append_Cons) simp
    then show ?thesis
      using \<open>?n = 9\<close> unfolding bs by (simp only: list.sel buf_size_tags) simp
  qed
  then show "bs \<noteq> []" "buf_size (hd bs) = length bs" "load_i64 (bs @ stk) = v" "length bs = ?n"
    by auto
qed

lemma dump_i32_roundtrip:
  fixes v :: i32
  defines "bs \<equiv> dump_bytes (dump_i32 v)"
  shows "bs \<noteq> []" "buf_size (hd bs) = length bs" "load_i32 (bs @ stk) = v" "length bs \<le> 5"
proof -
  let ?n = "val_size (sint v)"
  have "bs \<noteq> [] \<and> buf_size (hd bs) = length bs \<and> load_i32 (bs @ stk) = v \<and> length bs \<le> 5"
  proof (cases "?n < 5")
    case True
    then have "?n < 8" by simp
    note r = val_size_range [OF refl this]
    have bs: "bs = short_code ?n v"
      using r by (simp add: bs_def dump_bytes_def dump_i32_short [OF refl True])
    have hd: "buf_size (hd bs) = ?n" and ne: "bs \<noteq> []"
      using short_code_tag(1) [OF r(1,2)] by (auto simp: bs short_code_def)
    moreover have "load_i32 (bs @ stk) = load_short 4 ?n (bs @ stk)"
      using hd ne True by (cases bs) (auto simp: load_i32_def)
    moreover have "load_short 4 ?n (bs @ stk) = v"
      unfolding bs using r True by (intro load_short_short_code) auto
    ultimately show ?thesis using r True by (simp add: bs)
  next
    case False
    then have "5 \<le> ?n" by simp
    note d = dump_i32_long [OF refl this]
    let ?b = "if sint v < 0 then 0xF7 else 0xF0 :: byte"
    have bs: "bs = ?b # map (\<lambda>i. pv v (3 - i)) [0..<4]"
      by (simp only: bs_def dump_bytes_def d fst_conv snd_conv) simp
    have b5: "buf_size ?b = 5" by (simp add: buf_size_tags)
    have "load_i32 (bs @ stk) = v"
      using load_i32_long [of ?b "pv v" stk] le_join_pv [of 4 v] b5
      by (simp only: bs append_Cons) simp
    then show ?thesis
      using b5 unfolding bs by (simp only: list.sel) simp
  qed
  then show "bs \<noteq> []" "buf_size (hd bs) = length bs" "load_i32 (bs @ stk) = v" "length bs \<le> 5"
    by auto
qed

text \<open>
  Values whose code takes eight bytes are the exception: the dump stores nine bytes but counts
  eight, so the lowest byte of the value is never written, and the reader takes it from behind the
  bytes it copied.
\<close>

lemma dump_i64_eight_loses_low_byte:
  assumes "val_size (sint v) = 8"
  shows "dump_bytes (dump_i64 v) = 0xFE # map (\<lambda>i. pv v (7 - i)) [0..<7]"
    and "load_i64 (dump_bytes (dump_i64 v) @ j # stk) = le_join (j # map (pv v) [1..<8])"
proof -
  note d = dump_i64_eight [OF assms]
  show bs: "dump_bytes (dump_i64 v) = 0xFE # map (\<lambda>i. pv v (7 - i)) [0..<7]"
    by (simp only: dump_bytes_def d fst_conv snd_conv) (simp add: take_map)
  let ?p = "(pv v)(0 := j)"
  have 1: "map (\<lambda>i. ?p (7 - i)) [0..<8] = map (\<lambda>i. pv v (7 - i)) [0..<7] @ [j]"
    by (simp add: upt_rec)
  have 2: "map ?p [0..<8] = j # map (pv v) [1..<8]"
    by (simp add: upt_conv_Cons)
  show "load_i64 (dump_bytes (dump_i64 v) @ j # stk) = le_join (j # map (pv v) [1..<8])"
    using load_i64_long [of "0xFE" ?p stk] unfolding bs 1 2 by (simp only: buf_size_tags) simp
qed

end
