(* ===== verification/Pyrpc.thy ===== *)
theory Pyrpc
  imports Sparse_Int
begin

text \<open>
  The byte-buffer operations the Python RPC library calls through its extension module:
  \<^verbatim>\<open>src/rrr/pylib/simplerpc/_pyrpc.cpp\<close> over the stream operators of \<^verbatim>\<open>src/rrr/misc/marshal.hpp\<close>.
  A marshal object is its unread bytes: writes append at the end, reads consume from the front.
  Python values are a datatype; a value of the wrong kind is the exception the argument parser of
  the extension raises, a failed C++ \<^verbatim>\<open>verify\<close> (or an escaping C++ exception) is \<open>Abort\<close>.
\<close>

section \<open>Python values\<close>

text \<open>
  A float is its IEEE bit pattern.  A set is the list of its elements in iteration order, a
  dictionary the list of its items in insertion order; \<open>PObj\<close> is an instance of a named tuple with
  the name of its class and its fields in order.  Keys and elements are compared structurally.
\<close>

datatype pyval =
    PNone
  | PInt int
  | PFloat i64
  | PBytes "byte list"
  | PStr string
  | PTuple "pyval list"
  | PList "pyval list"
  | PSet "pyval list"
  | PDict "(pyval \<times> pyval) list"
  | PObj string "(string \<times> pyval) list"

text \<open>The values of the builtin operations \<^verbatim>\<open>len(o)\<close>, \<^verbatim>\<open>iter(o)\<close>, \<^verbatim>\<open>o[k]\<close>, \<^verbatim>\<open>getattr(o, name)\<close> and \<^verbatim>\<open>hash(o)\<close>.\<close>

fun py_elems :: "pyval \<Rightarrow> pyval list res" where
  "py_elems (PTuple xs) = Inr xs"
| "py_elems (PList xs) = Inr xs"
| "py_elems (PSet xs) = Inr xs"
| "py_elems (PDict d) = Inr (map fst d)"
| "py_elems (PObj c fs) = Inr (map snd fs)"
| "py_elems (PBytes bs) = Inr (map (PInt \<circ> uint) bs)"
| "py_elems (PStr s) = Inr (map (\<lambda>c. PStr [c]) s)"
| "py_elems _ = Inl TypeError"

definition py_iter :: "pyval \<Rightarrow> pyval list res" where
  "py_iter v = py_elems v"

definition py_len :: "pyval \<Rightarrow> int res" where
  "py_len v = bindE (py_elems v) (\<lambda>xs. Inr (int (length xs)))"

fun py_getitem :: "pyval \<Rightarrow> pyval \<Rightarrow> pyval res" where
  "py_getitem (PDict d) k = dict_get d k"
| "py_getitem (PSet xs) k = Inl TypeError"
| "py_getitem v k =
     (case k of PInt i \<Rightarrow> bindE (py_elems v) (\<lambda>xs. py_nth xs i) | _ \<Rightarrow> Inl TypeError)"

fun py_getattr :: "pyval \<Rightarrow> string \<Rightarrow> pyval res" where
  "py_getattr (PObj c fs) a = (case map_of fs a of Some v \<Rightarrow> Inr v | None \<Rightarrow> Inl AttributeError)"
| "py_getattr _ a = Inl AttributeError"

fun py_hashable :: "pyval \<Rightarrow> bool" where
  "py_hashable (PTuple xs) = list_all py_hashable xs"
| "py_hashable (PObj c fs) = list_all (\<lambda>(f, v). py_hashable v) fs"
| "py_hashable (PList _) = False"
| "py_hashable (PSet _) = False"
| "py_hashable (PDict _) = False"
| "py_hashable _ = True"

section \<open>Argument parsing of the extension module\<close>

text \<open>Formats \<^verbatim>\<open>l\<close> and \<^verbatim>\<open>L\<close>: a Python integer that must fit 64 bits; the cast then keeps the low bits.\<close>

definition parse_long :: "pyval \<Rightarrow> int res" where
  "parse_long v =
     (case v of
        PInt i \<Rightarrow> if - (2 ^ 63) \<le> i \<and> i < 2 ^ 63 then Inr i else Inl OverflowError
      | _ \<Rightarrow> Inl TypeError)"

text \<open>Format \<^verbatim>\<open>d\<close> converts an integer to the nearest double, ties to even.\<close>

fun bit_length :: "nat \<Rightarrow> nat" where
  "bit_length n = (if n = 0 then 0 else Suc (bit_length (n div 2)))"

declare bit_length.simps [simp del]

definition div_half_even :: "nat \<Rightarrow> nat \<Rightarrow> nat" where
  "div_half_even a b =
     (let q = a div b; r = a mod b in
      if 2 * r < b \<or> (2 * r = b \<and> even q) then q else q + 1)"

definition double_of_int :: "int \<Rightarrow> i64 res" where
  "double_of_int i =
     (if i = 0 then Inr 0
      else
        let a = nat \<bar>i\<bar>;
            l = bit_length a;
            m = (if l \<le> 53 then a * 2 ^ (53 - l) else div_half_even a (2 ^ (l - 53)));
            (m, l) = (if m = 2 ^ 53 then (2 ^ 52, l + 1) else (m, l))
        in if 1024 < l then Inl OverflowError
           else Inr (word_of_nat ((if i < 0 then 2 ^ 63 else 0) + (l + 1022) * 2 ^ 52 + (m - 2 ^ 52))))"

definition parse_double :: "pyval \<Rightarrow> i64 res" where
  "parse_double v = (case v of PFloat w \<Rightarrow> Inr w | PInt i \<Rightarrow> double_of_int i | _ \<Rightarrow> Inl TypeError)"

section \<open>The stream operators\<close>

definition memcpy_out :: "'a::len word \<Rightarrow> byte list" where
  "memcpy_out w = map (pv w) [0..<LENGTH('a) div 8]"

definition memcpy_in :: "byte list \<Rightarrow> ('a::len word \<times> byte list) res" where
  "memcpy_in m =
     (let n = LENGTH('a) div 8 in
      if length m < n then Inl Abort else Inr (le_join (take n m), drop n m))"

lemma memcpy_roundtrip [simp]:
  assumes "8 dvd LENGTH('a::len)"
  shows "memcpy_in (memcpy_out (w :: 'a word) @ rest) = Inr (w, rest)"
  using assms by (simp add: memcpy_in_def memcpy_out_def Let_def le_join_pv)

definition stream_write_v64 :: "i64 \<Rightarrow> byte list \<Rightarrow> byte list" where
  "stream_write_v64 v m = m @ dump_bytes (dump_i64 v)"

text \<open>
  Reading a sparse integer peeks the first byte, copies as many bytes as it announces (or as there are, and then
  \<^verbatim>\<open>verify\<close> stops the process) into a buffer on the stack (9 bytes for \<^verbatim>\<open>v64\<close>, 5 for \<^verbatim>\<open>v32\<close>) and decodes the
  buffer.  \<open>junk\<close> is the byte the uninitialised buffer holds behind the copied ones; copying more bytes than the buffer
  has overruns it, which is \<open>Undefined\<close>.
\<close>

definition stream_read_v64 :: "byte \<Rightarrow> byte list \<Rightarrow> (i64 \<times> byte list) res" where
  "stream_read_v64 junk m =
     (if m = [] then Inl Abort
      else let bsize = buf_size (hd m) in
        if length m < bsize then Inl Abort
        else Inr (load_i64 (take bsize m @ [junk]), drop bsize m))"

definition stream_read_v32 :: "byte list \<Rightarrow> (i32 \<times> byte list) res" where
  "stream_read_v32 m =
     (if m = [] then Inl Abort
      else let bsize = buf_size (hd m) in
        if 5 < min bsize (length m) then Inl Undefined
        else if length m < bsize then Inl Abort
        else Inr (load_i32 (take bsize m), drop bsize m))"

lemma stream_v64_roundtrip:
  assumes "val_size (sint v) \<noteq> 8"
  shows "stream_read_v64 junk (stream_write_v64 v [] @ rest) = Inr (v, rest)"
  using dump_i64_roundtrip(1,2) [OF assms] dump_i64_roundtrip(3) [OF assms, of "[junk]"]
  by (simp add: stream_read_v64_def stream_write_v64_def Let_def)

lemma stream_v32_roundtrip:
  "stream_read_v32 (dump_bytes (dump_i32 v) @ rest) = Inr (v, rest)"
  using dump_i32_roundtrip(1,2,4) [of v] dump_i32_roundtrip(3) [of v "[]"]
  by (simp add: stream_read_v32_def Let_def)

section \<open>The functions of the extension module\<close>

definition marshal_write_i8 :: "pyval \<Rightarrow> byte list \<Rightarrow> byte list res" where
  "marshal_write_i8 o1 m = bindE (parse_long o1) (\<lambda>i. Inr (m @ memcpy_out (word_of_int i :: i8)))"

definition marshal_read_i8 :: "byte list \<Rightarrow> (pyval \<times> byte list) res" where
  "marshal_read_i8 m = bindE (memcpy_in m) (\<lambda>(w :: i8, m). Inr (PInt (sint w), m))"

definition marshal_write_i16 :: "pyval \<Rightarrow> byte list \<Rightarrow> byte list res" where
  "marshal_write_i16 o1 m = bindE (parse_long o1) (\<lambda>i. Inr (m @ memcpy_out (word_of_int i :: i16)))"

definition marshal_read_i16 :: "byte list \<Rightarrow> (pyval \<times> byte list) res" where
  "marshal_read_i16 m = bindE (memcpy_in m) (\<lambda>(w :: i16, m). Inr (PInt (sint w), m))"

definition marshal_write_i32 :: "pyval \<Rightarrow> byte list \<Rightarrow> byte list res" where
  "marshal_write_i32 o1 m = bindE (parse_long o1) (\<lambda>i. Inr (m @ memcpy_out (word_of_int i :: i32)))"

definition marshal_read_i32 :: "byte list \<Rightarrow> (pyval \<times> byte list) res" where
  "marshal_read_i32 m = bindE (memcpy_in m) (\<lambda>(w :: i32, m). Inr (PInt (sint w), m))"

definition marshal_write_i64 :: "pyval \<Rightarrow> byte list \<Rightarrow> byte list res" where
  "marshal_write_i64 o1 m = bindE (parse_long o1) (\<lambda>i. Inr (m @ memcpy_out (word_of_int i :: i64)))"

definition marshal_read_i64 :: "byte list \<Rightarrow> (pyval \<times> byte list) res" where
  "marshal_read_i64 m = bindE (memcpy_in m) (\<lambda>(w :: i64, m). Inr (PInt (sint w), m))"

definition marshal_write_v32 :: "pyval \<Rightarrow> byte list \<Rightarrow> byte list res" where
  "marshal_write_v32 o1 m =
     bindE (parse_long o1) (\<lambda>i. Inr (m @ dump_bytes (dump_i32 (word_of_int i))))"

definition marshal_read_v32 :: "byte list \<Rightarrow> (pyval \<times> byte list) res" where
  "marshal_read_v32 m = bindE (stream_read_v32 m) (\<lambda>(w, m). Inr (PInt (sint w), m))"

definition marshal_write_v64 :: "pyval \<Rightarrow> byte list \<Rightarrow> byte list res" where
  "marshal_write_v64 o1 m = bindE (parse_long o1) (\<lambda>i. Inr (stream_write_v64 (word_of_int i) m))"

definition marshal_read_v64 :: "byte \<Rightarrow> byte list \<Rightarrow> (pyval \<times> byte list) res" where
  "marshal_read_v64 junk m = bindE (stream_read_v64 junk m) (\<lambda>(w, m). Inr (PInt (sint w), m))"

definition marshal_write_double :: "pyval \<Rightarrow> byte list \<Rightarrow> byte list res" where
  "marshal_write_double o1 m = bindE (parse_double o1) (\<lambda>w. Inr (m @ memcpy_out w))"

definition marshal_read_double :: "byte list \<Rightarrow> (pyval \<times> byte list) res" where
  "marshal_read_double m = bindE (memcpy_in m) (\<lambda>(w :: i64, m). Inr (PFloat w, m))"

definition marshal_write_str :: "pyval \<Rightarrow> byte list \<Rightarrow> byte list res" where
  "marshal_write_str o1 m =
     (case o1 of
        PBytes bs \<Rightarrow> Inr (stream_write_v64 (word_of_nat (length bs)) m @ bs)
      | _ \<Rightarrow> Inl Abort)"

definition marshal_read_str :: "byte \<Rightarrow> byte list \<Rightarrow> (pyval \<times> byte list) res" where
  "marshal_read_str junk m =
     bindE (stream_read_v64 junk m) (\<lambda>(w, m).
       if sint w < 0 \<or> length m < nat (sint w) then Inl Abort
       else Inr (PBytes (take (nat (sint w)) m), drop (nat (sint w)) m))"

end
