(* ===== verification/Marshal.thy ===== *)
theory Marshal
  imports Pyrpc
begin

text \<open>
  \<^verbatim>\<open>src/rrr/pylib/simplerpc/marshal.py\<close>: class \<^verbatim>\<open>Marshal\<close>, which writes and reads Python objects driven by
  C++ type names such as \<^verbatim>\<open>std::map<std::string, rrr::i32>\<close>.  The definitions follow the methods; the
  recursion depth left to the interpreter is an argument, and running out of it is \<open>RecursionError\<close>.
  \<open>Marshal_Types\<close> and \<open>Marshal_Roundtrip\<close> show what reading gives back.
\<close>

section \<open>Registered structures\<close>

text \<open>\<^verbatim>\<open>Marshal.structs\<close>: type name to the fields (name and type name) of its named tuple class.\<close>

type_synonym structs = "(string \<times> (string \<times> string) list) list"

definition py_keywords :: "string list" where
  "py_keywords =
     [''False'', ''None'', ''True'', ''and'', ''as'', ''assert'', ''async'', ''await'', ''break'',
      ''class'', ''continue'', ''def'', ''del'', ''elif'', ''else'', ''except'', ''finally'', ''for'',
      ''from'', ''global'', ''if'', ''import'', ''in'', ''is'', ''lambda'', ''nonlocal'', ''not'', ''or'',
      ''pass'', ''raise'', ''return'', ''try'', ''while'', ''with'', ''yield'']"

definition ident_start :: "char \<Rightarrow> bool" where
  "ident_start c \<longleftrightarrow>
     (let n = of_char c :: nat in (65 \<le> n \<and> n \<le> 90) \<or> (97 \<le> n \<and> n \<le> 122) \<or> n = 95)"

definition ident_char :: "char \<Rightarrow> bool" where
  "ident_char c \<longleftrightarrow> ident_start c \<or> (let n = of_char c :: nat in 48 \<le> n \<and> n \<le> 57)"

definition is_identifier :: "string \<Rightarrow> bool" where
  "is_identifier s \<longleftrightarrow> s \<noteq> [] \<and> ident_start (hd s) \<and> list_all ident_char s"

text \<open>What \<^verbatim>\<open>collections.namedtuple\<close> accepts: identifiers that are no keywords, and field names that are
  distinct and do not start with an underscore.\<close>

definition namedtuple_ok :: "string \<Rightarrow> string list \<Rightarrow> bool" where
  "namedtuple_ok name fields \<longleftrightarrow>
     list_all (\<lambda>s. is_identifier s \<and> s \<notin> set py_keywords) (name # fields) \<and>
     list_all (\<lambda>f. hd f \<noteq> CHR ''_'') fields \<and> distinct fields"

definition reg_type :: "structs \<Rightarrow> string \<Rightarrow> (string \<times> string) list \<Rightarrow> structs res" where
  "reg_type S type fields =
     (if namedtuple_ok type (map fst fields) then Inr (AList.update type fields S) else Inl ValueError)"

section \<open>Splitting template arguments\<close>

text \<open>The loop of \<^verbatim>\<open>template_split\<close>; its state is the list \<^verbatim>\<open>splt\<close>, the bracket level and the piece \<^verbatim>\<open>sp\<close>.\<close>

definition template_split_step :: "string list \<times> int \<times> string \<Rightarrow> char \<Rightarrow> string list \<times> int \<times> string" where
  "template_split_step st c =
     (case st of (splt, level, sp) \<Rightarrow>
        let level = (if c = CHR ''<'' then level + 1 else if c = CHR ''>'' then level - 1 else level)
        in if c = CHR '','' \<and> level = 0 then (splt @ [py_strip sp], level, [])
           else (splt, level, sp @ [c]))"

definition template_split :: "string \<Rightarrow> string list" where
  "template_split type_str =
     (case foldl template_split_step ([], 0, []) type_str of (splt, level, sp) \<Rightarrow>
        if py_strip sp \<noteq> [] then splt @ [py_strip sp] else splt)"

text \<open>\<^verbatim>\<open>obj_t[obj_t.index("<") + 1:-1]\<close>, for a type name that has an opening bracket.\<close>

definition template_args :: "string \<Rightarrow> string" where
  "template_args obj_t = butlast (tl (dropWhile (\<lambda>c. c \<noteq> CHR ''<'') obj_t))"

text \<open>Unpacking a list into two variables.\<close>

definition unpack2 :: "'a list \<Rightarrow> ('a \<times> 'a) res" where
  "unpack2 xs = (case xs of [a, b] \<Rightarrow> Inr (a, b) | _ \<Rightarrow> Inl ValueError)"

section \<open>Writing and reading objects\<close>

fun write_obj :: "structs \<Rightarrow> nat \<Rightarrow> pyval \<Rightarrow> string \<Rightarrow> byte list \<Rightarrow> byte list res" where
  "write_obj S 0 obj obj_t m = Inl RecursionError"
| "write_obj S (Suc d) obj obj_t m =
     (if obj_t \<in> {''rrr::i8'', ''i8''} then marshal_write_i8 obj m
      else if obj_t \<in> {''rrr::i16'', ''i16''} then marshal_write_i16 obj m
      else if obj_t \<in> {''rrr::i32'', ''i32''} then marshal_write_i32 obj m
      else if obj_t \<in> {''rrr::i64'', ''i64''} then marshal_write_i64 obj m
      else if obj_t \<in> {''rrr::v32'', ''v32''} then marshal_write_v32 obj m
      else if obj_t \<in> {''rrr::v64'', ''v64''} then marshal_write_v64 obj m
      else if obj_t = ''double'' then marshal_write_double obj m
      else if obj_t = ''DepId'' then
        bindE (py_getitem obj (PInt 0)) (\<lambda>o0.
        bindE (marshal_write_str o0 m) (\<lambda>m.
        bindE (py_getitem obj (PInt 1)) (\<lambda>o1. marshal_write_i64 o1 m)))
      else if obj_t \<in> {''std::string'', ''string''} then marshal_write_str obj m
      else if startswith obj_t ''std::pair<'' then
        bindE (unpack2 (template_split (template_args obj_t))) (\<lambda>(first_t, second_t).
        bindE (py_getitem obj (PInt 0)) (\<lambda>o0.
        bindE (write_obj S d o0 first_t m) (\<lambda>m.
        bindE (py_getitem obj (PInt 1)) (\<lambda>o1. write_obj S d o1 second_t m))))
      else if startswith obj_t ''std::map<'' \<or> startswith obj_t ''std::unordered_map<'' then
        bindE (unpack2 (template_split (template_args obj_t))) (\<lambda>(key_t, val_t).
        bindE (py_len obj) (\<lambda>n.
        bindE (marshal_write_v64 (PInt n) m) (\<lambda>m.
        bindE (py_iter obj) (\<lambda>ks.
        foldE (\<lambda>m k.
          bindE (write_obj S d k key_t m) (\<lambda>m.
          bindE (py_getitem obj k) (\<lambda>v. write_obj S d v val_t m))) m ks))))
      else if startswith obj_t ''std::vector<'' \<or> startswith obj_t ''std::list<'' \<or>
              startswith obj_t ''std::set<'' \<or> startswith obj_t ''std::unordered_set<'' then
        (let val_t = template_args obj_t in
        bindE (py_len obj) (\<lambda>n.
        bindE (marshal_write_v64 (PInt n) m) (\<lambda>m.
        bindE (py_iter obj) (\<lambda>vs.
        foldE (\<lambda>m v. write_obj S d v val_t m) m vs))))
      else
        bindE (dict_get S obj_t) (\<lambda>ty.
        foldE (\<lambda>m field.
          bindE (py_getattr obj (fst field)) (\<lambda>v. write_obj S d v (snd field) m)) m ty))"

text \<open>
  The counted loops of \<^verbatim>\<open>read_obj\<close> (\<^verbatim>\<open>for i in range(n)\<close>, no iteration for a negative \<open>n\<close>): a list that
  grows by one object per round, a set, and a dictionary.  Adding to a set or a dictionary hashes
  the element.
\<close>

definition set_add :: "pyval list \<Rightarrow> pyval \<Rightarrow> pyval list res" where
  "set_add st v = (if py_hashable v then Inr (if v \<in> set st then st else st @ [v]) else Inl TypeError)"

definition dict_set :: "(pyval \<times> pyval) list \<Rightarrow> pyval \<Rightarrow> pyval \<Rightarrow> (pyval \<times> pyval) list res" where
  "dict_set dic k v = (if py_hashable k then Inr (AList.update k v dic) else Inl TypeError)"

fun read_loop :: "('s \<Rightarrow> byte list \<Rightarrow> ('s \<times> byte list) res) \<Rightarrow> nat \<Rightarrow> 's \<Rightarrow> byte list \<Rightarrow> ('s \<times> byte list) res" where
  "read_loop body 0 acc m = Inr (acc, m)"
| "read_loop body (Suc n) acc m = bindE (body acc m) (\<lambda>(acc, m). read_loop body n acc m)"

definition read_count :: "byte \<Rightarrow> byte list \<Rightarrow> (nat \<times> byte list) res" where
  "read_count junk m = bindE (stream_read_v64 junk m) (\<lambda>(w, m). Inr (nat (sint w), m))"

fun read_obj :: "structs \<Rightarrow> byte \<Rightarrow> nat \<Rightarrow> string \<Rightarrow> byte list \<Rightarrow> (pyval \<times> byte list) res" where
  "read_obj S junk 0 obj_t m = Inl RecursionError"
| "read_obj S junk (Suc d) obj_t m =
     (if obj_t \<in> {''rrr::i8'', ''i8''} then marshal_read_i8 m
      else if obj_t \<in> {''rrr::i16'', ''i16''} then marshal_read_i16 m
      else if obj_t \<in> {''rrr::i32'', ''i32''} then marshal_read_i32 m
      else if obj_t \<in> {''rrr::i64'', ''i64''} then marshal_read_i64 m
      else if obj_t \<in> {''rrr::v32'', ''v32''} then marshal_read_v32 m
      else if obj_t \<in> {''rrr::v64'', ''v64''} then marshal_read_v64 junk m
      else if obj_t = ''double'' then marshal_read_double m
      else if obj_t \<in> {''std::string'', ''string''} then marshal_read_str junk m
      else if startswith obj_t ''std::pair<'' then
        bindE (unpack2 (template_split (template_args obj_t))) (\<lambda>(first_t, second_t).
        bindE (read_obj S junk d first_t m) (\<lambda>(first, m).
        bindE (read_obj S junk d second_t m) (\<lambda>(second, m).
        Inr (PTuple [first, second], m))))
      else if startswith obj_t ''std::map<'' \<or> startswith obj_t ''std::unordered_map<'' then
        bindE (unpack2 (template_split (template_args obj_t))) (\<lambda>(key_t, val_t).
        bindE (read_count junk m) (\<lambda>(n, m).
        bindE (read_loop (\<lambda>dic m.
          bindE (read_obj S junk d key_t m) (\<lambda>(k, m).
          bindE (read_obj S junk d val_t m) (\<lambda>(v, m).
          bindE (dict_set dic k v) (\<lambda>dic. Inr (dic, m))))) n [] m) (\<lambda>(dic, m).
        Inr (PDict dic, m))))
      else if startswith obj_t ''std::vector<'' \<or> startswith obj_t ''std::list<'' then
        (let val_t = template_args obj_t in
        bindE (read_count junk m) (\<lambda>(n, m).
        bindE (read_loop (\<lambda>lst m.
          bindE (read_obj S junk d val_t m) (\<lambda>(v, m). Inr (lst @ [v], m))) n [] m) (\<lambda>(lst, m).
        Inr (PList lst, m))))
      else if startswith obj_t ''std::set<'' \<or> startswith obj_t ''std::unordered_set<'' then
        (let val_t = template_args obj_t in
        bindE (read_count junk m) (\<lambda>(n, m).
        bindE (read_loop (\<lambda>st m.
          bindE (read_obj S junk d val_t m) (\<lambda>(v, m).
          bindE (set_add st v) (\<lambda>st. Inr (st, m)))) n [] m) (\<lambda>(st, m).
        Inr (PSet st, m))))
      else
        bindE (dict_get S obj_t) (\<lambda>ty.
        bindE (foldE (\<lambda>(vs, m) field.
          bindE (read_obj S junk d (snd field) m) (\<lambda>(v, m). Inr (vs @ [v], m))) ([], m) ty) (\<lambda>(vs, m).
        Inr (PObj obj_t (zip (map fst ty) vs), m))))"

end
