(* ===== verification/Marshal_Types.thy ===== *)
theory Marshal_Types
  imports Marshal
begin

text \<open>
  Type names as abstract syntax, and the round trip of \<^verbatim>\<open>Marshal.write_obj\<close> and \<^verbatim>\<open>Marshal.read_obj\<close>.
  \<open>render\<close> prints a type the way the RPC compiler writes it into the generated stubs; \<open>wt\<close> says which
  Python values a type has on the reading side (a pair is a tuple, a structure a named tuple, sizes
  fit the length prefix).  The contract of a coder is the locale \<open>wire_codec\<close>; the primitive
  operations of the extension module, the containers and finally \<open>write_obj\<close>/\<open>read_obj\<close> at every type
  are instances of it.
\<close>

section \<open>The contract of a coder\<close>

text \<open>
  Whatever the buffer holds, writing an admissible value appends some bytes, and reading from those
  bytes gives the value back and leaves what follows them.
\<close>

definition codes :: "('v \<Rightarrow> byte list \<Rightarrow> byte list res) \<Rightarrow> (byte list \<Rightarrow> ('v \<times> byte list) res) \<Rightarrow> 'v \<Rightarrow> byte list \<Rightarrow> bool" where
  "codes wr rd v bs \<longleftrightarrow> (\<forall>m. wr v m = Inr (m @ bs)) \<and> (\<forall>rest. rd (bs @ rest) = Inr (v, rest))"

lemma codesI:
  assumes "\<And>m. wr v m = Inr (m @ bs)" and "\<And>rest. rd (bs @ rest) = Inr (v, rest)"
  shows "codes wr rd v bs"
  using assms by (simp add: codes_def)

lemma codesD:
  assumes "codes wr rd v bs"
  shows "wr v m = Inr (m @ bs)" and "rd (bs @ rest) = Inr (v, rest)"
  using assms by (simp_all add: codes_def)

text \<open>Writing the elements of a list one after the other, and the loop that reads as many into a list.\<close>

definition write_seq :: "('v \<Rightarrow> byte list \<Rightarrow> byte list res) \<Rightarrow> 'v list \<Rightarrow> byte list \<Rightarrow> byte list res" where
  "write_seq wr vs m = foldE (\<lambda>m v. wr v m) m vs"

definition read_seq :: "(byte list \<Rightarrow> ('v \<times> byte list) res) \<Rightarrow> nat \<Rightarrow> 'v list \<Rightarrow> byte list \<Rightarrow> ('v list \<times> byte list) res" where
  "read_seq rd n acc m = read_loop (\<lambda>lst m. bindE (rd m) (\<lambda>(v, m). Inr (lst @ [v], m))) n acc m"

locale wire_codec =
  fixes wr :: "'v \<Rightarrow> byte list \<Rightarrow> byte list res"
    and rd :: "byte list \<Rightarrow> ('v \<times> byte list) res"
    and ok :: "'v \<Rightarrow> bool"
  assumes roundtrip: "ok v \<Longrightarrow> \<exists>bs. codes wr rd v bs"
begin

lemma seq_roundtrip:
  assumes "list_all ok vs"
  shows "\<exists>bs. (\<forall>m. write_seq wr vs m = Inr (m @ bs)) \<and>
    (\<forall>acc rest. read_seq rd (length vs) acc (bs @ rest) = Inr (acc @ vs, rest))"
  using assms
proof (induction vs)
  case Nil
  show ?case by (rule exI [of _ "[]"]) (simp add: write_seq_def read_seq_def)
next
  case (Cons v vs)
  from Cons.prems obtain b where b: "codes wr rd v b" using roundtrip [of v] by auto
  from Cons obtain bs where
    bs: "\<And>m. write_seq wr vs m = Inr (m @ bs)"
      "\<And>acc rest. read_seq rd (length vs) acc (bs @ rest) = Inr (acc @ vs, rest)" by auto
  show ?case
    by (rule exI [of _ "b @ bs"])
      (use bs in \<open>simp add: codesD [OF b] write_seq_def read_seq_def\<close>)
qed

text \<open>The same for a loop that builds a collection with an operation \<open>add\<close> that may refuse.\<close>

lemma collect_roundtrip:
  assumes "list_all ok vs"
    and "\<And>us w ws. vs = us @ w # ws \<Longrightarrow> add (col us) w = Inr (col (us @ [w]))"
  shows "\<exists>bs. (\<forall>m. write_seq wr vs m = Inr (m @ bs)) \<and>
    (\<forall>rest. read_loop (\<lambda>st m. bindE (rd m) (\<lambda>(v, m). bindE (add st v) (\<lambda>st. Inr (st, m))))
       (length vs) (col []) (bs @ rest) = Inr (col vs, rest))"
proof -
  have "\<exists>bs. (\<forall>m. write_seq wr ws m = Inr (m @ bs)) \<and>
    (\<forall>rest. read_loop (\<lambda>st m. bindE (rd m) (\<lambda>(v, m). bindE (add st v) (\<lambda>st. Inr (st, m))))
       (length ws) (col us) (bs @ rest) = Inr (col vs, rest))" if "vs = us @ ws" for us ws
    using that
  proof (induction ws arbitrary: us)
    case Nil
    then show ?case by (intro exI [of _ "[]"]) (simp add: write_seq_def)
  next
    case (Cons w ws)
    then have "ok w" using assms(1) by simp
    then obtain b where b: "codes wr rd w b" using roundtrip [of w] by auto
    from Cons.IH [of "us @ [w]"] Cons.prems obtain bs where
      bs: "\<And>m. write_seq wr ws m = Inr (m @ bs)"
        "\<And>rest. read_loop (\<lambda>st m. bindE (rd m) (\<lambda>(v, m). bindE (add st v) (\<lambda>st. Inr (st, m))))
          (length ws) (col (us @ [w])) (bs @ rest) = Inr (col vs, rest)" by auto
    show ?case
      by (rule exI [of _ "b @ bs"])
        (use bs assms(2) [OF Cons.prems] in \<open>simp add: codesD [OF b] write_seq_def\<close>)
  qed
  from this [of "[]" vs] show ?thesis by simp
qed

end

section \<open>Abstract syntax of type names\<close>

datatype prim = I8 | I16 | I32 | I64 | V32 | V64 | Dbl | Str

datatype ty =
    TPrim prim
  | TPair ty ty
  | TMap bool ty ty    \<comment> \<open>the flag selects the unordered container\<close>
  | TSeq bool ty       \<comment> \<open>vector or list\<close>
  | TSet bool ty
  | TStruct string

fun prim_name :: "prim \<Rightarrow> string" where
  "prim_name I8 = ''rrr::i8''"
| "prim_name I16 = ''rrr::i16''"
| "prim_name I32 = ''rrr::i32''"
| "prim_name I64 = ''rrr::i64''"
| "prim_name V32 = ''rrr::v32''"
| "prim_name V64 = ''rrr::v64''"
| "prim_name Dbl = ''double''"
| "prim_name Str = ''std::string''"

fun render :: "ty \<Rightarrow> string" where
  "render (TPrim p) = prim_name p"
| "render (TPair a b) = ''std::pair<'' @ render a @ '', '' @ render b @ ''>''"
| "render (TMap u a b) =
     (if u then ''std::unordered_map<'' else ''std::map<'') @ render a @ '', '' @ render b @ ''>''"
| "render (TSeq l a) = (if l then ''std::list<'' else ''std::vector<'') @ render a @ ''>''"
| "render (TSet u a) = (if u then ''std::unordered_set<'' else ''std::set<'') @ render a @ ''>''"
| "render (TStruct n) = n"

definition builtin_names :: "string list" where
  "builtin_names =
     [''rrr::i8'', ''i8'', ''rrr::i16'', ''i16'', ''rrr::i32'', ''i32'', ''rrr::i64'', ''i64'',
      ''rrr::v32'', ''v32'', ''rrr::v64'', ''v64'', ''double'', ''DepId'', ''std::string'', ''string'']"

text \<open>A structure name: no brackets, commas or blanks, and not one of the names with a meaning of their own.\<close>

definition struct_name_ok :: "string \<Rightarrow> bool" where
  "struct_name_ok n \<longleftrightarrow>
     n \<noteq> [] \<and> list_all (\<lambda>c. c \<notin> {CHR ''<'', CHR ''>'', CHR '',''} \<and> \<not> py_space c) n \<and>
     n \<notin> set builtin_names"

fun ty_ok :: "ty \<Rightarrow> bool" where
  "ty_ok (TPrim p) = True"
| "ty_ok (TPair a b) = (ty_ok a \<and> ty_ok b)"
| "ty_ok (TMap u a b) = (ty_ok a \<and> ty_ok b)"
| "ty_ok (TSeq l a) = ty_ok a"
| "ty_ok (TSet u a) = ty_ok a"
| "ty_ok (TStruct n) = struct_name_ok n"

type_synonym tenv = "(string \<times> (string \<times> ty) list) list"

definition env_ok :: "tenv \<Rightarrow> bool" where
  "env_ok E \<longleftrightarrow> list_all (\<lambda>(n, fs). list_all (\<lambda>(f, t). ty_ok t) fs \<and> distinct (map fst fs)) E"

definition render_env :: "tenv \<Rightarrow> structs" where
  "render_env E = map (\<lambda>(n, fs). (n, map (\<lambda>(f, t). (f, render t)) fs)) E"

section \<open>Splitting a rendered argument list\<close>

lemma render_edges:
  assumes "ty_ok t"
  shows "render t \<noteq> [] \<and> \<not> py_space (hd (render t)) \<and> \<not> py_space (last (render t))"
proof (cases t)
  case (TPrim p)
  then show ?thesis by (cases p) (simp_all add: py_space_def)
next
  case (TStruct n)
  then show ?thesis using assms by (auto simp: struct_name_ok_def list_all_iff)
qed (simp_all add: py_space_def)

lemma strip_render: "ty_ok t \<Longrightarrow> py_strip (render t) = render t"
  using render_edges strip_edges by blast

lemma split_step_simps:
  "c \<noteq> CHR ''<'' \<Longrightarrow> c \<noteq> CHR ''>'' \<Longrightarrow> c \<noteq> CHR '','' \<Longrightarrow>
     template_split_step (splt, l, sp) c = (splt, l, sp @ [c])"
  "template_split_step (splt, l, sp) (CHR ''<'') = (splt, l + 1, sp @ ''<'')"
  "template_split_step (splt, l, sp) (CHR ''>'') = (splt, l - 1, sp @ ''>'')"
  "l \<noteq> 0 \<Longrightarrow> template_split_step (splt, l, sp) (CHR '','') = (splt, l, sp @ '','')"
  "template_split_step (splt, 0, sp) (CHR '','') = (splt @ [py_strip sp], 0, [])"
  by (simp_all add: template_split_step_def)

lemma foldl_split_plain:
  assumes "list_all (\<lambda>c. c \<notin> {CHR ''<'', CHR ''>'', CHR '',''}) s"
  shows "foldl template_split_step (splt, l, sp) s = (splt, l, sp @ s)"
  using assms by (induction s arbitrary: sp) (simp_all add: split_step_simps)

lemma foldl_split_open:
  "foldl template_split_step (splt, l, sp) (''std::pair<'' @ s) =
     foldl template_split_step (splt, l + 1, sp @ ''std::pair<'') s"
  "foldl template_split_step (splt, l, sp) (''std::map<'' @ s) =
     foldl template_split_step (splt, l + 1, sp @ ''std::map<'') s"
  "foldl template_split_step (splt, l, sp) (''std::unordered_map<'' @ s) =
     foldl template_split_step (splt, l + 1, sp @ ''std::unordered_map<'') s"
  "foldl template_split_step (splt, l, sp) (''std::vector<'' @ s) =
     foldl template_split_step (splt, l + 1, sp @ ''std::vector<'') s"
  "foldl template_split_step (splt, l, sp) (''std::list<'' @ s) =
     foldl template_split_step (splt, l + 1, sp @ ''std::list<'') s"
  "foldl template_split_step (splt, l, sp) (''std::set<'' @ s) =
     foldl template_split_step (splt, l + 1, sp @ ''std::set<'') s"
  "foldl template_split_step (splt, l, sp) (''std::unordered_set<'' @ s) =
     foldl template_split_step (splt, l + 1, sp @ ''std::unordered_set<'') s"
  by (simp_all add: split_step_simps)

lemma foldl_split_close:
  "foldl template_split_step (splt, l + 1, sp) (''>'') = (splt, l, sp @ ''>'')"
  by (simp add: split_step_simps)

lemma foldl_split_inner_comma:
  "0 \<le> l \<Longrightarrow> foldl template_split_step (splt, l + 1, sp) ('', '' @ s) =
     foldl template_split_step (splt, l + 1, sp @ '', '') s"
  by (simp add: split_step_simps)

lemma foldl_split_args2:
  assumes "\<And>sp. foldl template_split_step (splt, l + 1, sp) a = (splt, l + 1, sp @ a)"
    and "\<And>sp. foldl template_split_step (splt, l + 1, sp) b = (splt, l + 1, sp @ b)"
    and "0 \<le> l"
  shows "foldl template_split_step (splt, l + 1, sp) (a @ '', '' @ b @ ''>'') = (splt, l, sp @ a @ '', '' @ b @ ''>'')"
  unfolding foldl_append [of _ _ a] assms(1) foldl_split_inner_comma [OF assms(3)]
  unfolding foldl_append [of _ _ b] assms(2) foldl_split_close by simp

lemma foldl_split_args1:
  assumes "\<And>sp. foldl template_split_step (splt, l + 1, sp) a = (splt, l + 1, sp @ a)"
  shows "foldl template_split_step (splt, l + 1, sp) (a @ ''>'') = (splt, l, sp @ a @ ''>'')"
  unfolding foldl_append assms foldl_split_close by simp

lemma foldl_split_render:
  assumes "ty_ok t" and "0 \<le> l"
  shows "foldl template_split_step (splt, l, sp) (render t) = (splt, l, sp @ render t)"
  using assms
proof (induction t arbitrary: l sp)
  case (TPrim p)
  show ?case by (cases p) (simp_all add: split_step_simps)
next
  case (TStruct n)
  then have "list_all (\<lambda>c. c \<notin> {CHR ''<'', CHR ''>'', CHR '',''}) n"
    by (simp add: struct_name_ok_def list_all_iff)
  then show ?case by (simp only: render.simps foldl_split_plain)
next
  case (TPair a b)
  then have "0 \<le> l + 1" by simp
  with TPair show ?case
    by (simp only: render.simps ty_ok.simps foldl_split_open foldl_split_args2 append_assoc)
next
  case (TMap u a b)
  then have "0 \<le> l + 1" by simp
  with TMap show ?case
    by (cases u; simp only: render.simps ty_ok.simps if_True if_False foldl_split_open foldl_split_args2 append_assoc)
next
  case (TSeq u a)
  then have "0 \<le> l + 1" by simp
  with TSeq show ?case
    by (cases u; simp only: render.simps ty_ok.simps if_True if_False foldl_split_open foldl_split_args1 append_assoc)
next
  case (TSet u a)
  then have "0 \<le> l + 1" by simp
  with TSet show ?case
    by (cases u; simp only: render.simps ty_ok.simps if_True if_False foldl_split_open foldl_split_args1 append_assoc)
qed

lemma template_split_render2:
  assumes "ty_ok a" and "ty_ok b"
  shows "template_split (render a @ CHR '','' # CHR '' '' # render b) = [render a, render b]"
proof -
  have "foldl template_split_step ([], 0, []) (render a @ CHR '','' # CHR '' '' # render b)
      = ([render a], 0, CHR '' '' # render b)"
    using assms by (simp add: foldl_split_render split_step_simps strip_render)
  moreover have "py_strip (CHR '' '' # render b) = render b"
    using assms by (simp add: strip_leading_space py_space_def strip_render)
  ultimately show ?thesis
    using render_edges [OF assms(2)] by (simp add: template_split_def)
qed

lemma template_args_render [simp]:
  "template_args (render (TPair a b)) = render a @ CHR '','' # CHR '' '' # render b"
  "template_args (render (TMap u a b)) = render a @ CHR '','' # CHR '' '' # render b"
  "template_args (render (TSeq l a)) = render a"
  "template_args (render (TSet u a)) = render a"
  by (simp_all add: template_args_def butlast_append)

section \<open>The methods at a rendered type\<close>

lemma pair_lists [simp]: "unpack2 [a, b] = Inr (a, b)"
  by (simp add: unpack2_def)

text \<open>Which branch a rendered type name selects.\<close>

lemma write_obj_pair:
  assumes "ty_ok a" "ty_ok b"
  shows "write_obj S (Suc d) obj (render (TPair a b)) m =
    bindE (py_getitem obj (PInt 0)) (\<lambda>o0.
    bindE (write_obj S d o0 (render a) m) (\<lambda>m.
    bindE (py_getitem obj (PInt 1)) (\<lambda>o1. write_obj S d o1 (render b) m)))"
  using assms by (simp add: template_args_def butlast_append template_split_render2)

lemma read_obj_pair:
  assumes "ty_ok a" "ty_ok b"
  shows "read_obj S junk (Suc d) (render (TPair a b)) m =
    bindE (read_obj S junk d (render a) m) (\<lambda>(first, m).
    bindE (read_obj S junk d (render b) m) (\<lambda>(second, m).
    Inr (PTuple [first, second], m)))"
  using assms by (simp add: template_args_def butlast_append template_split_render2)

lemma write_obj_map:
  assumes "ty_ok a" "ty_ok b"
  shows "write_obj S (Suc d) obj (render (TMap u a b)) m =
    bindE (py_len obj) (\<lambda>n.
    bindE (marshal_write_v64 (PInt n) m) (\<lambda>m.
    bindE (py_iter obj) (\<lambda>ks.
    foldE (\<lambda>m k.
      bindE (write_obj S d k (render a) m) (\<lambda>m.
      bindE (py_getitem obj k) (\<lambda>v. write_obj S d v (render b) m))) m ks)))"
  using assms by (cases u) (simp_all add: template_args_def butlast_append template_split_render2)

lemma read_obj_map:
  assumes "ty_ok a" "ty_ok b"
  shows "read_obj S junk (Suc d) (render (TMap u a b)) m =
    bindE (read_count junk m) (\<lambda>(n, m).
    bindE (read_loop (\<lambda>dic m.
      bindE (read_obj S junk d (render a) m) (\<lambda>(k, m).
      bindE (read_obj S junk d (render b) m) (\<lambda>(v, m).
      bindE (dict_set dic k v) (\<lambda>dic. Inr (dic, m))))) n [] m) (\<lambda>(dic, m).
    Inr (PDict dic, m)))"
  using assms by (cases u) (simp_all add: template_args_def butlast_append template_split_render2)

lemma write_obj_seq:
  assumes "t = TSeq u a \<or> t = TSet u a"
  shows "write_obj S (Suc d) obj (render t) m =
    bindE (py_len obj) (\<lambda>n.
    bindE (marshal_write_v64 (PInt n) m) (\<lambda>m.
    bindE (py_iter obj) (\<lambda>vs. write_seq (\<lambda>v. write_obj S d v (render a)) vs m)))"
  using assms
  by (elim disjE; cases u) (simp_all add: template_args_def butlast_append write_seq_def)

lemma read_obj_seq:
  "read_obj S junk (Suc d) (render (TSeq u a)) m =
    bindE (read_count junk m) (\<lambda>(n, m).
    bindE (read_seq (read_obj S junk d (render a)) n [] m) (\<lambda>(lst, m).
    Inr (PList lst, m)))"
  by (cases u) (simp_all add: template_args_def butlast_append read_seq_def)

lemma read_obj_set:
  "read_obj S junk (Suc d) (render (TSet u a)) m =
    bindE (read_count junk m) (\<lambda>(n, m).
    bindE (read_loop (\<lambda>st m.
      bindE (read_obj S junk d (render a) m) (\<lambda>(v, m).
      bindE (set_add st v) (\<lambda>st. Inr (st, m)))) n [] m) (\<lambda>(st, m).
    Inr (PSet st, m)))"
  by (cases u) (simp_all add: template_args_def butlast_append)

lemma struct_name_no_template:
  assumes "struct_name_ok n" and "CHR ''<'' \<in> set p"
  shows "\<not> startswith n p"
  using assms startswith_set [of n p] by (auto simp: struct_name_ok_def list_all_iff)

lemma struct_obj:
  assumes "struct_name_ok n"
  shows "write_obj S (Suc d) obj (render (TStruct n)) m =
      bindE (dict_get S n) (\<lambda>ty.
      foldE (\<lambda>m field. bindE (py_getattr obj (fst field)) (\<lambda>v. write_obj S d v (snd field) m)) m ty)"
    and "read_obj S junk (Suc d) (render (TStruct n)) m =
      bindE (dict_get S n) (\<lambda>ty.
      bindE (foldE (\<lambda>(vs, m) field.
        bindE (read_obj S junk d (snd field) m) (\<lambda>(v, m). Inr (vs @ [v], m))) ([], m) ty) (\<lambda>(vs, m).
      Inr (PObj n (zip (map fst ty) vs), m)))"
proof -
  have "n \<notin> set builtin_names" using assms by (simp add: struct_name_ok_def)
  then have names: "n \<noteq> ''rrr::i8''" "n \<noteq> ''i8''" "n \<noteq> ''rrr::i16''" "n \<noteq> ''i16''" "n \<noteq> ''rrr::i32''"
    "n \<noteq> ''i32''" "n \<noteq> ''rrr::i64''" "n \<noteq> ''i64''" "n \<noteq> ''rrr::v32''" "n \<noteq> ''v32''" "n \<noteq> ''rrr::v64''"
    "n \<noteq> ''v64''" "n \<noteq> ''double''" "n \<noteq> ''DepId''" "n \<noteq> ''std::string''" "n \<noteq> ''string''"
    by (auto simp: builtin_names_def)
  have templates: "\<not> startswith n ''std::pair<''" "\<not> startswith n ''std::map<''"
    "\<not> startswith n ''std::unordered_map<''" "\<not> startswith n ''std::vector<''" "\<not> startswith n ''std::list<''"
    "\<not> startswith n ''std::set<''" "\<not> startswith n ''std::unordered_set<''"
    by (rule struct_name_no_template [OF assms], simp)+
  show "write_obj S (Suc d) obj (render (TStruct n)) m =
      bindE (dict_get S n) (\<lambda>ty.
      foldE (\<lambda>m field. bindE (py_getattr obj (fst field)) (\<lambda>v. write_obj S d v (snd field) m)) m ty)"
    by (simp only: write_obj.simps render.simps names templates insert_iff empty_iff simp_thms if_False)
  show "read_obj S junk (Suc d) (render (TStruct n)) m =
      bindE (dict_get S n) (\<lambda>ty.
      bindE (foldE (\<lambda>(vs, m) field.
        bindE (read_obj S junk d (snd field) m) (\<lambda>(v, m). Inr (vs @ [v], m))) ([], m) ty) (\<lambda>(vs, m).
      Inr (PObj n (zip (map fst ty) vs), m)))"
    by (simp only: read_obj.simps render.simps names templates insert_iff empty_iff simp_thms if_False)
qed

section \<open>Well-typed values\<close>

text \<open>A length the prefix can carry: it must not need the eight-byte code of \<open>dump_i64\<close>.\<close>

definition len_ok :: "'a list \<Rightarrow> bool" where
  "len_ok xs \<longleftrightarrow> length xs < 2 ^ 48"

definition int_fits :: "nat \<Rightarrow> int \<Rightarrow> bool" where
  "int_fits w i \<longleftrightarrow> - (2 ^ (w - 1)) \<le> i \<and> i < 2 ^ (w - 1)"

fun wt_prim :: "prim \<Rightarrow> pyval \<Rightarrow> bool" where
  "wt_prim I8 (PInt i) = int_fits 8 i"
| "wt_prim I16 (PInt i) = int_fits 16 i"
| "wt_prim I32 (PInt i) = int_fits 32 i"
| "wt_prim I64 (PInt i) = int_fits 64 i"
| "wt_prim V32 (PInt i) = int_fits 32 i"
| "wt_prim V64 (PInt i) = (int_fits 64 i \<and> val_size i \<noteq> 8)"
| "wt_prim Dbl (PFloat w) = True"
| "wt_prim Str (PBytes bs) = len_ok bs"
| "wt_prim _ _ = False"

fun wt :: "tenv \<Rightarrow> nat \<Rightarrow> ty \<Rightarrow> pyval \<Rightarrow> bool" where
  "wt E 0 t v = False"
| "wt E (Suc d) (TPrim p) v = wt_prim p v"
| "wt E (Suc d) (TPair a b) v = (case v of PTuple [x, y] \<Rightarrow> wt E d a x \<and> wt E d b y | _ \<Rightarrow> False)"
| "wt E (Suc d) (TMap u a b) v =
     (case v of
        PDict kvs \<Rightarrow> len_ok kvs \<and> distinct (map fst kvs) \<and>
          list_all (\<lambda>(k, x). py_hashable k \<and> wt E d a k \<and> wt E d b x) kvs
      | _ \<Rightarrow> False)"
| "wt E (Suc d) (TSeq l a) v = (case v of PList xs \<Rightarrow> len_ok xs \<and> list_all (wt E d a) xs | _ \<Rightarrow> False)"
| "wt E (Suc d) (TSet u a) v =
     (case v of
        PSet xs \<Rightarrow> len_ok xs \<and> distinct xs \<and> list_all (\<lambda>x. py_hashable x \<and> wt E d a x) xs
      | _ \<Rightarrow> False)"
| "wt E (Suc d) (TStruct n) v =
     (case v of
        PObj c fs \<Rightarrow> c = n \<and>
          (case map_of E n of
             Some fields \<Rightarrow> list_all2 (\<lambda>(f, x) (g, t). f = g \<and> wt E d t x) fs fields
           | None \<Rightarrow> False)
      | _ \<Rightarrow> False)"

lemmas wt_numeral = wt.simps(2-7) [of _ "pred_numeral k" for k, folded numeral_eq_Suc]

section \<open>Primitive coders\<close>

lemma sint_of_int_fits:
  assumes "int_fits LENGTH('a) i"
  shows "sint (word_of_int i :: 'a::len word) = i"
  using assms by (simp add: int_fits_def sint_sbintrunc' signed_take_bit_int_eq_self)

lemma int_fits_mono:
  assumes "int_fits w i" and "0 < w" and "w \<le> 64"
  shows "- (2 ^ 63) \<le> i \<and> i < 2 ^ 63"
proof -
  have "(2 :: int) ^ (w - 1) \<le> 2 ^ 63" using assms(2,3) by (intro power_increasing) auto
  then show ?thesis using assms(1) unfolding int_fits_def by linarith
qed

lemma parse_long_fits:
  assumes "int_fits w i" and "0 < w" and "w \<le> 64"
  shows "parse_long (PInt i) = Inr i"
  using int_fits_mono [OF assms] by (simp add: parse_long_def)

lemma count_fits:
  assumes "n < 2 ^ 48"
  shows "int_fits 64 (int n)" and "val_size (int n) < 8"
proof -
  have "int n < 2 ^ 48" using assms by (metis of_nat_less_iff of_nat_numeral of_nat_power)
  then show "int_fits 64 (int n)" "val_size (int n) < 8" by (simp_all add: int_fits_def val_size_def)
qed

lemma stream_count:
  assumes "n < 2 ^ 48"
  shows "stream_read_v64 junk (stream_write_v64 (word_of_int (int n)) [] @ rest) = Inr (word_of_int (int n), rest)"
    and "sint (word_of_int (int n) :: i64) = int n"
proof -
  show s: "sint (word_of_int (int n) :: i64) = int n"
    by (rule sint_of_int_fits) (use count_fits(1) [OF assms] in simp)
  show "stream_read_v64 junk (stream_write_v64 (word_of_int (int n)) [] @ rest) = Inr (word_of_int (int n), rest)"
    by (rule stream_v64_roundtrip) (use count_fits(2) [OF assms] s in simp)
qed

text \<open>The length prefix of a container.\<close>

lemma count_codes:
  assumes "n < 2 ^ 48"
  shows "\<exists>cb. (\<forall>m. marshal_write_v64 (PInt (int n)) m = Inr (m @ cb)) \<and>
    (\<forall>rest. read_count junk (cb @ rest) = Inr (n, rest))"
proof (intro exI conjI allI)
  let ?cb = "dump_bytes (dump_i64 (word_of_int (int n)))"
  have cb: "?cb = stream_write_v64 (word_of_int (int n)) []" by (simp add: stream_write_v64_def)
  show "marshal_write_v64 (PInt (int n)) m = Inr (m @ ?cb)" for m
    using parse_long_fits [OF count_fits(1) [OF assms]]
    by (simp add: marshal_write_v64_def stream_write_v64_def)
  show "read_count junk (?cb @ rest) = Inr (n, rest)" for rest
    unfolding cb read_count_def stream_count(1) [OF assms] using stream_count(2) [OF assms] by simp
qed

lemma prim_codes:
  assumes "wt_prim p v"
  shows "\<exists>bs. codes (\<lambda>v. write_obj S (Suc d) v (prim_name p)) (read_obj S junk (Suc d) (prim_name p)) v bs"
  using assms
proof (cases rule: wt_prim.elims(2))
  case (1 i)
  then have "parse_long (PInt i) = Inr i" "sint (word_of_int i :: i8) = i"
    using assms sint_of_int_fits [where 'a = 8, of i] by (auto intro!: parse_long_fits [of 8])
  then show ?thesis unfolding 1
    by (intro exI [of _ "memcpy_out (word_of_int i :: i8)"] codesI)
      (simp_all add: marshal_write_i8_def marshal_read_i8_def)
next
  case (2 i)
  then have "parse_long (PInt i) = Inr i" "sint (word_of_int i :: i16) = i"
    using assms sint_of_int_fits [where 'a = 16, of i] by (auto intro!: parse_long_fits [of 16])
  then show ?thesis unfolding 2
    by (intro exI [of _ "memcpy_out (word_of_int i :: i16)"] codesI)
      (simp_all add: marshal_write_i16_def marshal_read_i16_def)
next
  case (3 i)
  then have "parse_long (PInt i) = Inr i" "sint (word_of_int i :: i32) = i"
    using assms sint_of_int_fits [where 'a = 32, of i] by (auto intro!: parse_long_fits [of 32])
  then show ?thesis unfolding 3
    by (intro exI [of _ "memcpy_out (word_of_int i :: i32)"] codesI)
      (simp_all add: marshal_write_i32_def marshal_read_i32_def)
next
  case (4 i)
  then have "parse_long (PInt i) = Inr i" "sint (word_of_int i :: i64) = i"
    using assms sint_of_int_fits [where 'a = 64, of i] by (auto intro!: parse_long_fits [of 64])
  then show ?thesis unfolding 4
    by (intro exI [of _ "memcpy_out (word_of_int i :: i64)"] codesI)
      (simp_all add: marshal_write_i64_def marshal_read_i64_def)
next
  case (5 i)
  then have "parse_long (PInt i) = Inr i" "sint (word_of_int i :: i32) = i"
    using assms sint_of_int_fits [where 'a = 32, of i] by (auto intro!: parse_long_fits [of 32])
  then show ?thesis unfolding 5
    by (intro exI [of _ "dump_bytes (dump_i32 (word_of_int i))"] codesI)
      (simp_all add: marshal_write_v32_def marshal_read_v32_def stream_v32_roundtrip)
next
  case (6 i)
  then have i: "parse_long (PInt i) = Inr i" "sint (word_of_int i :: i64) = i" "val_size i \<noteq> 8"
    using assms sint_of_int_fits [where 'a = 64, of i] by (auto intro!: parse_long_fits [of 64])
  have "stream_read_v64 junk (stream_write_v64 (word_of_int i) [] @ rest) = Inr (word_of_int i, rest)" for rest
    by (rule stream_v64_roundtrip) (simp add: i)
  then show ?thesis unfolding 6 using i
    by (intro exI [of _ "dump_bytes (dump_i64 (word_of_int i))"] codesI)
      (simp_all add: marshal_write_v64_def marshal_read_v64_def stream_write_v64_def)
next
  case (7 w)
  then show ?thesis
    by (intro exI [of _ "memcpy_out w"] codesI)
      (simp_all add: marshal_write_double_def marshal_read_double_def parse_double_def)
next
  case (8 bs)
  then have "length bs < 2 ^ 48" using assms by (simp add: len_ok_def)
  note c = stream_count [OF this]
  show ?thesis unfolding 8
    by (intro exI [of _ "stream_write_v64 (word_of_int (int (length bs))) [] @ bs"] codesI)
      (use c(1) [of junk "bs @ rest" for rest] c(2) in
        \<open>simp_all add: marshal_write_str_def marshal_read_str_def stream_write_v64_def\<close>)
qed

end
