(* ===== verification/Marshal_Roundtrip.thy ===== *)
theory Marshal_Roundtrip
  imports Marshal_Types
begin

text \<open>
  The round trip of \<^verbatim>\<open>Marshal.write_obj\<close> and \<^verbatim>\<open>Marshal.read_obj\<close>: at every type the RPC compiler can write,
  the two methods satisfy the contract \<open>wire_codec\<close> on the well-typed values.
\<close>

section \<open>Containers\<close>

abbreviation obj_codec :: "tenv \<Rightarrow> byte \<Rightarrow> nat \<Rightarrow> ty \<Rightarrow> bool" where
  "obj_codec E junk d t \<equiv>
     wire_codec (\<lambda>v. write_obj (render_env E) d v (render t)) (read_obj (render_env E) junk d (render t)) (wt E d t)"

lemma wire_codecI: "(\<And>v. ok v \<Longrightarrow> \<exists>bs. codes wr rd v bs) \<Longrightarrow> wire_codec wr rd ok"
  by (rule wire_codec.intro)

lemma py_len_simps [simp]:
  "py_len (PList xs) = Inr (int (length xs))"
  "py_len (PSet xs) = Inr (int (length xs))"
  "py_len (PDict kvs) = Inr (int (length kvs))"
  by (simp_all add: py_len_def)

lemma obj_codec_pair:
  assumes "ty_ok a" "ty_ok b" "obj_codec E junk d a" "obj_codec E junk d b"
  shows "obj_codec E junk (Suc d) (TPair a b)"
proof (rule wire_codecI)
  fix v
  assume "wt E (Suc d) (TPair a b) v"
  then obtain x y where v: "v = PTuple [x, y]" and w: "wt E d a x" "wt E d b y"
    by (auto split: pyval.splits list.splits)
  obtain p q where
    p: "codes (\<lambda>v. write_obj (render_env E) d v (render a)) (read_obj (render_env E) junk d (render a)) x p" and
    q: "codes (\<lambda>v. write_obj (render_env E) d v (render b)) (read_obj (render_env E) junk d (render b)) y q"
    using wire_codec.roundtrip [OF assms(3) w(1)] wire_codec.roundtrip [OF assms(4) w(2)] by blast
  show "\<exists>bs. codes (\<lambda>v. write_obj (render_env E) (Suc d) v (render (TPair a b)))
      (read_obj (render_env E) junk (Suc d) (render (TPair a b))) v bs"
    by (rule exI [of _ "p @ q"], rule codesI)
      (simp_all only: v write_obj_pair [OF assms(1,2)] read_obj_pair [OF assms(1,2)],
        simp_all add: codesD [OF p] codesD [OF q] py_nth_def py_index_def)
qed

lemma obj_codec_seq:
  assumes "obj_codec E junk d a"
  shows "obj_codec E junk (Suc d) (TSeq u a)"
proof (rule wire_codecI)
  fix v
  assume "wt E (Suc d) (TSeq u a) v"
  then obtain xs where v: "v = PList xs" and w: "list_all (wt E d a) xs" and l: "length xs < 2 ^ 48"
    by (auto simp: len_ok_def split: pyval.splits)
  obtain cb where cb: "\<And>m. marshal_write_v64 (PInt (int (length xs))) m = Inr (m @ cb)"
      "\<And>rest. read_count junk (cb @ rest) = Inr (length xs, rest)"
    using count_codes [OF l] by blast
  obtain bs where
    bs: "\<And>m. write_seq (\<lambda>v. write_obj (render_env E) d v (render a)) xs m = Inr (m @ bs)"
      "\<And>acc rest. read_seq (read_obj (render_env E) junk d (render a)) (length xs) acc (bs @ rest) = Inr (acc @ xs, rest)"
    using wire_codec.seq_roundtrip [OF assms w] by blast
  have t: "TSeq u a = TSeq u a \<or> TSeq u a = TSet u a" by simp
  show "\<exists>bs. codes (\<lambda>v. write_obj (render_env E) (Suc d) v (render (TSeq u a)))
      (read_obj (render_env E) junk (Suc d) (render (TSeq u a))) v bs"
    by (rule exI [of _ "cb @ bs"], rule codesI)
      (simp_all only: v write_obj_seq [OF t] read_obj_seq, simp_all add: cb bs py_iter_def)
qed

lemma set_add_new:
  assumes "distinct (us @ w # ws)" "py_hashable w"
  shows "set_add us w = Inr (us @ [w])"
  using assms by (simp add: set_add_def)

lemma obj_codec_set:
  assumes "obj_codec E junk d a"
  shows "obj_codec E junk (Suc d) (TSet u a)"
proof (rule wire_codecI)
  fix v
  assume "wt E (Suc d) (TSet u a) v"
  then obtain xs where v: "v = PSet xs" and w: "list_all (wt E d a) xs" and l: "length xs < 2 ^ 48"
      and xs: "distinct xs" "list_all py_hashable xs"
    by (auto simp: len_ok_def list_all_iff split: pyval.splits)
  obtain cb where cb: "\<And>m. marshal_write_v64 (PInt (int (length xs))) m = Inr (m @ cb)"
      "\<And>rest. read_count junk (cb @ rest) = Inr (length xs, rest)"
    using count_codes [OF l] by blast
  have add: "set_add us w = Inr (us @ [w])" if "xs = us @ w # ws" for us w ws
    using set_add_new [of us w ws] xs that by simp
  obtain bs where
    bs: "\<And>m. write_seq (\<lambda>v. write_obj (render_env E) d v (render a)) xs m = Inr (m @ bs)"
      "\<And>rest. read_loop (\<lambda>st m. bindE (read_obj (render_env E) junk d (render a) m)
         (\<lambda>(v, m). bindE (set_add st v) (\<lambda>st. Inr (st, m)))) (length xs) [] (bs @ rest) = Inr (xs, rest)"
    using wire_codec.collect_roundtrip [OF assms w, of set_add "\<lambda>us. us"] add by blast
  have t: "TSet u a = TSeq u a \<or> TSet u a = TSet u a" by simp
  show "\<exists>bs. codes (\<lambda>v. write_obj (render_env E) (Suc d) v (render (TSet u a)))
      (read_obj (render_env E) junk (Suc d) (render (TSet u a))) v bs"
    by (rule exI [of _ "cb @ bs"], rule codesI)
      (simp_all only: v write_obj_seq [OF t] read_obj_set, simp_all add: cb bs py_iter_def)
qed

text \<open>The items of a dictionary, as one coder for key and value.\<close>

definition write_item where
  "write_item wk wv kv m = bindE (wk (fst kv) m) (\<lambda>m. wv (snd kv) m)"

definition read_item where
  "read_item rk rv m = bindE (rk m) (\<lambda>(k, m). bindE (rv m) (\<lambda>(v, m). Inr ((k, v), m)))"

lemma item_codec:
  assumes "wire_codec wk rk okk" "wire_codec wv rv okv"
  shows "wire_codec (write_item wk wv) (read_item rk rv) (\<lambda>kv. okk (fst kv) \<and> okv (snd kv))"
proof (rule wire_codecI)
  fix kv
  assume "okk (fst kv) \<and> okv (snd kv)"
  then obtain p q where p: "codes wk rk (fst kv) p" and q: "codes wv rv (snd kv) q"
    using wire_codec.roundtrip [OF assms(1)] wire_codec.roundtrip [OF assms(2)] by blast
  show "\<exists>bs. codes (write_item wk wv) (read_item rk rv) kv bs"
    by (rule exI [of _ "p @ q"], rule codesI)
      (simp_all add: write_item_def read_item_def codesD [OF p] codesD [OF q])
qed

lemma write_items:
  assumes "\<And>k v. (k, v) \<in> set kvs \<Longrightarrow> dict_get D k = Inr v"
  shows "foldE (\<lambda>m k. bindE (wk k m) (\<lambda>m. bindE (dict_get D k) (\<lambda>v. wv v m))) m (map fst kvs) =
    write_seq (write_item wk wv) kvs m"
  using assms
proof (induction kvs arbitrary: m)
  case (Cons kv kvs)
  have "dict_get D (fst kv) = Inr (snd kv)" using Cons.prems [of "fst kv" "snd kv"] by simp
  moreover have "foldE (\<lambda>m k. bindE (wk k m) (\<lambda>m. bindE (dict_get D k) (\<lambda>v. wv v m))) m' (map fst kvs) =
      write_seq (write_item wk wv) kvs m'" for m'
    using Cons by simp
  ultimately show ?case by (simp add: write_seq_def write_item_def)
qed (simp add: write_seq_def)

lemma dict_set_new:
  assumes "distinct (map fst (us @ w # ws))" "py_hashable (fst w)"
  shows "dict_set us (fst w) (snd w) = Inr (us @ [w])"
  using assms by (simp add: dict_set_def update_new)

lemma read_items_body:
  "bindE (read_item rk rv m) (\<lambda>(kv, m). bindE (dict_set dic (fst kv) (snd kv)) (\<lambda>dic. Inr (dic, m))) =
   bindE (rk m) (\<lambda>(k, m). bindE (rv m) (\<lambda>(v, m). bindE (dict_set dic k v) (\<lambda>dic. Inr (dic, m))))"
  by (simp add: read_item_def bindE_assoc split_def)

lemma obj_codec_map:
  assumes "ty_ok a" "ty_ok b" "obj_codec E junk d a" "obj_codec E junk d b"
  shows "obj_codec E junk (Suc d) (TMap u a b)"
proof (rule wire_codecI)
  let ?wk = "\<lambda>v. write_obj (render_env E) d v (render a)" and ?rk = "read_obj (render_env E) junk d (render a)"
  let ?wv = "\<lambda>v. write_obj (render_env E) d v (render b)" and ?rv = "read_obj (render_env E) junk d (render b)"
  fix v
  assume "wt E (Suc d) (TMap u a b) v"
  then obtain kvs where v: "v = PDict kvs" and l: "length kvs < 2 ^ 48"
      and w: "list_all (\<lambda>kv. wt E d a (fst kv) \<and> wt E d b (snd kv)) kvs"
      and kvs: "distinct (map fst kvs)" "list_all (\<lambda>kv. py_hashable (fst kv)) kvs"
    by (auto simp: len_ok_def list_all_iff split_def split: pyval.splits)
  obtain cb where cb: "\<And>m. marshal_write_v64 (PInt (int (length kvs))) m = Inr (m @ cb)"
      "\<And>rest. read_count junk (cb @ rest) = Inr (length kvs, rest)"
    using count_codes [OF l] by blast
  have add: "dict_set us (fst w) (snd w) = Inr (us @ [w])" if "kvs = us @ w # ws" for us w ws
    using dict_set_new [of us w ws] kvs that by simp
  obtain bs where
    bs: "\<And>m. write_seq (write_item ?wk ?wv) kvs m = Inr (m @ bs)"
      "\<And>rest. read_loop (\<lambda>dic m. bindE (read_item ?rk ?rv m)
         (\<lambda>(kv, m). bindE (dict_set dic (fst kv) (snd kv)) (\<lambda>dic. Inr (dic, m)))) (length kvs) [] (bs @ rest) = Inr (kvs, rest)"
    using wire_codec.collect_roundtrip [OF item_codec [OF assms(3,4)] w, of "\<lambda>dic kv. dict_set dic (fst kv) (snd kv)" "\<lambda>us. us"]
      add by blast
  have "dict_get kvs k = Inr x" if "(k, x) \<in> set kvs" for k x
    using that kvs(1) by (simp add: dict_get_Inr_iff)
  note items = write_items [where D = kvs, OF this]
  show "\<exists>bs. codes (\<lambda>v. write_obj (render_env E) (Suc d) v (render (TMap u a b)))
      (read_obj (render_env E) junk (Suc d) (render (TMap u a b))) v bs"
    by (rule exI [of _ "cb @ bs"], rule codesI)
      (simp_all only: v write_obj_map [OF assms(1,2)] read_obj_map [OF assms(1,2)],
        simp_all add: cb bs(1) bs(2) [unfolded read_items_body] py_iter_def items)
qed

section \<open>Structures\<close>

lemma struct_fields:
  assumes "list_all2 (\<lambda>(f, x) (g, t). f = g \<and> wt E d t x) fs fields"
    and "\<And>t. t \<in> snd ` set fields \<Longrightarrow> obj_codec E junk d t"
    and "\<And>f x. (f, x) \<in> set fs \<Longrightarrow> py_getattr obj f = Inr x"
  shows "\<exists>bs. (\<forall>m. foldE (\<lambda>m field. bindE (py_getattr obj (fst field)) (\<lambda>v. write_obj (render_env E) d v (snd field) m))
        m (map (\<lambda>(f, t). (f, render t)) fields) = Inr (m @ bs)) \<and>
      (\<forall>vs rest. foldE (\<lambda>(vs, m) field. bindE (read_obj (render_env E) junk d (snd field) m) (\<lambda>(v, m). Inr (vs @ [v], m)))
        (vs, bs @ rest) (map (\<lambda>(f, t). (f, render t)) fields) = Inr (vs @ map snd fs, rest))"
  using assms
proof (induction rule: list_all2_induct)
  case Nil
  show ?case by (rule exI [of _ "[]"]) simp
next
  case (Cons p fs q fields)
  obtain f x t where p: "p = (f, x)" and q: "q = (f, t)" and w: "wt E d t x"
    using Cons.hyps(1) by (cases p; cases q) auto
  have c: "obj_codec E junk d t" and a: "py_getattr obj f = Inr x"
    using Cons.prems(1) [of t] Cons.prems(2) [of f x] p q by simp_all
  have cs: "\<And>t. t \<in> snd ` set fields \<Longrightarrow> obj_codec E junk d t" and as: "\<And>f x. (f, x) \<in> set fs \<Longrightarrow> py_getattr obj f = Inr x"
    using Cons.prems by simp_all
  obtain b where b: "codes (\<lambda>v. write_obj (render_env E) d v (render t)) (read_obj (render_env E) junk d (render t)) x b"
    using wire_codec.roundtrip [OF c w] by blast
  obtain bs where
    bs: "\<And>m. foldE (\<lambda>m field. bindE (py_getattr obj (fst field)) (\<lambda>v. write_obj (render_env E) d v (snd field) m))
        m (map (\<lambda>(f, t). (f, render t)) fields) = Inr (m @ bs)"
      "\<And>vs rest. foldE (\<lambda>(vs, m) field. bindE (read_obj (render_env E) junk d (snd field) m) (\<lambda>(v, m). Inr (vs @ [v], m)))
        (vs, bs @ rest) (map (\<lambda>(f, t). (f, render t)) fields) = Inr (vs @ map snd fs, rest)"
    using Cons.IH [OF cs as] by blast
  show ?case
    by (rule exI [of _ "b @ bs"]) (use bs a in \<open>simp add: p q codesD [OF b]\<close>)
qed

lemma dict_get_render_env:
  "map_of E n = Some fields \<Longrightarrow> dict_get (render_env E) n = Inr (map (\<lambda>(f, t). (f, render t)) fields)"
  by (induction E) (auto simp: render_env_def dict_get_def split: if_splits)

lemma obj_codec_struct:
  assumes "struct_name_ok n" "env_ok E"
    and "\<And>t. ty_ok t \<Longrightarrow> obj_codec E junk d t"
  shows "obj_codec E junk (Suc d) (TStruct n)"
proof (rule wire_codecI)
  fix v
  assume "wt E (Suc d) (TStruct n) v"
  then obtain fs fields where v: "v = PObj n fs" and fields: "map_of E n = Some fields"
      and w: "list_all2 (\<lambda>(f, x) (g, t). f = g \<and> wt E d t x) fs fields"
    by (auto split: pyval.splits option.splits)
  have ok: "\<And>t. t \<in> snd ` set fields \<Longrightarrow> obj_codec E junk d t" and dist: "distinct (map fst fields)"
    using assms(2,3) map_of_SomeD [OF fields] by (fastforce simp: env_ok_def list_all_iff)+
  have names: "map fst fs = map fst fields"
    using w by (induction rule: list_all2_induct) auto
  have attr: "py_getattr v f = Inr x" if "(f, x) \<in> set fs" for f x
    using that dist names v by simp
  obtain bs where
    bs: "\<And>m. foldE (\<lambda>m field. bindE (py_getattr v (fst field)) (\<lambda>x. write_obj (render_env E) d x (snd field) m))
        m (map (\<lambda>(f, t). (f, render t)) fields) = Inr (m @ bs)"
      "\<And>vs rest. foldE (\<lambda>(vs, m) field. bindE (read_obj (render_env E) junk d (snd field) m) (\<lambda>(v, m). Inr (vs @ [v], m)))
        (vs, bs @ rest) (map (\<lambda>(f, t). (f, render t)) fields) = Inr (vs @ map snd fs, rest)"
    using struct_fields [OF w ok attr] by blast
  have zip: "zip (map fst (map (\<lambda>(f, t). (f, render t)) fields)) (map snd fs) = fs"
  proof -
    have "map fst (map (\<lambda>(f, t). (f, render t)) fields) = map fst fs" unfolding names by (simp add: split_def)
    then show ?thesis by (simp only: zip_map_fst_snd)
  qed
  show "\<exists>bs. codes (\<lambda>v. write_obj (render_env E) (Suc d) v (render (TStruct n)))
      (read_obj (render_env E) junk (Suc d) (render (TStruct n))) v bs"
    by (rule exI [of _ bs], rule codesI)
      (simp_all only: struct_obj [OF assms(1)] dict_get_render_env [OF fields] bindE_simps bs zip
        append_Nil prod.case, simp add: v)
qed

theorem obj_codec:
  assumes "env_ok E" "ty_ok t"
  shows "obj_codec E junk d t"
  using assms(2)
proof (induction d arbitrary: t)
  case 0
  show ?case by (rule wire_codecI) simp
next
  case (Suc d)
  show ?case
  proof (cases t)
    case (TPrim p)
    show ?thesis unfolding TPrim render.simps
      by (rule wire_codecI, rule prim_codes) simp
  next
    case (TPair a b)
    have "ty_ok a" "ty_ok b" using Suc.prems by (simp_all add: TPair)
    then show ?thesis unfolding TPair by (intro obj_codec_pair Suc.IH)
  next
    case (TMap u a b)
    have "ty_ok a" "ty_ok b" using Suc.prems by (simp_all add: TMap)
    then show ?thesis unfolding TMap by (intro obj_codec_map Suc.IH)
  next
    case (TSeq u a)
    have "ty_ok a" using Suc.prems by (simp_all add: TSeq)
    then show ?thesis unfolding TSeq by (intro obj_codec_seq Suc.IH)
  next
    case (TSet u a)
    have "ty_ok a" using Suc.prems by (simp_all add: TSet)
    then show ?thesis unfolding TSet by (intro obj_codec_set Suc.IH)
  next
    case (TStruct n)
    have "struct_name_ok n" using Suc.prems by (simp add: TStruct)
    then show ?thesis unfolding TStruct by (intro obj_codec_struct assms(1) Suc.IH)
  qed
qed

text \<open>The two methods, with the conditions on the types as part of the admissible values.\<close>

interpretation obj: wire_codec
  "\<lambda>v. write_obj (render_env E) d v (render t)"
  "read_obj (render_env E) junk d (render t)"
  "\<lambda>v. env_ok E \<and> ty_ok t \<and> wt E d t v" for E d t junk
  by (rule wire_codecI, elim conjE, rule wire_codec.roundtrip [OF obj_codec])

section \<open>What a reader may raise\<close>



text \<open>\<open>gives X P r\<close>: the result is one of the errors \<open>X\<close>, or it satisfies \<open>P\<close>.\<close>

definition gives :: "pyerr set \<Rightarrow> ('a \<Rightarrow> bool) \<Rightarrow> 'a res \<Rightarrow> bool" where
  "gives X P r \<longleftrightarrow> (case r of Inl e \<Rightarrow> e \<in> X | Inr x \<Rightarrow> P x)"

lemma gives_simps [simp]: "gives X P (Inr x) \<longleftrightarrow> P x" "gives X P (Inl e) \<longleftrightarrow> e \<in> X"
  by (simp_all add: gives_def)





















section \<open>Splitting any number of arguments\<close>

lemma template_split_tail:
  assumes "list_all ty_ok ts"
  shows "(case foldl template_split_step (splt, 0, sp) (concat (map (\<lambda>t. '', '' @ render t) ts)) of
      (splt, level, sp) \<Rightarrow> splt @ [py_strip sp]) = splt @ py_strip sp # map render ts \<and>
    (ts \<noteq> [] \<or> py_strip sp \<noteq> [] \<longrightarrow>
      py_strip (snd (snd (foldl template_split_step (splt, 0, sp) (concat (map (\<lambda>t. '', '' @ render t) ts))))) \<noteq> [])"
  using assms
proof (induction ts arbitrary: splt sp)
  case (Cons t ts)
  have s: "py_strip (CHR '' '' # render t) = render t" "render t \<noteq> []"
    using Cons.prems render_edges [of t] by (simp_all add: strip_leading_space py_space_def strip_render)
  have "foldl template_split_step (splt, 0, sp) ('', '' @ render t) = (splt @ [py_strip sp], 0, CHR '' '' # render t)"
    using Cons.prems by (simp add: split_step_simps foldl_split_render)
  then have "foldl template_split_step (splt, 0, sp) (concat (map (\<lambda>t. '', '' @ render t) (t # ts))) =
      foldl template_split_step (splt @ [py_strip sp], 0, CHR '' '' # render t) (concat (map (\<lambda>t. '', '' @ render t) ts))"
    by (simp only: list.map concat.simps foldl_append)
  then show ?case using Cons.IH [of "splt @ [py_strip sp]" "CHR '' '' # render t"] Cons.prems s by simp
qed simp

lemma template_split_render:
  assumes "list_all ty_ok (t # ts)"
  shows "template_split (render t @ concat (map (\<lambda>t. '', '' @ render t) ts)) = map render (t # ts)"
proof -
  let ?r = "foldl template_split_step ([], 0, render t) (concat (map (\<lambda>t. '', '' @ render t) ts))"
  have "foldl template_split_step ([], 0, []) (render t @ concat (map (\<lambda>t. '', '' @ render t) ts)) = ?r"
    using assms by (simp add: foldl_split_render)
  moreover have "py_strip (render t) = render t" "render t \<noteq> []"
    using assms render_edges [of t] by (simp_all add: strip_render)
  ultimately show ?thesis
    using template_split_tail [of ts "[]" "render t"] assms by (cases ?r) (simp add: template_split_def)
qed

section \<open>Properties of the marshaller\<close>

text \<open>
  (C3) Round trip: at every type the RPC compiler can write, whatever a buffer holds already, \<^verbatim>\<open>write_obj\<close>
  appends bytes from which \<^verbatim>\<open>read_obj\<close> gives the same value back and leaves exactly what follows them.
\<close>

theorem marshal_roundtrip:
  assumes "env_ok E" "ty_ok t" "wt E d t v"
  shows "\<exists>bs. \<forall>m rest. write_obj (render_env E) d v (render t) m = Inr (m @ bs) \<and>
    read_obj (render_env E) junk d (render t) (bs @ rest) = Inr (v, rest)"
  using obj.roundtrip [of E t d v junk] assms by (auto simp: codes_def)

theorem marshal_roundtrip_witness:
  "\<exists>bs. \<forall>m rest.
     write_obj [(''point'', [(''x'', ''rrr::i32''), (''tags'', ''std::set<std::string>'')])] 5
       (PDict [(PInt 1, PObj ''point'' [(''x'', PInt (- 3)), (''tags'', PSet [PBytes [65], PBytes []])])])
       ''std::map<rrr::v64, point>'' m = Inr (m @ bs) \<and>
     read_obj [(''point'', [(''x'', ''rrr::i32''), (''tags'', ''std::set<std::string>'')])] 0 5 ''std::map<rrr::v64, point>'' (bs @ rest) =
       Inr (PDict [(PInt 1, PObj ''point'' [(''x'', PInt (- 3)), (''tags'', PSet [PBytes [65], PBytes []])])], rest)"
proof -
  let ?E = "[(''point'', [(''x'', TPrim I32), (''tags'', TSet False (TPrim Str))])]"
  let ?t = "TMap False (TPrim V64) (TStruct ''point'')"
  have r: "render_env ?E = [(''point'', [(''x'', ''rrr::i32''), (''tags'', ''std::set<std::string>'')])]"
    "render ?t = ''std::map<rrr::v64, point>''" by (simp_all add: render_env_def)
  show ?thesis
    by (rule marshal_roundtrip [of ?E ?t, unfolded r])
      (simp_all add: env_ok_def struct_name_ok_def builtin_names_def py_space_def wt_numeral len_ok_def int_fits_def
        val_size_def)
qed

text \<open>
  (C28) \<^verbatim>\<open>template_split\<close> takes a rendered argument list apart at exactly the commas between the arguments,
  however deeply the arguments nest commas and brackets of their own.
\<close>

theorem template_split_args:
  assumes "list_all ty_ok (t # ts)"
  shows "template_split (render t @ concat (map (\<lambda>t. '', '' @ render t) ts)) = map render (t # ts)"
  using assms by (rule template_split_render)

theorem template_split_args_witness:
  "template_split ''std::map<rrr::i8, std::pair<double, point>>, rrr::i32'' =
     [''std::map<rrr::i8, std::pair<double, point>>'', ''rrr::i32'']"
  using template_split_args [of "TMap False (TPrim I8) (TPair (TPrim Dbl) (TStruct ''point''))" "[TPrim I32]"]
  by (simp add: struct_name_ok_def builtin_names_def py_space_def)



text \<open>
  (C38) The two methods treat \<^verbatim>\<open>DepId\<close> differently: writing has a case of its own, reading needs the registered structure.
  With the structure that \<^verbatim>\<open>rcc_rpc.rpc\<close> declares, and the generated stub registers, they agree: the named tuple that is
  written comes back.  Before the registration the same bytes cannot be read.
\<close>

theorem dep_id_roundtrip:
  assumes "reg_type S ''DepId'' [(''str'', ''std::string''), (''id'', ''rrr::i64'')] = Inr S'" "len_ok bs" "int_fits 64 i"
  shows "\<exists>out. \<forall>m rest. write_obj S' (Suc (Suc d)) (PObj ''DepId'' [(''str'', PBytes bs), (''id'', PInt i)]) ''DepId'' m = Inr (m @ out) \<and>
    read_obj S' junk (Suc (Suc d)) ''DepId'' (out @ rest) = Inr (PObj ''DepId'' [(''str'', PBytes bs), (''id'', PInt i)], rest) \<and>
    (''DepId'' \<notin> fst ` set S \<longrightarrow> read_obj S junk (Suc (Suc d)) ''DepId'' (out @ rest) = Inl KeyError)"
proof -
  let ?fs = "[(''str'', ''std::string''), (''id'', ''rrr::i64'')]" and ?v = "PObj ''DepId'' [(''str'', PBytes bs), (''id'', PInt i)]"
  have S: "S' = AList.update ''DepId'' ?fs S"
    using assms(1) by (simp add: reg_type_def split: if_splits)
  obtain b where b: "codes (\<lambda>v. write_obj S' (Suc d) v ''std::string'') (read_obj S' junk (Suc d) ''std::string'') (PBytes bs) b"
    using prim_codes [of Str "PBytes bs" S' d junk] assms(2) by auto
  obtain c where c: "codes (\<lambda>v. write_obj S' (Suc d) v ''rrr::i64'') (read_obj S' junk (Suc d) ''rrr::i64'') (PInt i) c"
    using prim_codes [of I64 "PInt i" S' d junk] assms(3) by auto
  have w: "marshal_write_str (PBytes bs) m = Inr (m @ b)" "marshal_write_i64 (PInt i) m = Inr (m @ c)" for m
    using codesD(1) [OF b, of m] codesD(1) [OF c, of m] by simp_all
  have r: "marshal_read_str junk (b @ x) = Inr (PBytes bs, x)" "marshal_read_i64 (c @ x) = Inr (PInt i, x)" for x
    using codesD(2) [OF b, of x] codesD(2) [OF c, of x] by simp_all
  have dg: "dict_get S' ''DepId'' = Inr ?fs" by (simp add: S dict_get_def update_conv')
  have "write_obj S' (Suc (Suc d)) ?v ''DepId'' m = Inr (m @ b @ c)" for m
    by (simp add: w py_nth_def py_index_def)
  moreover have "read_obj S' junk (Suc (Suc d)) ''DepId'' ((b @ c) @ x) = Inr (?v, x)" for x
    by (simp add: dg r)
  moreover have "read_obj S junk (Suc (Suc d)) ''DepId'' x = Inl KeyError" if "''DepId'' \<notin> fst ` set S" for x
    using that by (simp add: dict_get_def map_of_eq_None_iff [THEN iffD2])
  ultimately show ?thesis by (intro exI [of _ "b @ c"]) simp
qed

theorem dep_id_roundtrip_witness:
  "\<exists>S' out. reg_type [] ''DepId'' [(''str'', ''std::string''), (''id'', ''rrr::i64'')] = Inr S' \<and>
    read_obj S' 0 5 ''DepId'' (out @ []) = Inr (PObj ''DepId'' [(''str'', PBytes [97]), (''id'', PInt 5)], []) \<and>
    read_obj [] 0 5 ''DepId'' (out @ []) = Inl KeyError"
proof -
  obtain S' where S': "reg_type [] ''DepId'' [(''str'', ''std::string''), (''id'', ''rrr::i64'')] = Inr S'"
    by (simp add: reg_type_def namedtuple_ok_def is_identifier_def ident_start_def ident_char_def py_keywords_def)
  have "len_ok [97 :: byte]" "int_fits 64 5" by (simp_all add: len_ok_def int_fits_def)
  from dep_id_roundtrip [OF S' this, of 3 0] S' show ?thesis by (simp del: read_obj.simps write_obj.simps) blast
qed

text \<open>
  (C36) Values of the \<^verbatim>\<open>v64\<close> code of eight bytes lose their lowest byte: what comes back has the byte the
  reader's stack held in its place, so it is the value written only if the two happen to agree.
\<close>

theorem v64_low_byte_lost:
  assumes "parse_long (PInt i) = Inr i" "val_size i = 8"
  shows "\<exists>w :: i64. marshal_read_v64 junk (case marshal_write_v64 (PInt i) [] of Inr m \<Rightarrow> m | Inl _ \<Rightarrow> []) = Inr (PInt (sint w), []) \<and>
    w = le_join (junk # map (pv (word_of_int i :: i64)) [1..<8])"
proof -
  have "int_fits 64 i" using assms(1) by (simp add: parse_long_def int_fits_def split: if_splits)
  then have s: "val_size (sint (word_of_int i :: i64)) = 8"
    using assms(2) sint_of_int_fits [where 'a = 64, of i] by simp
  note e = dump_i64_eight_loses_low_byte [OF s]
  have "buf_size 0xFE = 8" by (simp add: buf_size_tags)
  then show ?thesis
    using e(2) [of junk "[]"] assms(1)
    by (simp add: marshal_read_v64_def marshal_write_v64_def stream_write_v64_def stream_read_v64_def e(1))
qed

theorem v64_low_byte_lost_witness:
  "\<exists>w :: i64. marshal_read_v64 0 (case marshal_write_v64 (PInt (2 ^ 50 + 7)) [] of Inr m \<Rightarrow> m | Inl _ \<Rightarrow> []) = Inr (PInt (sint w), []) \<and>
    w = le_join (0 # map (pv (word_of_int (2 ^ 50 + 7) :: i64)) [1..<8])"
  by (rule v64_low_byte_lost) (simp_all add: parse_long_def val_size_def)

end
