(* ===== verification/Rpc_Wire.thy ===== *)
theory Rpc_Wire
  imports Marshal_Roundtrip
begin

text \<open>
  The packets between an RPC client and an RPC server, from \<^verbatim>\<open>src/rrr/rpc/client.cpp\<close> and
  \<^verbatim>\<open>src/rrr/rpc/server.cpp\<close>: a packet is a four-byte size and that many bytes.  A request carries the
  transaction number (\<^verbatim>\<open>xid\<close>, sparse), the procedure number and the arguments; a reply carries the
  transaction number, an error code (both sparse) and the results.  Bytes arrive in pieces, one per
  wake-up of the poll loop; the locale \<open>packet_stream\<close> says what the two parsers owe to their loops.
\<close>

section \<open>Loops over the received bytes\<close>

text \<open>
  \<open>drain\<close> is the loop that takes complete packets off the buffer: at most \<open>n\<close> of them, \<open>done\<close> tells
  that the buffer holds no further complete one.
\<close>

fun drain :: "(byte list \<Rightarrow> ('p \<times> byte list) option res) \<Rightarrow> nat \<Rightarrow> byte list \<Rightarrow> ('p list \<times> byte list \<times> bool) res" where
  "drain nxt 0 b = Inr ([], b, False)"
| "drain nxt (Suc n) b =
     bindE (nxt b) (\<lambda>r. case r of
       None \<Rightarrow> Inr ([], b, True)
     | Some (p, b) \<Rightarrow> bindE (drain nxt n b) (\<lambda>(ps, b, done). Inr (p # ps, b, done)))"

text \<open>One wake-up per piece: append what arrived and take the complete packets off.\<close>

definition arrive :: "(byte list \<Rightarrow> ('p \<times> byte list) option res) \<Rightarrow> 'p list \<times> byte list \<Rightarrow> byte list \<Rightarrow> ('p list \<times> byte list) res" where
  "arrive nxt st c =
     (case st of (ps, b) \<Rightarrow>
        bindE (drain nxt (Suc (length (b @ c))) (b @ c)) (\<lambda>(qs, b, done). Inr (ps @ qs, b)))"

definition feed :: "(byte list \<Rightarrow> ('p \<times> byte list) option res) \<Rightarrow> byte list list \<Rightarrow> ('p list \<times> byte list) res" where
  "feed nxt cs = foldE (arrive nxt) ([], []) cs"

text \<open>With more rounds than bytes the loop ends because no packet is left, if every packet takes bytes off.\<close>

lemma drain_done:
  assumes "\<And>b p b'. nxt b = Inr (Some (p, b')) \<Longrightarrow> length b' < length b"
  shows "drain nxt n b = Inr (ps, b', done) \<Longrightarrow> length b < n \<Longrightarrow> done \<and> nxt b' = Inr None"
proof (induction n arbitrary: b ps)
  case (Suc n)
  from Suc.prems(1) obtain r where r: "nxt b = Inr r" by (auto elim: bindE_eq_InrE)
  show ?case
  proof (cases r)
    case None
    then show ?thesis using Suc.prems(1) r by simp
  next
    case (Some p)
    obtain q b1 where p: "p = (q, b1)" by force
    have "length b1 < n" using assms [of b q b1] r Some p Suc.prems(2) by simp
    moreover obtain ps1 where "drain nxt n b1 = Inr (ps1, b', done)"
      using Suc.prems(1) by (auto simp: r Some p elim!: bindE_eq_InrE)
    ultimately show ?thesis using Suc.IH by blast
  qed
qed simp

section \<open>What a packet parser promises\<close>

text \<open>What the buffer may hold when the packets \<open>ps\<close> are still to come: a proper part of the first one.\<close>

definition partial :: "('p \<Rightarrow> byte list) \<Rightarrow> 'p list \<Rightarrow> byte list \<Rightarrow> bool" where
  "partial enc ps b \<longleftrightarrow> (case ps of [] \<Rightarrow> b = [] | p # _ \<Rightarrow> strict_prefix b (enc p))"

locale packet_stream =
  fixes nxt :: "byte list \<Rightarrow> ('p \<times> byte list) option res"
    and enc :: "'p \<Rightarrow> byte list"
    and ok :: "'p \<Rightarrow> bool"
  assumes next_packet: "ok p \<Longrightarrow> length (enc p @ b) < 2 ^ 62 \<Longrightarrow> nxt (enc p @ b) = Inr (Some (p, b))"
    and next_partial: "ok p \<Longrightarrow> strict_prefix a (enc p) \<Longrightarrow> nxt a = Inr None"
    and enc_not_empty: "enc p \<noteq> []"
    and next_empty: "nxt [] = Inr None"
begin

lemma partial_None:
  assumes "list_all ok ps" "partial enc ps b"
  shows "nxt b = Inr None"
  using assms next_empty by (cases ps) (auto simp: partial_def intro: next_partial)

lemma drain_prefix:
  assumes "list_all ok ps" "prefix b (concat (map enc ps))" "length b < n" "length b < 2 ^ 62"
  shows "\<exists>k b'. drain nxt n b = Inr (take k ps, b', True) \<and> k \<le> length ps \<and>
    b = concat (map enc (take k ps)) @ b' \<and> partial enc (drop k ps) b'"
  using assms
proof (induction ps arbitrary: b n)
  case Nil
  then show ?case by (cases n) (simp_all add: next_empty partial_def)
next
  case (Cons p ps)
  from Cons.prems obtain m where n: "n = Suc m" by (cases n) auto
  show ?case
  proof (cases "strict_prefix b (enc p)")
    case True
    then show ?thesis using Cons.prems next_partial [of p b]
      by (intro exI [of _ 0] exI [of _ b]) (simp add: n partial_def)
  next
    case False
    then obtain c where b: "b = enc p @ c"
      using Cons.prems(2) by (metis prefix_append prefix_order.order_iff_strict append_Nil2 list.map(2) concat.simps(2))
    have "length c < m" using Cons.prems(3) enc_not_empty [of p] by (cases "enc p") (auto simp: b n)
    moreover have "list_all ok ps" "prefix c (concat (map enc ps))" "length c < 2 ^ 62"
      using Cons.prems by (simp_all add: b)
    ultimately obtain k b' where k: "drain nxt m c = Inr (take k ps, b', True)" "k \<le> length ps"
        "c = concat (map enc (take k ps)) @ b'" "partial enc (drop k ps) b'"
      using Cons.IH [of c m] by blast
    have "nxt b = Inr (Some (p, c))" using next_packet [of p c] Cons.prems by (simp add: b)
    then have "drain nxt n b = Inr (p # take k ps, b', True)" by (simp add: n k(1))
    then show ?thesis using k by (intro exI [of _ "Suc k"] exI [of _ b']) (simp add: b)
  qed
qed

text \<open>
  Whatever pieces the bytes arrive in, the packets received are the packets sent, each once and in order.
\<close>

lemma concat_split: "concat (map enc ps) = concat (map enc (take k ps)) @ concat (map enc (drop k ps))"
proof -
  have "concat (map enc (take k ps @ drop k ps)) = concat (map enc (take k ps)) @ concat (map enc (drop k ps))"
    by (simp only: map_append concat_append)
  then show ?thesis by simp
qed

lemma partial_all:
  assumes "partial enc ps b" "concat (map enc ps) = b"
  shows "ps = [] \<and> b = []"
proof (cases ps)
  case (Cons q qs)
  then have "strict_prefix b (enc q)" "b = enc q @ concat (map enc qs)" using assms by (simp_all add: partial_def)
  then have False using prefix_length_less by fastforce
  then show ?thesis ..
qed (use assms in simp)

lemma arrive_step:
  assumes "list_all ok ps" "prefix ((concat (map enc (take k ps)) @ b) @ c) (concat (map enc ps))"
    "k \<le> length ps" "length (b @ c) < 2 ^ 62"
  shows "\<exists>k' b'. arrive nxt (take k ps, b) c = Inr (take k' ps, b') \<and> k' \<le> length ps \<and>
    (concat (map enc (take k ps)) @ b) @ c = concat (map enc (take k' ps)) @ b' \<and> partial enc (drop k' ps) b'"
proof -
  have pre: "prefix (b @ c) (concat (map enc (drop k ps)))"
    using assms(2) unfolding concat_split [of ps k] by simp
  have "list_all ok (drop k ps)" using assms(1) by (auto simp: list_all_iff dest: in_set_dropD)
  then obtain j b' where
    j: "drain nxt (Suc (length (b @ c))) (b @ c) = Inr (take j (drop k ps), b', True)" "j \<le> length (drop k ps)"
      "b @ c = concat (map enc (take j (drop k ps))) @ b'" "partial enc (drop j (drop k ps)) b'"
    using drain_prefix [OF _ pre lessI assms(4)] by blast
  have "drop j (drop k ps) = drop (k + j) ps" by (simp add: add.commute)
  moreover have "arrive nxt (take k ps, b) c = Inr (take (k + j) ps, b')"
    unfolding arrive_def prod.case j(1) by (simp add: take_add)
  moreover have "(concat (map enc (take k ps)) @ b) @ c = concat (map enc (take (k + j) ps)) @ b'"
    using j(3) by (simp add: take_add)
  ultimately show ?thesis using j(2,4) assms(3) by (intro exI [of _ "k + j"] exI [of _ b']) simp
qed

lemma feed_prefix:
  assumes "list_all ok ps" "prefix (concat ds) (concat (map enc ps))" "length (concat ds) < 2 ^ 62"
  shows "\<exists>k b. feed nxt ds = Inr (take k ps, b) \<and> k \<le> length ps \<and>
    concat ds = concat (map enc (take k ps)) @ b \<and> partial enc (drop k ps) b"
  using assms(2,3)
proof (induction ds rule: rev_induct)
  case Nil
  have "partial enc ps []"
    using enc_not_empty by (simp add: partial_def prefix_order.less_le eq_commute split: list.split)
  then show ?case by (intro exI [of _ 0] exI [of _ "[]"]) (simp add: feed_def)
next
  case (snoc c ds)
  then have "prefix (concat ds) (concat (map enc ps))" "length (concat ds) < 2 ^ 62"
    by (auto dest: append_prefixD)
  with snoc.IH obtain k b where k: "feed nxt ds = Inr (take k ps, b)" "k \<le> length ps"
      "concat ds = concat (map enc (take k ps)) @ b" by blast
  have "prefix ((concat (map enc (take k ps)) @ b) @ c) (concat (map enc ps))" "length (b @ c) < 2 ^ 62"
    using snoc.prems by (simp_all add: k(3))
  from arrive_step [OF assms(1) this(1) k(2) this(2)] obtain k' b' where
    k': "arrive nxt (take k ps, b) c = Inr (take k' ps, b')" "k' \<le> length ps"
      "(concat (map enc (take k ps)) @ b) @ c = concat (map enc (take k' ps)) @ b'" "partial enc (drop k' ps) b'"
    by blast
  have "feed nxt (ds @ [c]) = Inr (take k' ps, b')"
    using k(1) by (simp add: feed_def foldE_append k'(1))
  moreover have "concat (ds @ [c]) = concat (map enc (take k' ps)) @ b'" using k(3) k'(3) by simp
  ultimately show ?case using k'(2,4) by blast
qed

theorem feed_packets:
  assumes "list_all ok ps" "concat cs = concat (map enc ps)" "length (concat cs) < 2 ^ 62"
  shows "feed nxt cs = Inr (ps, [])"
proof -
  have "prefix (concat cs) (concat (map enc ps))" by (simp only: assms(2) prefix_order.order_refl)
  from feed_prefix [OF assms(1) this assms(3)] obtain k b where
    k: "feed nxt cs = Inr (take k ps, b)" "concat cs = concat (map enc (take k ps)) @ b" "partial enc (drop k ps) b"
    by blast
  have "concat (map enc (drop k ps)) = b" using k(2) unfolding assms(2) concat_split [of ps k] by simp
  from partial_all [OF k(3) this] have "take k ps = ps" "b = []" by simp_all
  then show ?thesis using k(1) by simp
qed

end

section \<open>Packets\<close>

definition packet :: "byte list \<Rightarrow> byte list" where
  "packet m = memcpy_out (word_of_nat (length m) :: i32) @ m"

text \<open>
  The test that starts each round of both loops: the size is there, and so are that many bytes.  The
  size is a signed integer that the comparison converts to an unsigned 64-bit one.
\<close>

definition packet_ready :: "byte list \<Rightarrow> 64 word option" where
  "packet_ready b =
     (if length b < 4 then None
      else let packet_size = le_join (take 4 b) :: i32; n = scast packet_size in
        if n + 4 \<le> word_of_nat (length b) then Some n else None)"

definition request_packet :: "i64 \<times> byte list \<Rightarrow> byte list" where
  "request_packet r = (case r of (xid, m) \<Rightarrow> packet (stream_write_v64 xid [] @ m))"

definition next_request :: "byte \<Rightarrow> byte list \<Rightarrow> ((i64 \<times> byte list) \<times> byte list) option res" where
  "next_request junk b =
     (case packet_ready b of
        None \<Rightarrow> Inr None
      | Some n \<Rightarrow>
          let b = drop 4 b in
          if length b < unat n then Inl Abort
          else bindE (stream_read_v64 junk (take (unat n) b)) (\<lambda>(xid, m).
            Inr (Some ((xid, m), drop (unat n) b))))"

definition reply_packet :: "i64 \<times> i32 \<times> byte list \<Rightarrow> byte list" where
  "reply_packet r =
     (case r of (xid, error_code, m) \<Rightarrow>
        packet (stream_write_v64 xid [] @ dump_bytes (dump_i32 error_code) @ m))"

text \<open>
  The start of a round of \<^verbatim>\<open>Client::handle_read\<close>: the size, the transaction number and the error code come off the buffer.
\<close>

definition reply_head :: "byte \<Rightarrow> byte list \<Rightarrow> (64 word \<times> i64 \<times> i32 \<times> byte list) option res" where
  "reply_head junk b =
     (case packet_ready b of
        None \<Rightarrow> Inr None
      | Some n \<Rightarrow>
          bindE (stream_read_v64 junk (drop 4 b)) (\<lambda>(xid, b).
          bindE (stream_read_v32 b) (\<lambda>(error_code, b).
          Inr (Some (n, xid, error_code, b)))))"

text \<open>\<^verbatim>\<open>packet_size - v_reply_xid.val_size() - v_error_code.val_size()\<close>\<close>

definition body_size :: "64 word \<Rightarrow> i64 \<Rightarrow> i32 \<Rightarrow> nat" where
  "body_size n xid error_code = unat (n - word_of_nat (val_size (sint xid)) - word_of_nat (val_size (sint error_code)))"

text \<open>A whole reply: what a round takes off the buffer when the client waits for this transaction.\<close>

definition next_reply :: "byte \<Rightarrow> byte list \<Rightarrow> ((i64 \<times> i32 \<times> byte list) \<times> byte list) option res" where
  "next_reply junk b =
     bindE (reply_head junk b) (\<lambda>r. case r of
       None \<Rightarrow> Inr None
     | Some (n, xid, error_code, b) \<Rightarrow>
         let k = body_size n xid error_code in
         if length b < k then Inl Abort else Inr (Some ((xid, error_code, take k b), drop k b)))"

section \<open>The parsers keep their promise\<close>

lemma stream_read_shorter:
  "stream_read_v64 junk b = Inr (xid, b') \<Longrightarrow> length b' \<le> length b"
  "stream_read_v32 b = Inr (error_code, b') \<Longrightarrow> length b' \<le> length b"
  by (auto simp: stream_read_v64_def stream_read_v32_def Let_def split: if_splits)

lemma reply_head_shorter:
  assumes "reply_head junk b = Inr (Some (n, xid, error_code, b'))"
  shows "length b' < length b"
proof -
  have "4 \<le> length b" using assms by (auto simp: reply_head_def packet_ready_def split: if_splits)
  moreover have "length b' \<le> length (drop 4 b)"
    using assms unfolding reply_head_def
    by (auto split: option.splits elim!: bindE_eq_InrE dest!: stream_read_shorter)
  ultimately show ?thesis by simp
qed

lemma next_reply_shorter:
  assumes "next_reply junk b = Inr (Some (r, b'))"
  shows "length b' < length b"
proof -
  obtain n xid error_code a where "reply_head junk b = Inr (Some (n, xid, error_code, a))" "length b' \<le> length a"
    using assms unfolding next_reply_def
    by (auto simp: Let_def split: option.splits if_splits elim!: bindE_eq_InrE)
  then show ?thesis using reply_head_shorter by fastforce
qed

lemma dump_i32_length:
  fixes v :: i32
  shows "length (dump_bytes (dump_i32 v)) = val_size (sint v)"
proof (cases "val_size (sint v) < 5")
  case True
  then have "1 \<le> val_size (sint v)" "length (short_code (val_size (sint v)) v) = val_size (sint v)"
    using val_size_range(1) [OF refl, of "sint v"] short_code_tag by (simp_all add: short_code_def)
  then show ?thesis by (simp add: dump_bytes_def dump_i32_short [OF refl True])
next
  case False
  have "- (2 ^ 31) \<le> sint v" "sint v < 2 ^ 31" using sint_greater_eq [of v] sint_less [of v] by simp_all
  then have "val_size (sint v) \<le> 5" by (simp add: val_size_def)
  with False have "val_size (sint v) = 5" by simp
  then show ?thesis by (simp add: dump_bytes_def dump_i32_long [OF refl])
qed

lemma size_field:
  assumes "l < 2 ^ 31"
  shows "scast (word_of_nat l :: i32) = (word_of_nat l :: 64 word)"
proof -
  have "int_fits 32 (int l)" using assms by (simp add: int_fits_def)
  then have "sint (word_of_int (int l) :: i32) = int l" by (intro sint_of_int_fits) simp
  then have "word_of_int (sint (word_of_nat l :: i32)) = (word_of_nat l :: 64 word)" by simp
  then show ?thesis by simp
qed

lemma unat_small: "l < 2 ^ 63 \<Longrightarrow> unat (word_of_nat l :: 64 word) = l"
  by (simp add: unat_of_nat)

lemma size_compare:
  assumes "l < 2 ^ 31" "k < 2 ^ 62"
  shows "word_of_nat l + 4 \<le> (word_of_nat k :: 64 word) \<longleftrightarrow> l + 4 \<le> k"
proof -
  have "unat (word_of_nat (l + 4) :: 64 word) = l + 4" "unat (word_of_nat k :: 64 word) = k"
    using assms by (intro unat_small; simp)+
  then show ?thesis by (metis word_le_nat_alt of_nat_add of_nat_numeral)
qed

lemma memcpy_out_length [simp]: "length (memcpy_out (w :: i32)) = 4"
  by (simp add: memcpy_out_def)

lemma le_join_memcpy [simp]: "le_join (memcpy_out w) = (w :: i32)"
  by (simp add: memcpy_out_def le_join_pv)

lemma packet_ready_full:
  assumes "length m < 2 ^ 31" "length (packet m @ b) < 2 ^ 62"
  shows "packet_ready (packet m @ b) = Some (word_of_nat (length m))"
  using assms size_compare [OF assms]
  by (simp add: packet_ready_def packet_def Let_def size_field)

lemma packet_ready_partial:
  assumes "length m < 2 ^ 31" "strict_prefix a (packet m)"
  shows "packet_ready a = None"
proof (cases "length a < 4")
  case False
  obtain c where c: "packet m = a @ c" "c \<noteq> []" using assms(2) by (auto simp: strict_prefix_def prefix_def)
  have "take 4 a = take 4 (packet m)" using False c(1) by simp
  then have t: "take 4 a = memcpy_out (word_of_nat (length m) :: i32)" by (simp add: packet_def)
  have "length a < length m + 4"
    using prefix_length_less [OF assms(2)] by (simp add: packet_def)
  then show ?thesis
    using False assms(1) size_compare [OF assms(1), of "length a"] by (simp add: packet_ready_def t size_field)
qed (simp add: packet_ready_def)

lemma packet_ready_Nil [simp]: "packet_ready [] = None"
  by (simp add: packet_ready_def)

lemma packet_not_empty [simp]: "packet m \<noteq> []"
proof
  assume "packet m = []"
  then have "length (packet m) = 0" by simp
  then show False by (simp add: packet_def)
qed

lemma drop_packet [simp]: "drop 4 (packet m @ b) = m @ b"
  by (simp add: packet_def)

definition request_ok :: "i64 \<times> byte list \<Rightarrow> bool" where
  "request_ok r \<longleftrightarrow> (case r of (xid, m) \<Rightarrow> val_size (sint xid) \<noteq> 8 \<and> length m < 2 ^ 30)"

definition reply_ok :: "i64 \<times> i32 \<times> byte list \<Rightarrow> bool" where
  "reply_ok r \<longleftrightarrow> (case r of (xid, ec, m) \<Rightarrow> val_size (sint xid) \<noteq> 8 \<and> length m < 2 ^ 30)"

lemma v64_length:
  "val_size (sint xid) \<noteq> 8 \<Longrightarrow> length (stream_write_v64 xid []) = val_size (sint xid)"
  by (simp add: stream_write_v64_def dump_i64_roundtrip(4))

lemma small_length:
  assumes "length m < 2 ^ 30" "length p \<le> 9" "length q \<le> 9"
  shows "length (p @ q @ m) < 2 ^ 31"
  using assms by simp

interpretation requests: packet_stream "next_request junk" request_packet request_ok for junk
proof (unfold_locales)
  fix p a b
  assume ok: "request_ok p"
  obtain xid m where p: "p = (xid, m)" by force
  let ?m = "stream_write_v64 xid [] @ m"
  have x: "val_size (sint xid) \<noteq> 8" "length m < 2 ^ 30" using ok by (auto simp: p request_ok_def)
  then have l: "length ?m < 2 ^ 31"
    using small_length [OF x(2), of "stream_write_v64 xid []" "[]"] val_size_cases [of "sint xid"]
    by (simp add: v64_length)
  show "next_request junk (request_packet p @ b) = Inr (Some (p, b))" if "length (request_packet p @ b) < 2 ^ 62"
  proof -
    have "unat (word_of_nat (length ?m) :: 64 word) = length ?m" using l by (intro unat_small) simp
    moreover have "packet_ready (packet ?m @ b) = Some (word_of_nat (length ?m))"
      using that by (intro packet_ready_full l) (simp add: p request_packet_def)
    ultimately show ?thesis
      using stream_v64_roundtrip [OF x(1), of junk m]
      by (simp only: next_request_def request_packet_def p prod.case option.case Let_def drop_packet) simp
  qed
  show "next_request junk a = Inr None" if "strict_prefix a (request_packet p)"
    using packet_ready_partial [OF l] that by (simp add: p request_packet_def next_request_def)
qed (simp_all add: request_packet_def next_request_def split: prod.split)

lemma reply_head_packet:
  assumes "reply_ok (xid, ec, m)" "length (reply_packet (xid, ec, m) @ b) < 2 ^ 62"
  shows "reply_head junk (reply_packet (xid, ec, m) @ b) =
    Inr (Some (word_of_nat (length (stream_write_v64 xid [] @ dump_bytes (dump_i32 ec) @ m)), xid, ec, m @ b))"
proof -
  let ?x = "stream_write_v64 xid []" and ?e = "dump_bytes (dump_i32 ec)"
  let ?m = "?x @ ?e @ m"
  have x: "val_size (sint xid) \<noteq> 8" "length m < 2 ^ 30" using assms(1) by (auto simp: reply_ok_def)
  have l: "length ?m < 2 ^ 31"
    using small_length [OF x(2), of ?x ?e] val_size_cases [of "sint xid"] val_size_cases [of "sint ec"]
    by (simp only: v64_length [OF x(1)] dump_i32_length [of ec])
  have "packet_ready (packet ?m @ b) = Some (word_of_nat (length ?m))"
    using assms(2) by (intro packet_ready_full l) (simp add: reply_packet_def)
  then show ?thesis
    using stream_v64_roundtrip [OF x(1), of junk "?e @ m @ b"] stream_v32_roundtrip [of ec "m @ b"]
    by (simp only: reply_head_def reply_packet_def prod.case option.case drop_packet append_assoc bindE_simps)
qed

interpretation replies: packet_stream "next_reply junk" reply_packet reply_ok for junk
proof (unfold_locales)
  fix p a b
  assume ok: "reply_ok p"
  obtain xid ec m where p: "p = (xid, ec, m)" by (cases p)
  let ?x = "stream_write_v64 xid []" and ?e = "dump_bytes (dump_i32 ec)"
  let ?m = "?x @ ?e @ m"
  have x: "val_size (sint xid) \<noteq> 8" "length m < 2 ^ 30" using ok by (auto simp: p reply_ok_def)
  note len = v64_length [OF x(1)] dump_i32_length [of ec]
  show "next_reply junk (reply_packet p @ b) = Inr (Some (p, b))" if "length (reply_packet p @ b) < 2 ^ 62"
  proof -
    have "unat (word_of_nat (length m) :: 64 word) = length m" using x(2) by (intro unat_small) simp
    then have "body_size (word_of_nat (length ?m)) xid ec = length m"
      by (simp add: body_size_def len [symmetric])
    then show ?thesis
      using reply_head_packet [OF ok [unfolded p] that [unfolded p], of junk] by (simp add: next_reply_def p)
  qed
  have l: "length ?m < 2 ^ 31"
    using small_length [OF x(2), of ?x ?e] val_size_cases [of "sint xid"] val_size_cases [of "sint ec"]
    by (simp only: len)
  show "next_reply junk a = Inr None" if "strict_prefix a (reply_packet p)"
    using packet_ready_partial [OF l] that by (simp add: p reply_packet_def next_reply_def reply_head_def)
qed (simp_all add: reply_packet_def next_reply_def reply_head_def split: prod.split)

end
