(* ===== verification/Simplerpc.thy ===== *)
theory Simplerpc
  imports Rpc_Wire
begin

text \<open>
  The Python RPC library: \<^verbatim>\<open>client.py\<close>, \<^verbatim>\<open>server.py\<close> and \<^verbatim>\<open>future.py\<close> of \<^verbatim>\<open>src/rrr/pylib/simplerpc\<close>, with the
  functions of the extension module they call (\<^verbatim>\<open>_pyrpc.cpp\<close>) and the request handling of the C++ server
  and client under them.  Marshal objects live on a heap, so that an object that is never deleted
  shows.  The network is a function that cuts a byte stream into the pieces that arrive.
\<close>

section \<open>The heap of marshal objects\<close>

record mheap =
  bufs :: "(nat \<times> byte list) list"
  next_id :: nat

type_synonym 'a py = "mheap \<Rightarrow> 'a res \<times> mheap"

definition new_marshal :: "byte list \<Rightarrow> mheap \<Rightarrow> nat \<times> mheap" where
  "new_marshal m h = (next_id h, h \<lparr>bufs := AList.update (next_id h) m (bufs h), next_id := Suc (next_id h)\<rparr>)"

definition fini_marshal :: "nat \<Rightarrow> mheap \<Rightarrow> mheap" where
  "fini_marshal i h = h \<lparr>bufs := AList.delete i (bufs h)\<rparr>"

definition buf :: "mheap \<Rightarrow> nat \<Rightarrow> byte list" where
  "buf h i = (case map_of (bufs h) i of Some m \<Rightarrow> m | None \<Rightarrow> [])"

definition set_buf :: "nat \<Rightarrow> byte list \<Rightarrow> mheap \<Rightarrow> mheap" where
  "set_buf i m h = h \<lparr>bufs := AList.update i m (bufs h)\<rparr>"

section \<open>Writing arguments and reading results\<close>

text \<open>\<^verbatim>\<open>for i in range(len(req_values)): req_m.write_obj(req_values[i], req_types[i])\<close>\<close>

definition write_args :: "structs \<Rightarrow> nat \<Rightarrow> pyval list \<Rightarrow> string list \<Rightarrow> byte list \<Rightarrow> byte list res" where
  "write_args S d req_values req_types m =
     foldE (\<lambda>m i.
       bindE (py_nth req_values (int i)) (\<lambda>v.
       bindE (py_nth req_types (int i)) (\<lambda>ty. write_obj S d v ty m))) m [0..<length req_values]"

text \<open>\<^verbatim>\<open>for ty in rep_types: results += rep_m.read_obj(ty),\<close>\<close>

definition read_args :: "structs \<Rightarrow> byte \<Rightarrow> nat \<Rightarrow> string list \<Rightarrow> byte list \<Rightarrow> (pyval list \<times> byte list) res" where
  "read_args S junk d tys m =
     foldE (\<lambda>(results, m) ty. bindE (read_obj S junk d ty m) (\<lambda>(v, m). Inr (results @ [v], m))) ([], m) tys"

section \<open>The server side\<close>

text \<open>A service function takes the argument values and returns a value or raises.\<close>

record marshal_wrap =
  func :: "pyval list \<Rightarrow> pyval res"
  input_types :: "string list"
  output_types :: "string list"

text \<open>The loop over the outputs of \<^verbatim>\<open>MarshalWrap.__call__\<close>, and the whole method; 0 stands for a NULL reply.\<close>

definition write_outputs :: "structs \<Rightarrow> nat \<Rightarrow> string list \<Rightarrow> pyval \<Rightarrow> byte list res" where
  "write_outputs S d tys output =
     (if length tys = 1 then write_obj S d output (hd tys) []
      else foldE (\<lambda>m i. bindE (py_getitem output (PInt (int i))) (\<lambda>v. write_obj S d v (tys ! i) m)) [] [0..<length tys])"

definition wrap_call :: "structs \<Rightarrow> byte \<Rightarrow> nat \<Rightarrow> marshal_wrap \<Rightarrow> byte list \<Rightarrow> nat py" where
  "wrap_call S junk d w input h =
     (case bindE (read_args S junk d (input_types w) input) (\<lambda>(input_values, m). func w input_values) of
        Inl e \<Rightarrow> (Inl e, h)
      | Inr output \<Rightarrow>
          if output_types w = [] then (Inr 0, h)
          else let (i, h) = new_marshal [] h in
            case write_outputs S d (output_types w) output of
              Inl e \<Rightarrow> (Inl e, h)
            | Inr m \<Rightarrow> (Inr i, set_buf i m h))"

abbreviation "ENOENT \<equiv> 2 :: i32"
abbreviation "EEXIST \<equiv> 17 :: i32"
abbreviation "EINVAL \<equiv> 22 :: i32"
abbreviation "ENOSYS \<equiv> 38 :: i32"
abbreviation "ENOTCONN \<equiv> 107 :: i32"
abbreviation "ETIMEDOUT \<equiv> 110 :: i32"

text \<open>The handler that \<^verbatim>\<open>server_reg\<close> installs: the error code and the bytes of the reply.\<close>

definition handler :: "structs \<Rightarrow> byte \<Rightarrow> nat \<Rightarrow> marshal_wrap \<Rightarrow> byte list \<Rightarrow> (i32 \<times> byte list) py" where
  "handler S junk d w m h =
     (case wrap_call S junk d w m h of
        (Inl Abort, h) \<Rightarrow> (Inl Abort, h)
      | (Inl Undefined, h) \<Rightarrow> (Inl Undefined, h)
      | (Inl Hang, h) \<Rightarrow> (Inl Hang, h)
      | (Inl NotImplementedError, h) \<Rightarrow> (Inr (ENOSYS, []), h)
      | (Inl _, h) \<Rightarrow> (Inr (- 1, []), h)
      | (Inr i, h) \<Rightarrow> if i = 0 then (Inr (0, []), h) else (Inr (0, buf h i), fini_marshal i h))"

type_synonym handlers = "(i32 \<times> marshal_wrap) list"

definition serve_request :: "structs \<Rightarrow> byte \<Rightarrow> nat \<Rightarrow> handlers \<Rightarrow> i64 \<times> byte list \<Rightarrow> (i64 \<times> i32 \<times> byte list) py" where
  "serve_request S junk d hs r h =
     (case r of (xid, m) \<Rightarrow>
        if length m < 4 then (Inr (xid, EINVAL, []), h)
        else case map_of hs (le_join (take 4 m)) of
            None \<Rightarrow> (Inr (xid, ENOENT, []), h)
          | Some w \<Rightarrow>
              (case handler S junk d w (drop 4 m) h of
                 (Inl e, h) \<Rightarrow> (Inl e, h)
               | (Inr (error_code, body), h) \<Rightarrow> (Inr (xid, error_code, body), h)))"

fun serve_all :: "structs \<Rightarrow> byte \<Rightarrow> nat \<Rightarrow> handlers \<Rightarrow> (i64 \<times> byte list) list \<Rightarrow> (i64 \<times> i32 \<times> byte list) list py" where
  "serve_all S junk d hs [] h = (Inr [], h)"
| "serve_all S junk d hs (r # rs) h =
     (case serve_request S junk d hs r h of
        (Inl e, h) \<Rightarrow> (Inl e, h)
      | (Inr p, h) \<Rightarrow>
          (case serve_all S junk d hs rs h of
             (Inl e, h) \<Rightarrow> (Inl e, h)
           | (Inr ps, h) \<Rightarrow> (Inr (p # ps), h)))"

text \<open>Everything a connection receives, in the pieces it arrives in, and the bytes it sends back.\<close>

definition server_receive :: "structs \<Rightarrow> byte \<Rightarrow> nat \<Rightarrow> handlers \<Rightarrow> byte list list \<Rightarrow> byte list py" where
  "server_receive S junk d hs cs h =
     (case feed (next_request junk) cs of
        Inl e \<Rightarrow> (Inl e, h)
      | Inr (rs, b) \<Rightarrow>
          (case serve_all S junk d hs rs h of
             (Inl e, h) \<Rightarrow> (Inl e, h)
           | (Inr ps, h) \<Rightarrow> (Inr (concat (map reply_packet ps)), h)))"

section \<open>The client side\<close>

text \<open>The C++ futures of a client, by transaction number; \<open>pending\<close> holds those that wait for a reply.\<close>

record rfuture =
  fu_ready :: bool
  fu_timed_out :: bool
  fu_error :: i32
  fu_reply :: "byte list"

record rclient =
  connected :: bool
  xid_counter :: i64
  pending :: "i64 list"
  futures :: "(i64 \<times> rfuture) list"

definition new_future :: rfuture where
  "new_future = \<lparr>fu_ready = False, fu_timed_out = False, fu_error = 0, fu_reply = []\<rparr>"

definition future_of :: "rclient \<Rightarrow> i64 \<Rightarrow> rfuture" where
  "future_of c xid = (case map_of (futures c) xid of Some fu \<Rightarrow> fu | None \<Rightarrow> new_future)"

definition notify_ready :: "rfuture \<Rightarrow> rfuture" where
  "notify_ready fu = (if fu_timed_out fu then fu else fu \<lparr>fu_ready := True\<rparr>)"

text \<open>\<^verbatim>\<open>begin_request\<close> to \<^verbatim>\<open>end_request\<close>: the transaction number and the packet put on the wire.\<close>

definition send_request :: "i32 \<Rightarrow> byte list \<Rightarrow> rclient \<Rightarrow> (i64 \<times> byte list) option \<times> rclient" where
  "send_request rpc_id m c =
     (if \<not> connected c then (None, c)
      else let xid = xid_counter c in
        (Some (xid, request_packet (xid, memcpy_out rpc_id @ m)),
         c \<lparr>xid_counter := xid + 1, pending := xid # pending c, futures := AList.update xid new_future (futures c)\<rparr>))"

text \<open>
  A reply for a pending call: its error code and its body go into the future, which becomes ready and is
  pending no more.
\<close>

definition deliver :: "rclient \<Rightarrow> i64 \<times> i32 \<times> byte list \<Rightarrow> rclient" where
  "deliver c r =
     (case r of (xid, error_code, m) \<Rightarrow>
        let fu = future_of c xid in
        c \<lparr>pending := removeAll xid (pending c),
           futures := AList.update xid
             (notify_ready (fu \<lparr>fu_error := error_code, fu_reply := fu_reply fu @ m\<rparr>)) (futures c)\<rparr>)"

text \<open>
  \<^verbatim>\<open>Client::handle_read\<close>, which the poll loop of the extension module calls when bytes arrived.  A round of
  its loop takes the size, the transaction number and the error code of a complete packet off the buffer,
  and the body too if the transaction is pending.  Otherwise the body stays where it is.
\<close>

definition handle_one :: "byte \<Rightarrow> rclient \<Rightarrow> byte list \<Rightarrow> (rclient \<times> byte list) option res" where
  "handle_one junk c b =
     bindE (reply_head junk b) (\<lambda>r. case r of
       None \<Rightarrow> Inr None
     | Some (packet_size, xid, error_code, b) \<Rightarrow>
         if xid \<in> set (pending c) then
           let k = body_size packet_size xid error_code in
           if length b < k then Inl Abort else Inr (Some (deliver c (xid, error_code, take k b), drop k b))
         else Inr (Some (c, b)))"

lemma handle_one_shorter:
  assumes "handle_one junk c b = Inr (Some (c', b'))"
  shows "length b' < length b"
proof -
  obtain n xid error_code a where "reply_head junk b = Inr (Some (n, xid, error_code, a))" "length b' \<le> length a"
    using assms unfolding handle_one_def
    by (auto simp: Let_def split: option.splits if_splits elim!: bindE_eq_InrE)
  then show ?thesis using reply_head_shorter by fastforce
qed

function handle_replies :: "byte \<Rightarrow> rclient \<Rightarrow> byte list \<Rightarrow> (rclient \<times> byte list) res" where
  "handle_replies junk c b =
     (case handle_one junk c b of
        Inl e \<Rightarrow> Inl e
      | Inr None \<Rightarrow> Inr (c, b)
      | Inr (Some (c, b)) \<Rightarrow> handle_replies junk c b)"
  by pat_completeness auto
termination by (relation "measure (\<lambda>(junk, c, b). length b)") (auto dest: handle_one_shorter)

declare handle_replies.simps [simp del]

definition handle_read :: "byte \<Rightarrow> rclient \<times> byte list \<Rightarrow> byte list \<Rightarrow> (rclient \<times> byte list) res" where
  "handle_read junk st piece =
     (case st of (c, b) \<Rightarrow>
        if \<not> connected c \<or> piece = [] then Inr (c, b) else handle_replies junk c (b @ piece))"

text \<open>Everything a client receives, in the pieces it arrives in; the buffer is empty at first.\<close>

definition client_receive_all :: "byte \<Rightarrow> byte list list \<Rightarrow> rclient \<Rightarrow> (rclient \<times> byte list) res" where
  "client_receive_all junk cs c = foldE (handle_read junk) (c, []) cs"

definition client_receive :: "byte \<Rightarrow> byte list list \<Rightarrow> rclient \<Rightarrow> rclient res" where
  "client_receive junk cs c = bindE (client_receive_all junk cs c) (\<lambda>(c, b). Inr c)"

text \<open>Waiting for a future; the reply bytes move into a new marshal object if there was no error.\<close>

definition await :: "rfuture \<Rightarrow> mheap \<Rightarrow> (i32 \<times> nat) res \<times> mheap" where
  "await fu h =
     (if \<not> fu_ready fu \<and> \<not> fu_timed_out fu then (Inl Hang, h)
      else let (i, h) = new_marshal (if fu_error fu = 0 then fu_reply fu else []) h in (Inr (fu_error fu, i), h))"

text \<open>
  Waiting with a limit: if no reply came in time, the future is marked so that a late reply does not make
  it ready any more.  The time-out and the storing of its code are one step here; in the code they are two,
  and nothing keeps a reply that comes between them from storing its own code in the C++ future.
\<close>

definition timed_wait :: "rfuture \<Rightarrow> rfuture" where
  "timed_wait fu =
     (let fu = (if fu_ready fu \<or> fu_timed_out fu then fu else fu \<lparr>fu_timed_out := True\<rparr>) in
      if fu_timed_out fu then fu \<lparr>fu_error := ETIMEDOUT\<rparr> else fu)"

text \<open>The results a reply object holds; the object is deleted with the Python object that wraps it.\<close>

definition read_reply :: "structs \<Rightarrow> byte \<Rightarrow> nat \<Rightarrow> i32 \<Rightarrow> nat \<Rightarrow> string list \<Rightarrow> pyval list py" where
  "read_reply S junk d error_code rep_marshal_id rep_types h =
     (if rep_marshal_id \<noteq> 0 \<and> error_code = 0 then
        (bindE (read_args S junk d rep_types (buf h rep_marshal_id)) (\<lambda>(results, m). Inr results),
         fini_marshal rep_marshal_id h)
      else (Inr [], h))"

definition parse_int :: "int \<Rightarrow> i32 res" where
  "parse_int i = (if int_fits 32 i then Inr (word_of_int i) else Inl OverflowError)"

text \<open>
  \<^verbatim>\<open>Client.sync_call\<close>: the arguments go into a marshal object that dies with the call; the request goes to
  the server, whose answer \<^verbatim>\<open>net\<close> brings back.  \<open>net\<close> is the other side: it takes the bytes sent and gives
  the pieces received.
\<close>

definition client_sync_call ::
  "byte \<Rightarrow> (byte list \<Rightarrow> mheap \<Rightarrow> byte list list res \<times> mheap) \<Rightarrow> int \<Rightarrow> byte list \<Rightarrow> rclient \<Rightarrow> mheap
    \<Rightarrow> ((i32 \<times> nat) res \<times> mheap) \<times> rclient" where
  "client_sync_call junk net rpc_id m c h =
     (case parse_int rpc_id of
        Inl e \<Rightarrow> ((Inl e, h), c)
      | Inr rid \<Rightarrow>
          (case send_request rid m c of
             (None, c) \<Rightarrow> let (i, h) = new_marshal [] h in ((Inr (ENOTCONN, i), h), c)
           | (Some (xid, out), c) \<Rightarrow>
               (case net out h of
                  (Inl e, h) \<Rightarrow> ((Inl e, h), c)
                | (Inr cs, h) \<Rightarrow>
                    (case client_receive junk cs c of
                       Inl e \<Rightarrow> ((Inl e, h), c)
                     | Inr c \<Rightarrow> (await (future_of c xid) h, c)))))"

definition sync_call ::
  "structs \<Rightarrow> byte \<Rightarrow> nat \<Rightarrow> (byte list \<Rightarrow> mheap \<Rightarrow> byte list list res \<times> mheap) \<Rightarrow> int \<Rightarrow> pyval list \<Rightarrow> string list
    \<Rightarrow> string list \<Rightarrow> rclient \<Rightarrow> mheap \<Rightarrow> ((i32 \<times> pyval list) res \<times> mheap) \<times> rclient" where
  "sync_call S junk d net rpc_id req_values req_types rep_types c h =
     (let (req_m, h) = new_marshal [] h in
      case write_args S d req_values req_types [] of
        Inl e \<Rightarrow> ((Inl e, fini_marshal req_m h), c)
      | Inr m \<Rightarrow>
          (case client_sync_call junk net rpc_id m c (set_buf req_m m h) of
             ((Inl e, h), c) \<Rightarrow> ((Inl e, fini_marshal req_m h), c)
           | ((Inr (error_code, rep_marshal_id), h), c) \<Rightarrow>
               (case read_reply S junk d error_code rep_marshal_id rep_types h of
                  (Inl e, h) \<Rightarrow> ((Inl e, fini_marshal req_m h), c)
                | (Inr results, h) \<Rightarrow> ((Inr (error_code, results), fini_marshal req_m h), c))))"

text \<open>\<^verbatim>\<open>Client.async_call\<close> returns a future at once, or raises if there is no connection.\<close>

record pyfuture =
  fid :: i64
  f_rep_types :: "string list"
  wait_ok :: bool
  err_code :: "i32 option"
  rep :: "pyval option"

definition py_future :: "i64 \<Rightarrow> string list \<Rightarrow> pyfuture" where
  "py_future i rep_types = \<lparr>fid = i, f_rep_types = rep_types, wait_ok = False, err_code = None, rep = None\<rparr>"

definition async_call ::
  "structs \<Rightarrow> nat \<Rightarrow> int \<Rightarrow> pyval list \<Rightarrow> string list \<Rightarrow> string list \<Rightarrow> rclient \<Rightarrow> (pyfuture \<times> byte list) res \<times> rclient" where
  "async_call S d rpc_id req_values req_types rep_types c =
     (case bindE (write_args S d req_values req_types []) (\<lambda>m. bindE (parse_int rpc_id) (\<lambda>rid. Inr (m, rid))) of
        Inl e \<Rightarrow> (Inl e, c)
      | Inr (m, rid) \<Rightarrow>
          (case send_request rid m c of
             (None, c) \<Rightarrow> (Inl (GenericException ''ENOTCONN: Transport endpoint is not connected''), c)
           | (Some (xid, out), c) \<Rightarrow> (Inr (py_future xid rep_types, out), c)))"

text \<open>
  \<^verbatim>\<open>Future.wait\<close>.  The client state is the one at the moment the wait ends; \<open>timed\<close> tells whether a limit was
  given.  A second wait returns \<^verbatim>\<open>None\<close> without looking.  The reply bytes leave the C++ future with the
  first look, whatever becomes of them.
\<close>

definition take_reply :: "i64 \<Rightarrow> rfuture \<Rightarrow> rclient \<Rightarrow> rclient" where
  "take_reply xid fu c =
     c \<lparr>futures := AList.update xid (if fu_error fu = 0 then fu \<lparr>fu_reply := []\<rparr> else fu) (futures c)\<rparr>"

definition rep_of :: "pyval list \<Rightarrow> pyval" where
  "rep_of results = (if results = [] then PNone else if length results = 1 then hd results else PList results)"

definition future_wait ::
  "structs \<Rightarrow> byte \<Rightarrow> nat \<Rightarrow> bool \<Rightarrow> pyfuture \<Rightarrow> rclient \<Rightarrow> mheap \<Rightarrow> (i32 option res \<times> mheap) \<times> pyfuture \<times> rclient" where
  "future_wait S junk d timed fu c h =
     (if wait_ok fu then ((Inr None, h), fu, c)
      else let cfu = future_of c (fid fu); cfu = (if timed then timed_wait cfu else cfu) in
        case await cfu h of
          (Inl e, h) \<Rightarrow> ((Inl e, h), fu, c)
        | (Inr (ec, i), h) \<Rightarrow>
            let fu = fu \<lparr>err_code := Some ec\<rparr>; c = take_reply (fid fu) cfu c in
            (case read_reply S junk d ec i (f_rep_types fu) h of
               (Inl e, h) \<Rightarrow> ((Inl e, h), fu, c)
             | (Inr results, h) \<Rightarrow>
                 ((Inr (Some ec), h), fu \<lparr>wait_ok := True, rep := Some (rep_of results)\<rparr>, c)))"

text \<open>The properties \<^verbatim>\<open>result\<close> and \<^verbatim>\<open>error_code\<close> wait first.\<close>

definition future_result ::
  "structs \<Rightarrow> byte \<Rightarrow> nat \<Rightarrow> pyfuture \<Rightarrow> rclient \<Rightarrow> mheap \<Rightarrow> (pyval res \<times> mheap) \<times> pyfuture \<times> rclient" where
  "future_result S junk d fu c h =
     (case future_wait S junk d False fu c h of
        ((Inl e, h), fu, c) \<Rightarrow> ((Inl e, h), fu, c)
      | ((Inr _, h), fu, c) \<Rightarrow> ((case rep fu of Some v \<Rightarrow> Inr v | None \<Rightarrow> Inl AttributeError, h), fu, c))"

definition future_error_code ::
  "structs \<Rightarrow> byte \<Rightarrow> nat \<Rightarrow> pyfuture \<Rightarrow> rclient \<Rightarrow> mheap \<Rightarrow> (i32 res \<times> mheap) \<times> pyfuture \<times> rclient" where
  "future_error_code S junk d fu c h =
     (case future_wait S junk d False fu c h of
        ((Inl e, h), fu, c) \<Rightarrow> ((Inl e, h), fu, c)
      | ((Inr _, h), fu, c) \<Rightarrow> ((case err_code fu of Some v \<Rightarrow> Inr v | None \<Rightarrow> Inl AttributeError, h), fu, c))"

section \<open>Registration of services\<close>

text \<open>
  \<^verbatim>\<open>Server\<close>: its dictionary \<^verbatim>\<open>func_ids\<close>, the handler table of the C++ server, the number of references the
  C++ side holds on wrapped functions, and whether the C++ server still exists.
\<close>

record pyserver =
  func_ids :: "(int \<times> marshal_wrap) list"
  reg_handlers :: handlers
  refs :: nat
  alive :: bool

definition init_server :: pyserver where
  "init_server = \<lparr>func_ids = [], reg_handlers = [], refs = 0, alive = True\<rparr>"

definition server_reg :: "i32 \<Rightarrow> marshal_wrap \<Rightarrow> pyserver \<Rightarrow> i32 \<times> pyserver" where
  "server_reg rid f s =
     (let s = s \<lparr>refs := refs s + 1\<rparr> in
      if rid \<in> fst ` set (reg_handlers s) then (EEXIST, s)
      else (0, s \<lparr>reg_handlers := AList.update rid f (reg_handlers s)\<rparr>))"

definition decr_ref :: "pyserver \<Rightarrow> pyserver" where
  "decr_ref s = s \<lparr>refs := refs s - 1\<rparr>"

definition reg_func :: "int \<Rightarrow> (pyval list \<Rightarrow> pyval res) \<Rightarrow> string list \<Rightarrow> string list \<Rightarrow> pyserver \<Rightarrow> i32 res \<times> pyserver" where
  "reg_func rpc_id f in_tys out_tys s =
     (let rpc_func = \<lparr>func = f, input_types = in_tys, output_types = out_tys\<rparr> in
      case parse_int rpc_id of
        Inl e \<Rightarrow> (Inl e, s)
      | Inr rid \<Rightarrow>
          let (ret, s) = server_reg rid rpc_func s in
          if ret \<noteq> 0 then (Inr ret, decr_ref s)
          else (Inr ret, s \<lparr>func_ids := AList.update rpc_id rpc_func (func_ids s)\<rparr>))"

definition unreg :: "int \<Rightarrow> pyserver \<Rightarrow> unit res \<times> pyserver" where
  "unreg rpc_id s =
     (case parse_int rpc_id of
        Inl e \<Rightarrow> (Inl e, s)
      | Inr rid \<Rightarrow>
          let s = s \<lparr>reg_handlers := AList.delete rid (reg_handlers s)\<rparr> in
          if rpc_id \<in> fst ` set (func_ids s) then
            (Inr (), decr_ref (s \<lparr>func_ids := AList.delete rpc_id (func_ids s)\<rparr>))
          else (Inl KeyError, s))"

text \<open>
  \<^verbatim>\<open>Server.__del__\<close>.  \<^verbatim>\<open>self.func_ids.keys()\<close> is a live view, so each round of the loop first compares the size
  of the dictionary with the size at the start and raises if they differ.
\<close>

function del_loop :: "nat \<Rightarrow> nat \<Rightarrow> pyserver \<Rightarrow> unit res \<times> pyserver" where
  "del_loop sz pos s =
     (if length (func_ids s) \<noteq> sz then (Inl (RuntimeError ''dictionary changed size during iteration''), s)
      else if pos < sz then
        (case unreg (fst (func_ids s ! pos)) s of
           (Inl e, s) \<Rightarrow> (Inl e, s)
         | (Inr _, s) \<Rightarrow> del_loop sz (Suc pos) s)
      else (Inr (), s))"
  by pat_completeness auto
termination by (relation "measure (\<lambda>(sz, pos, s). sz - pos)") auto

definition server_del :: "pyserver \<Rightarrow> unit res \<times> pyserver" where
  "server_del s =
     (case del_loop (length (func_ids s)) 0 s of
        (Inl e, s) \<Rightarrow> (Inl e, s)
      | (Inr _, s) \<Rightarrow> (Inr (), s \<lparr>alive := False\<rparr>))"

end
