(* ===== verification/Simplerpc_Correct.thy ===== *)
theory Simplerpc_Correct
  imports Simplerpc
begin

text \<open>
  A call through the whole stack: the arguments written by \<^verbatim>\<open>Client.sync_call\<close> reach the service function,
  and what it returns reaches the caller, whatever pieces the network cuts the streams into.
\<close>

section \<open>Lists of arguments\<close>

lemma py_nth_Cons:
  "py_nth (x # xs) 0 = Inr x"
  "py_nth (x # xs) (1 + int i) = py_nth xs (int i)"
  by (simp_all add: py_nth_def py_index_def nat_add_distrib)

lemma write_args_Cons:
  "write_args S d (v # vs) (ty # tys) m = bindE (write_obj S d v ty m) (write_args S d vs tys)"
proof -
  have "[0..<length (v # vs)] = 0 # map Suc [0..<length vs]"
    by (simp add: upt_conv_Cons map_Suc_upt del: upt_Suc)
  then show ?thesis
    unfolding write_args_def by (simp add: foldE_map py_nth_Cons del: upt_Suc)
qed

lemma args_codes:
  assumes "env_ok E" "list_all ty_ok ts" "list_all2 (wt E d) ts vs"
  shows "\<exists>bs. (\<forall>m. write_args (render_env E) d vs (map render ts) m = Inr (m @ bs)) \<and>
    (\<forall>acc rest. foldE (\<lambda>(results, m) ty. bindE (read_obj (render_env E) junk d ty m) (\<lambda>(v, m). Inr (results @ [v], m)))
      (acc, bs @ rest) (map render ts) = Inr (acc @ vs, rest))"
  using assms(3,2)
proof (induction rule: list_all2_induct)
  case Nil
  show ?case by (rule exI [of _ "[]"]) (simp add: write_args_def)
next
  case (Cons t ts v vs)
  have "ty_ok t" "list_all ty_ok ts" using Cons.prems by simp_all
  then obtain b where b: "codes (\<lambda>v. write_obj (render_env E) d v (render t)) (read_obj (render_env E) junk d (render t)) v b"
    using obj.roundtrip [of E t d v junk] Cons.hyps(1) assms(1) by blast
  from Cons.IH [OF \<open>list_all ty_ok ts\<close>] obtain bs where
    bs: "\<And>m. write_args (render_env E) d vs (map render ts) m = Inr (m @ bs)"
      "\<And>acc rest. foldE (\<lambda>(results, m) ty. bindE (read_obj (render_env E) junk d ty m) (\<lambda>(v, m). Inr (results @ [v], m)))
      (acc, bs @ rest) (map render ts) = Inr (acc @ vs, rest)" by blast
  show ?case
    by (rule exI [of _ "b @ bs"]) (simp add: write_args_Cons codesD [OF b] bs)
qed

lemma args_roundtrip:
  assumes "env_ok E" "list_all ty_ok ts" "list_all2 (wt E d) ts vs"
  obtains bs where "\<And>m. write_args (render_env E) d vs (map render ts) m = Inr (m @ bs)"
    and "\<And>rest. read_args (render_env E) junk d (map render ts) (bs @ rest) = Inr (vs, rest)"
  using args_codes [OF assms, of junk] unfolding read_args_def by (metis append_Nil)

text \<open>
  How a returned value stands for the results: nothing for a procedure without results, the value itself
  for one result, a tuple or a list for several.
\<close>

definition returns :: "nat \<Rightarrow> pyval \<Rightarrow> pyval list \<Rightarrow> bool" where
  "returns n out rs \<longleftrightarrow> length rs = n \<and> (n = 1 \<longrightarrow> rs = [out]) \<and> (1 < n \<longrightarrow> out = PTuple rs \<or> out = PList rs)"

lemma write_outputs_args:
  assumes "returns (length tys) out rs" "tys \<noteq> []"
  shows "write_outputs S d tys out = write_args S d rs tys []"
proof (cases "length tys = 1")
  case True
  then obtain ty where "tys = [ty]" by (cases tys) auto
  then show ?thesis using assms by (simp add: returns_def write_outputs_def write_args_def py_nth_def py_index_def)
next
  case False
  then have "out = PTuple rs \<or> out = PList rs" and l: "length rs = length tys"
    using assms by (cases tys; auto simp: returns_def)+
  then have "py_getitem out (PInt i) = py_nth rs i" for i by auto
  then show ?thesis using False l
    by (auto simp: write_outputs_def write_args_def intro!: foldE_cong bindE_cong)
qed

section \<open>The heap\<close>

definition heap_ok :: "mheap \<Rightarrow> bool" where
  "heap_ok h \<longleftrightarrow> 0 < next_id h \<and> list_all (\<lambda>(i, m). i < next_id h) (bufs h)"

lemma fresh_id: "heap_ok h \<Longrightarrow> next_id h \<notin> fst ` set (bufs h)"
  by (auto simp: heap_ok_def list_all_iff)

lemma delete_fresh: "k \<notin> fst ` set al \<Longrightarrow> AList.delete k al = al"
  by (induction al) auto

lemma update_last: "k \<notin> fst ` set al \<Longrightarrow> AList.update k w (al @ [(k, v)]) = al @ [(k, w)]"
  by (induction al) auto

lemma delete_append: "AList.delete k (al @ bl) = AList.delete k al @ AList.delete k bl"
  by (induction al) auto

lemma new_marshal_eq:
  assumes "heap_ok h"
  shows "new_marshal m h = (next_id h, h \<lparr>bufs := bufs h @ [(next_id h, m)], next_id := Suc (next_id h)\<rparr>)"
  using fresh_id [OF assms] by (simp add: new_marshal_def update_new)

lemma set_buf_new:
  assumes "heap_ok h"
  shows "set_buf (next_id h) m (h \<lparr>bufs := bufs h @ [(next_id h, m0)], next_id := n\<rparr>) =
    h \<lparr>bufs := bufs h @ [(next_id h, m)], next_id := n\<rparr>"
  using fresh_id [OF assms] by (simp add: set_buf_def update_last)

lemma fini_new:
  assumes "heap_ok h"
  shows "fini_marshal (next_id h) (h \<lparr>bufs := bufs h @ [(next_id h, m)], next_id := n\<rparr>) = h \<lparr>next_id := n\<rparr>"
  using fresh_id [OF assms] by (simp add: fini_marshal_def delete_append delete_fresh)

lemma buf_new:
  assumes "heap_ok h"
  shows "buf (h \<lparr>bufs := bufs h @ [(next_id h, m)], next_id := n\<rparr>) (next_id h) = m"
proof -
  have "map_of (bufs h) (next_id h) = None" using fresh_id [OF assms] by (simp add: map_of_eq_None_iff)
  then show ?thesis by (simp add: buf_def map_add_def)
qed

lemma heap_ok_new:
  assumes "heap_ok h" "next_id h < n"
  shows "heap_ok (h \<lparr>bufs := bufs h @ [(next_id h, m)], next_id := n\<rparr>)"
  using assms by (auto simp: heap_ok_def list_all_iff dest!: bspec)

lemma heap_ok_next:
  assumes "heap_ok h" "next_id h \<le> n"
  shows "heap_ok (h \<lparr>next_id := n\<rparr>)"
  using assms by (auto simp: heap_ok_def list_all_iff dest!: bspec)

lemmas heap_simps = new_marshal_eq set_buf_new fini_new buf_new

section \<open>The handler of a registered function\<close>

lemma handler_returns:
  assumes "heap_ok h"
    and "read_args S junk d (input_types w) input = Inr (vs, m)" "func w vs = Inr out"
    and "returns (length (output_types w)) out rs" "write_args S d rs (output_types w) [] = Inr body"
  shows "\<exists>n \<ge> next_id h. handler S junk d w input h = (Inr (0, body), h \<lparr>next_id := n\<rparr>)"
proof (cases "output_types w = []")
  case True
  then have "body = []" using assms(4,5) by (simp add: returns_def write_args_def)
  then show ?thesis
    using True assms(2,3) by (intro exI [of _ "next_id h"]) (simp add: handler_def wrap_call_def)
next
  case False
  have "next_id h \<noteq> 0" using assms(1) by (simp add: heap_ok_def)
  then show ?thesis
    using False assms(2,3,5) write_outputs_args [OF assms(4) False, of S d]
    by (intro exI [of _ "Suc (next_id h)"]) (simp add: handler_def wrap_call_def heap_simps [OF assms(1)])
qed

text \<open>An exception of the service function becomes an error code; the request costs no memory.\<close>

lemma handler_raises:
  assumes "read_args S junk d (input_types w) input = Inr (vs, m)" "func w vs = Inl e" "e \<notin> {Abort, Undefined, Hang}"
  shows "handler S junk d w input h = (Inr (if e = NotImplementedError then ENOSYS else - 1, []), h)"
  using assms by (cases e) (simp_all add: handler_def wrap_call_def)

section \<open>Replies find their future\<close>


lemma deliver_self:
  assumes "future_of c xid = new_future"
  shows "future_of (deliver c (xid, ec, m)) xid = \<lparr>fu_ready = True, fu_timed_out = False, fu_error = ec, fu_reply = m\<rparr>"
  using assms
  by (simp add: deliver_def future_of_def [of "_ \<lparr>pending := _, futures := _\<rparr>"] update_conv notify_ready_def new_future_def Let_def)

lemma deliver_fields:
  "connected (deliver c r) = connected c" "pending (deliver c r) = removeAll (fst r) (pending c)"
  by (simp_all add: deliver_def Let_def split: prod.split)


lemma deliver_all_fields:
  "connected (foldl deliver c rs) = connected c"
  "pending (foldl deliver c rs) = filter (\<lambda>x. x \<notin> fst ` set rs) (pending c)"
  by (induction rs arbitrary: c) (auto simp: deliver_fields removeAll_filter_not_eq intro!: filter_cong)


text \<open>As long as only pending calls are answered, the loop of \<^verbatim>\<open>handle_read\<close> takes whole packets off the buffer.\<close>

lemma handle_one_pending:
  assumes "next_reply junk b = Inr r"
    and "\<And>p b'. r = Some (p, b') \<Longrightarrow> fst p \<in> set (pending c)"
  shows "handle_one junk c b = Inr (map_option (\<lambda>(p, b'). (deliver c p, b')) r)"
  using assms unfolding next_reply_def handle_one_def
  by (auto simp: Let_def split: option.splits if_splits elim!: bindE_eq_InrE)

lemma handle_replies_drain:
  assumes "drain (next_reply junk) n b = Inr (rs, b', done)" "length b < n"
    and "distinct (map fst rs)" "fst ` set rs \<subseteq> set (pending c)"
  shows "handle_replies junk c b = Inr (foldl deliver c rs, b')"
  using assms
proof (induction n arbitrary: b rs c)
  case (Suc n)
  obtain r where r: "next_reply junk b = Inr r" using Suc.prems(1) by (auto elim: bindE_eq_InrE)
  show ?case
  proof (cases r)
    case None
    then have "handle_one junk c b = Inr None" using handle_one_pending [OF r] by simp
    then show ?thesis using Suc.prems(1) r None by (simp add: handle_replies.simps [of junk c])
  next
    case (Some a)
    obtain p b1 where a: "a = (p, b1)" by (rule prod.exhaust)
    obtain ps where ps: "drain (next_reply junk) n b1 = Inr (ps, b', done)" "rs = p # ps"
      using Suc.prems(1) by (auto simp: r Some a elim!: bindE_eq_InrE)
    have "handle_one junk c b = Inr (Some (deliver c p, b1))"
      using handle_one_pending [OF r, of c] Suc.prems(4) by (auto simp: Some a ps(2))
    moreover have "length b1 < n" using next_reply_shorter [of junk b p b1] r Suc.prems(2) by (simp add: Some a)
    moreover have "fst ` set ps \<subseteq> set (pending (deliver c p))"
      using Suc.prems(3,4) unfolding ps(2) deliver_fields by auto (metis fst_conv image_eqI)
    ultimately show ?thesis
      using Suc.IH [OF ps(1), of "deliver c p"] Suc.prems(3) by (simp add: handle_replies.simps [of junk c b] ps(2))
  qed
qed simp

lemma receive_feed:
  assumes "connected c" "feed (next_reply junk) cs = Inr (rs, b)" "distinct (map fst rs)" "fst ` set rs \<subseteq> set (pending c)"
  shows "next_reply junk b = Inr None \<and> client_receive_all junk cs c = Inr (foldl deliver c rs, b)"
  using assms(2-4)
proof (induction cs arbitrary: rs b rule: rev_induct)
  case Nil
  then show ?case by (auto simp: feed_def client_receive_all_def replies.next_empty)
next
  case (snoc p cs)
  obtain ps a where ps: "feed (next_reply junk) cs = Inr (ps, a)" and ar: "arrive (next_reply junk) (ps, a) p = Inr (rs, b)"
    using snoc.prems(1) by (auto simp: feed_def foldE_append elim!: bindE_eq_InrE)
  obtain qs fin where qs: "drain (next_reply junk) (Suc (length (a @ p))) (a @ p) = Inr (qs, b, fin)" "rs = ps @ qs"
    using ar unfolding arrive_def prod.case by (auto elim!: bindE_eq_InrE)
  have IH: "next_reply junk a = Inr None" "client_receive_all junk cs c = Inr (foldl deliver c ps, a)"
    using snoc.IH [OF ps] snoc.prems(2,3) by (auto simp: qs(2))
  have "fst ` set qs \<subseteq> set (pending (foldl deliver c ps))"
    using snoc.prems(2,3) unfolding qs(2) deliver_all_fields
    by (simp only: map_append distinct_append set_append image_Un set_map set_filter) blast
  then have "handle_replies junk (foldl deliver c ps) (a @ p) = Inr (foldl deliver c rs, b)"
    using handle_replies_drain [OF qs(1) lessI] snoc.prems(2) by (simp add: qs(2))
  moreover have "rs = ps \<and> b = a" if "p = []" using qs IH(1) by (simp add: that)
  ultimately have "handle_read junk (foldl deliver c ps, a) p = Inr (foldl deliver c rs, b)"
    using assms(1) by (auto simp: handle_read_def deliver_all_fields)
  moreover have "next_reply junk b = Inr None"
    using drain_done [OF next_reply_shorter qs(1) lessI] by simp
  ultimately show ?case using IH(2) by (simp add: client_receive_all_def foldE_append)
qed

lemma receive_replies:
  assumes "connected c" "concat cs = concat (map reply_packet rs)" "length (concat cs) < 2 ^ 62" "list_all reply_ok rs"
    and "distinct (map fst rs)" "fst ` set rs \<subseteq> set (pending c)"
  shows "client_receive_all junk cs c = Inr (foldl deliver c rs, [])"
  using receive_feed [OF assms(1) replies.feed_packets [OF assms(4,2,3)] assms(5,6)] by simp

section \<open>A call over the network\<close>

text \<open>The server at the other end of the wire; \<open>pieces\<close> is what the network does to a stream in each direction.\<close>

definition loopback ::
  "structs \<Rightarrow> byte \<Rightarrow> nat \<Rightarrow> handlers \<Rightarrow> (byte list \<Rightarrow> byte list list) \<Rightarrow> byte list \<Rightarrow> mheap \<Rightarrow> byte list list res \<times> mheap" where
  "loopback S junk d hs pieces out h =
     (case server_receive S junk d hs (pieces out) h of
        (Inl e, h) \<Rightarrow> (Inl e, h)
      | (Inr b, h) \<Rightarrow> (Inr (pieces b), h))"

lemma packet_bound:
  assumes "length m < 2 ^ 30" "val_size (sint xid) \<noteq> 8"
  shows "length (request_packet (xid, m)) < 2 ^ 62" "length (reply_packet (xid, ec, m)) < 2 ^ 62"
  using assms val_size_cases [of "sint xid"] val_size_cases [of "sint ec"]
  by (simp_all add: request_packet_def reply_packet_def packet_def v64_length dump_i32_length)

lemma client_sync_call_loopback:
  assumes "connected c" "parse_int rpc_id = Inr rid"
    and cut: "\<And>b. concat (pieces b) = b"
    and xid: "val_size (sint (xid_counter c)) \<noteq> 8" and m: "length (memcpy_out rid @ m) < 2 ^ 30"
    and serve: "serve_request S junk d hs (xid_counter c, memcpy_out rid @ m) h = (Inr (xid_counter c, ec, body), h')"
    and body: "length body < 2 ^ 30"
  shows "\<exists>c'. client_sync_call junk (loopback S junk d hs pieces) rpc_id m c h =
    ((Inr (ec, fst (new_marshal (if ec = 0 then body else []) h')), snd (new_marshal (if ec = 0 then body else []) h')), c')"
proof -
  let ?x = "xid_counter c" and ?r = "memcpy_out rid @ m"
  have "feed (next_request junk) (pieces (request_packet (?x, ?r))) = Inr ([(?x, ?r)], [])"
    by (rule requests.feed_packets)
      (use xid m packet_bound(1) [OF m xid] in \<open>simp_all add: request_ok_def cut\<close>)
  then have "server_receive S junk d hs (pieces (request_packet (?x, ?r))) h = (Inr (reply_packet (?x, ec, body)), h')"
    by (simp add: server_receive_def serve)
  then have lb: "loopback S junk d hs pieces (request_packet (?x, ?r)) h = (Inr (pieces (reply_packet (?x, ec, body))), h')"
    by (simp add: loopback_def)
  let ?c = "c \<lparr>xid_counter := ?x + 1, pending := ?x # pending c, futures := AList.update ?x new_future (futures c)\<rparr>"
  have "client_receive_all junk (pieces (reply_packet (?x, ec, body))) ?c = Inr (foldl deliver ?c [(?x, ec, body)], [])"
    by (rule receive_replies)
      (use assms(1) xid body packet_bound(2) [OF body xid, of ec] in \<open>simp_all add: reply_ok_def cut\<close>)
  moreover have "future_of (deliver ?c (?x, ec, body)) ?x = \<lparr>fu_ready = True, fu_timed_out = False, fu_error = ec, fu_reply = body\<rparr>"
    by (rule deliver_self) (simp add: future_of_def update_conv)
  ultimately show ?thesis
    using assms(1,2) lb
    by (simp add: client_sync_call_def send_request_def client_receive_def await_def Let_def split_def)
qed

lemma sync_call_reply:
  assumes "heap_ok h" "connected c" "int_fits 32 rpc_id" "\<And>b. concat (pieces b) = b"
    and "val_size (sint (xid_counter c)) \<noteq> 8"
    and wr: "write_args S d vs req_types [] = Inr m" and m: "length m < 2 ^ 29"
    and serve: "\<And>h. heap_ok h \<Longrightarrow> \<exists>n \<ge> next_id h.
      serve_request S junk d hs (xid_counter c, memcpy_out (word_of_int rpc_id :: i32) @ m) h =
        (Inr (xid_counter c, ec, body), h \<lparr>next_id := n\<rparr>)"
    and body: "length body < 2 ^ 30"
  shows "\<exists>n c'. next_id h < n \<and>
    sync_call S junk d (loopback S junk d hs pieces) rpc_id vs req_types rep_types c h =
      (if ec = 0 then ((bindE (read_args S junk d rep_types body) (\<lambda>(results, m). Inr (0, results)), h \<lparr>next_id := n\<rparr>), c')
       else ((Inr (ec, []), h \<lparr>bufs := bufs h @ [(n - 1, [])], next_id := n\<rparr>), c'))"
proof -
  let ?req = "next_id h" and ?rid = "word_of_int rpc_id :: i32"
  let ?h1 = "h \<lparr>bufs := bufs h @ [(?req, m)], next_id := Suc ?req\<rparr>"
  have h1: "heap_ok ?h1" using assms(1) by (intro heap_ok_new) simp_all
  then obtain n where n: "Suc ?req \<le> n"
      "serve_request S junk d hs (xid_counter c, memcpy_out ?rid @ m) ?h1 = (Inr (xid_counter c, ec, body), ?h1 \<lparr>next_id := n\<rparr>)"
    using serve by fastforce
  let ?h2 = "?h1 \<lparr>next_id := n\<rparr>"
  have h2: "heap_ok ?h2" by (rule heap_ok_next [OF h1]) (use n(1) in simp)
  let ?r = "if ec = 0 then body else []"
  have "parse_int rpc_id = Inr ?rid" using assms(3) by (simp add: parse_int_def)
  moreover have "length (memcpy_out ?rid @ m) < 2 ^ 30" using m by simp
  ultimately obtain c' where
    call: "client_sync_call junk (loopback S junk d hs pieces) rpc_id m c ?h1 =
      ((Inr (ec, n), ?h2 \<lparr>bufs := bufs ?h2 @ [(n, ?r)], next_id := Suc n\<rparr>), c')"
    using client_sync_call_loopback [OF assms(2) _ assms(4,5) _ n(2) body] new_marshal_eq [OF h2, of ?r]
    by fastforce
  have id: "n \<noteq> 0" "n \<noteq> ?req" using n(1) by simp_all
  have fin: "fini_marshal ?req (h \<lparr>bufs := bufs h @ [(?req, m)], next_id := k\<rparr>) = h \<lparr>next_id := k\<rparr>"
    "fini_marshal ?req (h \<lparr>bufs := bufs h @ [(?req, m), (n, [])], next_id := k\<rparr>) =
      h \<lparr>bufs := bufs h @ [(n, [])], next_id := k\<rparr>" for k
    using fresh_id [OF assms(1)] id(2) by (simp_all add: fini_marshal_def delete_append delete_fresh)
  show ?thesis
    using call fini_new [OF h2, where m = body] buf_new [OF h2, where m = body] id n(1)
    by (intro exI [of _ "Suc n"] exI [of _ c'])
      (auto simp: sync_call_def wr new_marshal_eq [OF assms(1)] set_buf_new [OF assms(1)] read_reply_def fin
        bindE_def split: sum.split)
qed

section \<open>Registration\<close>

text \<open>
  The dictionary and the handler table agree, and the references held are exactly those of the registered
  functions.
\<close>

definition server_ok :: "pyserver \<Rightarrow> bool" where
  "server_ok s \<longleftrightarrow>
     distinct (map fst (func_ids s)) \<and> list_all (\<lambda>(i, w). int_fits 32 i) (func_ids s) \<and>
     reg_handlers s = map (\<lambda>(i, w). (word_of_int i, w)) (func_ids s) \<and> refs s = length (func_ids s)"

lemma word_of_int_inj:
  assumes "int_fits 32 i" "int_fits 32 j" "(word_of_int i :: i32) = word_of_int j"
  shows "i = j"
proof -
  have "sint (word_of_int i :: i32) = i" "sint (word_of_int j :: i32) = j"
    using assms(1,2) by (auto intro!: sint_of_int_fits simp del: of_int_sint)
  then show ?thesis unfolding assms(3) by (rule trans [OF sym])
qed

lemma handlers_key:
  assumes "list_all (\<lambda>(i, w). int_fits 32 i) al" "int_fits 32 i"
  shows "(word_of_int i :: i32) \<in> fst ` set (map (\<lambda>(i, w). (word_of_int i, w)) al) \<longleftrightarrow> i \<in> fst ` set al"
proof
  assume "word_of_int i \<in> fst ` set (map (\<lambda>(i, w). (word_of_int i :: i32, w)) al)"
  then obtain j w where j: "(j, w) \<in> set al" "(word_of_int i :: i32) = word_of_int j" by auto
  then have "i = j" using assms by (intro word_of_int_inj) (auto simp: list_all_iff)
  then show "i \<in> fst ` set al" using j(1) by force
next
  assume "i \<in> fst ` set al"
  then show "word_of_int i \<in> fst ` set (map (\<lambda>(i, w). (word_of_int i :: i32, w)) al)" by force
qed

lemma delete_handlers:
  assumes "list_all (\<lambda>(i, w). int_fits 32 i) al" "int_fits 32 i"
  shows "AList.delete (word_of_int i :: i32) (map (\<lambda>(i, w). (word_of_int i, w)) al) =
    map (\<lambda>(i, w). (word_of_int i, w)) (AList.delete i al)"
  using assms by (induction al) (auto dest: word_of_int_inj)

lemma length_delete:
  "distinct (map fst al) \<Longrightarrow> k \<in> fst ` set al \<Longrightarrow> Suc (length (AList.delete k al)) = length al"
  by (induction al) (auto simp: delete_fresh)

lemma set_delete_subset: "set (AList.delete k al) \<subseteq> set al"
  by (induction al) auto

lemma parse_int_cases:
  obtains "int_fits 32 i" "parse_int i = Inr (word_of_int i)" | "parse_int i = Inl OverflowError"
  by (cases "int_fits 32 i") (auto simp: parse_int_def)

lemma server_ok_reg:
  assumes "server_ok s"
  shows "server_ok (snd (reg_func i f tys tys' s))"
proof (cases rule: parse_int_cases [of i])
  case 1
  let ?w = "\<lparr>func = f, input_types = tys, output_types = tys'\<rparr>"
  have k: "(word_of_int i :: i32) \<in> fst ` set (reg_handlers s) \<longleftrightarrow> i \<in> fst ` set (func_ids s)"
    using assms handlers_key [OF _ 1(1), of "func_ids s"] by (simp only: server_ok_def)
  show ?thesis
  proof (cases "i \<in> fst ` set (func_ids s)")
    case True
    then have "snd (reg_func i f tys tys' s) = s" using 1 k by (simp add: reg_func_def server_reg_def decr_ref_def Let_def)
    then show ?thesis using assms by simp
  next
    case False
    then show ?thesis
      using assms 1 k by (auto simp: reg_func_def server_reg_def Let_def server_ok_def update_new)
  qed
qed (use assms in \<open>simp add: reg_func_def Let_def\<close>)

lemma server_ok_unreg:
  assumes "server_ok s"
  shows "server_ok (snd (unreg i s))"
proof (cases rule: parse_int_cases [of i])
  case 1
  have l: "list_all (\<lambda>(i, w). int_fits 32 i) (AList.delete i (func_ids s))"
    using assms by (auto simp: server_ok_def list_all_iff dest!: set_delete_subset [THEN subsetD])
  have d: "AList.delete (word_of_int i :: i32) (reg_handlers s) = map (\<lambda>(i, w). (word_of_int i, w)) (AList.delete i (func_ids s))"
    using assms delete_handlers [OF _ 1(1), of "func_ids s"] by (simp add: server_ok_def)
  show ?thesis
  proof (cases "i \<in> fst ` set (func_ids s)")
    case True
    then have "length (AList.delete i (func_ids s)) = refs s - 1"
      using length_delete [OF _ True] assms by (simp add: server_ok_def)
    then show ?thesis
      using assms 1 True l d
      by (simp add: unreg_def decr_ref_def server_ok_def distinct_delete)
  next
    case False
    then show ?thesis
      using assms 1 d by (simp add: unreg_def server_ok_def delete_fresh)
  qed
qed (use assms in \<open>simp add: unreg_def\<close>)

text \<open>The states a server object can be in.\<close>

inductive server_reach :: "pyserver \<Rightarrow> bool" where
  start: "server_reach init_server"
| reg: "server_reach s \<Longrightarrow> reg_func i f tys tys' s = (r, s') \<Longrightarrow> server_reach s'"
| unreg: "server_reach s \<Longrightarrow> unreg i s = (r, s') \<Longrightarrow> server_reach s'"

lemma server_reach_ok: "server_reach s \<Longrightarrow> server_ok s"
proof (induction rule: server_reach.induct)
  case start
  show ?case by (simp add: init_server_def server_ok_def)
next
  case (reg s i f tys tys' r s')
  then show ?case using server_ok_reg [of s i f tys tys'] by simp
next
  case (unreg s i r s')
  then show ?case using server_ok_unreg [of s i] by simp
qed

lemma map_of_handlers:
  assumes "list_all (\<lambda>(i, w). int_fits 32 i) al" "int_fits 32 i"
  shows "map_of (map (\<lambda>(i, w). (word_of_int i :: i32, w)) al) (word_of_int i) = map_of al i"
  using assms by (induction al) (auto dest: word_of_int_inj)

lemma del_loop_raises:
  assumes "server_ok s" "func_ids s \<noteq> []"
  shows "\<exists>s'. del_loop (length (func_ids s)) 0 s = (Inl (RuntimeError ''dictionary changed size during iteration''), s') \<and>
    alive s' = alive s \<and> refs s' = refs s - 1"
proof -
  obtain i w al where f: "func_ids s = (i, w) # al" using assms(2) by (cases "func_ids s") auto
  have "int_fits 32 i" using assms(1) by (simp add: server_ok_def f)
  then have "parse_int i = Inr (word_of_int i)" by (simp add: parse_int_def)
  then obtain s' where u: "unreg i s = (Inr (), s')" "alive s' = alive s" "refs s' = refs s - 1"
      "func_ids s' = AList.delete i (func_ids s)"
    by (simp add: unreg_def decr_ref_def f)
  have "length (func_ids s') \<noteq> length (func_ids s)"
    using length_delete [of "func_ids s" i] assms(1) by (simp add: u(4) f server_ok_def)
  then have "del_loop (length (func_ids s)) 1 s' = (Inl (RuntimeError ''dictionary changed size during iteration''), s')"
    by (subst del_loop.simps) simp
  then have "del_loop (length (func_ids s)) 0 s = (Inl (RuntimeError ''dictionary changed size during iteration''), s')"
    by (subst del_loop.simps) (simp add: u(1) f)
  then show ?thesis using u by blast
qed

section \<open>Properties of the library\<close>

text \<open>
  (C1) A synchronous call to a registered function: the function gets the argument values the caller passed,
  the caller gets error code 0 and the values it returned, and no marshal object is left behind.
\<close>

theorem sync_call_correct:
  assumes "env_ok E" "list_all ty_ok ts" "list_all ty_ok us" "list_all2 (wt E d) ts vs" "list_all2 (wt E d) us rs"
    and "map_of hs (word_of_int rpc_id) = Some \<lparr>func = f, input_types = map render ts, output_types = map render us\<rparr>"
    and "f vs = Inr out" "returns (length us) out rs"
    and "int_fits 32 rpc_id" "connected c" "val_size (sint (xid_counter c)) \<noteq> 8" "heap_ok h" "\<And>b. concat (pieces b) = b"
    and "write_args (render_env E) d vs (map render ts) [] = Inr req" "length req < 2 ^ 29"
    and "write_args (render_env E) d rs (map render us) [] = Inr body" "length body < 2 ^ 30"
  shows "\<exists>n c'. sync_call (render_env E) junk d (loopback (render_env E) junk d hs pieces)
      rpc_id vs (map render ts) (map render us) c h = ((Inr (0, rs), h \<lparr>next_id := n\<rparr>), c')"
proof -
  let ?S = "render_env E"
  let ?w = "\<lparr>func = f, input_types = map render ts, output_types = map render us\<rparr>"
  obtain bs where "\<And>m. write_args ?S d vs (map render ts) m = Inr (m @ bs)"
      and rd: "\<And>rest. read_args ?S junk d (map render ts) (bs @ rest) = Inr (vs, rest)"
    by (rule args_roundtrip [OF assms(1,2,4), of junk]) blast
  then have req: "bs = req" using assms(14) by simp
  obtain bs' where "\<And>m. write_args ?S d rs (map render us) m = Inr (m @ bs')"
      and rd': "\<And>rest. read_args ?S junk d (map render us) (bs' @ rest) = Inr (rs, rest)"
    by (rule args_roundtrip [OF assms(1,3,5), of junk]) blast
  then have body: "bs' = body" using assms(16) by simp
  have "\<exists>n \<ge> next_id h. serve_request ?S junk d hs (xid_counter c, memcpy_out (word_of_int rpc_id :: i32) @ req) h =
      (Inr (xid_counter c, 0, body), h \<lparr>next_id := n\<rparr>)" if "heap_ok h" for h
    using handler_returns [OF that, of ?S junk d ?w req vs "[]" out rs body] rd [of "[]"] assms(6-8,16)
    by (auto simp: serve_request_def req)
  from sync_call_reply [OF assms(12,10,9,13,11,14,15) this assms(17), of "map render us"] rd' [of "[]"]
  show ?thesis by (auto simp: body)
qed

definition demo_func :: "pyval list \<Rightarrow> pyval res" where
  "demo_func vs = (case vs of [PInt a, PList ys] \<Rightarrow> Inr (PInt (a + int (length ys))) | _ \<Rightarrow> Inl TypeError)"

definition demo_handlers :: handlers where
  "demo_handlers =
     [(7, \<lparr>func = demo_func, input_types = [''rrr::i32'', ''std::vector<rrr::i16>''], output_types = [''rrr::i32'']\<rparr>)]"

definition demo_client :: rclient where
  "demo_client = \<lparr>connected = True, xid_counter = 0, pending = [], futures = []\<rparr>"

lemma demo_write:
  "write_args [] 5 [PInt 40, PList [PInt 1, PInt (- 1)]] [''rrr::i32'', ''std::vector<rrr::i16>''] [] =
     Inr [40, 0, 0, 0, 2, 1, 0, 255, 255]"
  "write_args [] 5 [PInt 42] [''rrr::i32''] [] = Inr [42, 0, 0, 0]"
  by code_simp+

theorem sync_call_correct_witness:
  "\<exists>n c'. sync_call [] 0 5 (loopback [] 0 5 demo_handlers (map (\<lambda>x. [x])))
     7 [PInt 40, PList [PInt 1, PInt (- 1)]] [''rrr::i32'', ''std::vector<rrr::i16>''] [''rrr::i32''] demo_client
     \<lparr>bufs = [], next_id = 1\<rparr> = ((Inr (0, [PInt 42]), \<lparr>bufs = [], next_id = n\<rparr>), c')"
proof -
  let ?ts = "[TPrim I32, TSeq False (TPrim I16)]" and ?vs = "[PInt 40, PList [PInt 1, PInt (- 1)]]"
  have wt: "list_all2 (wt [] 5) ?ts ?vs" "list_all2 (wt [] 5) [TPrim I32] [PInt 42]"
    by (simp_all add: wt_numeral int_fits_def len_ok_def)
  have r: "render_env [] = []" "map render ?ts = [''rrr::i32'', ''std::vector<rrr::i16>'']" "map render [TPrim I32] = [''rrr::i32'']"
    by (simp_all add: render_env_def)
  have "\<exists>n c'. sync_call [] 0 5 (loopback [] 0 5 demo_handlers (map (\<lambda>x. [x])))
     7 ?vs [''rrr::i32'', ''std::vector<rrr::i16>''] [''rrr::i32''] demo_client
     \<lparr>bufs = [], next_id = 1\<rparr> = ((Inr (0, [PInt 42]), \<lparr>bufs = [], next_id = 1\<rparr> \<lparr>next_id := n\<rparr>), c')"
    by (rule sync_call_correct [where f = demo_func and out = "PInt 42", OF _ _ _ wt, unfolded r, OF _ _ _ _ _ _ _ _ _ _ _ demo_write(1) _ demo_write(2)])
      (simp_all add: env_ok_def demo_handlers_def demo_func_def demo_client_def returns_def int_fits_def
        val_size_def heap_ok_def)
  then show ?thesis by simp
qed

text \<open>
  (C31) When the service function raises, the caller gets an error code (\<^verbatim>\<open>ENOSYS\<close> for
  \<^verbatim>\<open>NotImplementedError\<close>, -1 otherwise) and no results, and one empty marshal object stays allocated: the
  reply object is only wrapped, and so only deleted, when the call succeeded.
\<close>

theorem sync_call_raises:
  assumes "env_ok E" "list_all ty_ok ts" "list_all2 (wt E d) ts vs"
    and "map_of hs (word_of_int rpc_id) = Some \<lparr>func = f, input_types = map render ts, output_types = out_types\<rparr>"
    and "f vs = Inl e" "e \<notin> {Abort, Undefined, Hang}"
    and "int_fits 32 rpc_id" "connected c" "val_size (sint (xid_counter c)) \<noteq> 8" "heap_ok h" "\<And>b. concat (pieces b) = b"
    and "write_args (render_env E) d vs (map render ts) [] = Inr req" "length req < 2 ^ 29"
  shows "\<exists>n c'. sync_call (render_env E) junk d (loopback (render_env E) junk d hs pieces)
      rpc_id vs (map render ts) rep_types c h =
    ((Inr (if e = NotImplementedError then ENOSYS else - 1, []), h \<lparr>bufs := bufs h @ [(n, [])], next_id := n + 1\<rparr>), c')"
proof -
  let ?S = "render_env E" and ?ec = "if e = NotImplementedError then ENOSYS else - 1"
  let ?w = "\<lparr>func = f, input_types = map render ts, output_types = out_types\<rparr>"
  obtain bs where "\<And>m. write_args ?S d vs (map render ts) m = Inr (m @ bs)"
      and rd: "\<And>rest. read_args ?S junk d (map render ts) (bs @ rest) = Inr (vs, rest)"
    by (rule args_roundtrip [OF assms(1-3), of junk]) blast
  then have req: "bs = req" using assms(12) by simp
  have "serve_request ?S junk d hs (xid_counter c, memcpy_out (word_of_int rpc_id :: i32) @ req) h' =
      (Inr (xid_counter c, ?ec, []), h')" for h'
    using handler_raises [of ?S junk d ?w req vs "[]" e h'] rd [of "[]"] assms(4-6) by (simp add: serve_request_def req)
  then have "\<exists>n \<ge> next_id h'. serve_request ?S junk d hs (xid_counter c, memcpy_out (word_of_int rpc_id :: i32) @ req) h' =
      (Inr (xid_counter c, ?ec, []), h' \<lparr>next_id := n\<rparr>)" if "heap_ok h'" for h'
    by (intro exI [of _ "next_id h'"]) simp
  from sync_call_reply [OF assms(10,8,7,11,9,12,13) this, of rep_types] obtain n c' where
    n: "next_id h < n" "sync_call ?S junk d (loopback ?S junk d hs pieces) rpc_id vs (map render ts) rep_types c h =
      ((Inr (?ec, []), h \<lparr>bufs := bufs h @ [(n - 1, [])], next_id := n\<rparr>), c')"
    by (cases "e = NotImplementedError") auto
  show ?thesis using n(1) by (intro exI [of _ "n - 1"] exI [of _ c']) (simp add: n(2))
qed

definition demo_stub :: handlers where
  "demo_stub = [(7, \<lparr>func = \<lambda>vs. Inl NotImplementedError, input_types = [''rrr::i32''], output_types = []\<rparr>)]"

theorem sync_call_raises_witness:
  "\<exists>n c'. sync_call [] 0 5 (loopback [] 0 5 demo_stub (\<lambda>b. [b])) 7 [PInt 42] [''rrr::i32''] [] demo_client
     \<lparr>bufs = [], next_id = 1\<rparr> = ((Inr (ENOSYS, []), \<lparr>bufs = [(n, [])], next_id = n + 1\<rparr>), c')"
proof -
  have wt: "list_all2 (wt [] 5) [TPrim I32] [PInt 42]" by (simp add: wt_numeral int_fits_def)
  have r: "render_env [] = []" "map render [TPrim I32] = [''rrr::i32'']" by (simp_all add: render_env_def)
  have "\<exists>n c'. sync_call [] 0 5 (loopback [] 0 5 demo_stub (\<lambda>b. [b])) 7 [PInt 42] [''rrr::i32''] [] demo_client
     \<lparr>bufs = [], next_id = 1\<rparr> = ((Inr (if NotImplementedError = NotImplementedError then ENOSYS else - 1, []),
       \<lparr>bufs = [], next_id = 1\<rparr> \<lparr>bufs := bufs \<lparr>bufs = [], next_id = 1\<rparr> @ [(n, [])], next_id := n + 1\<rparr>), c')"
    by (rule sync_call_raises [where f = "\<lambda>vs. Inl NotImplementedError" and out_types = "[]", OF _ _ wt, unfolded r,
          OF _ _ _ _ _ _ _ _ _ _ demo_write(2)])
      (simp_all add: env_ok_def demo_stub_def demo_client_def int_fits_def val_size_def heap_ok_def)
  then show ?thesis by simp
qed



text \<open>
  (C40) A reply to a transaction that is not pending loses the framing: its header is skipped and its body is read as if it were
  the next packet, so that whatever follows is taken for something else.
\<close>

theorem stray_reply:
  assumes "xid \<notin> set (pending c)" "reply_ok (xid, ec, m)" "length (reply_packet (xid, ec, m) @ b) < 2 ^ 62"
  shows "handle_replies junk c (reply_packet (xid, ec, m) @ b) = handle_replies junk c (m @ b)"
  using assms(1) reply_head_packet [OF assms(2,3), of junk]
  by (simp add: handle_replies.simps [of junk c "reply_packet (xid, ec, m) @ b"] handle_one_def)

theorem stray_reply_witness:
  "handle_replies 0 \<lparr>connected = True, xid_counter = 3, pending = [0], futures = []\<rparr> (reply_packet (7, 0, [9, 0, 0, 0]) @ []) =
   Inr (\<lparr>connected = True, xid_counter = 3, pending = [0], futures = []\<rparr>, [9, 0, 0, 0])"
proof -
  let ?c = "\<lparr>connected = True, xid_counter = 3, pending = [0], futures = []\<rparr> :: rclient"
  have "handle_replies 0 ?c (reply_packet (7, 0, [9, 0, 0, 0]) @ []) = handle_replies 0 ?c ([9, 0, 0, 0] @ [])"
    by (rule stray_reply) (simp_all add: reply_ok_def val_size_def reply_packet_def packet_def v64_length dump_i32_length)
  moreover have "le_join [9, 0, 0, 0] = (9 :: i32)" "scast (9 :: i32) = (9 :: 64 word)" by simp_all
  then have "packet_ready [9, 0, 0, 0] = None" by (simp add: packet_ready_def)
  ultimately show ?thesis by (simp add: handle_replies.simps [of 0 ?c] handle_one_def reply_head_def)
qed

text \<open>
  (C21) Whatever registrations and removals a server has seen, failed ones included: the C++ handler table
  answers exactly the procedure numbers of the Python dictionary, with the same functions, and one
  reference is held for each.
\<close>

theorem server_tables_agree:
  assumes "server_reach s" "int_fits 32 i"
  shows "map_of (reg_handlers s) (word_of_int i) = map_of (func_ids s) i \<and> refs s = length (func_ids s)"
  using server_reach_ok [OF assms(1)] map_of_handlers [OF _ assms(2), of "func_ids s"] by (simp add: server_ok_def)

theorem server_tables_agree_witness:
  "map_of (reg_handlers (snd (reg_func 7 demo_func [] [] init_server))) (word_of_int 7) =
     map_of (func_ids (snd (reg_func 7 demo_func [] [] init_server))) 7 \<and>
   refs (snd (reg_func 7 demo_func [] [] init_server)) = length (func_ids (snd (reg_func 7 demo_func [] [] init_server)))"
proof -
  have "server_reach (snd (reg_func 7 demo_func [] [] init_server))"
    by (rule server_reach.reg [OF server_reach.start surjective_pairing])
  then show ?thesis by (rule server_tables_agree) (simp add: int_fits_def)
qed

text \<open>
  (C33) Destroying a server with a registered function fails: the first removal changes the dictionary that
  the loop iterates over, so \<^verbatim>\<open>__del__\<close> raises and the C++ server is never deleted.
\<close>

theorem server_del_fails:
  assumes "server_reach s" "func_ids s \<noteq> []"
  shows "fst (server_del s) = Inl (RuntimeError ''dictionary changed size during iteration'') \<and>
    alive (snd (server_del s)) = alive s \<and> refs (snd (server_del s)) = refs s - 1"
  using del_loop_raises [OF server_reach_ok [OF assms(1)] assms(2)] by (auto simp: server_del_def)

theorem server_del_fails_witness:
  "fst (server_del (snd (reg_func 7 demo_func [] [] init_server))) =
     Inl (RuntimeError ''dictionary changed size during iteration'')"
proof -
  have "server_reach (snd (reg_func 7 demo_func [] [] init_server))"
    by (rule server_reach.reg [OF server_reach.start surjective_pairing])
  moreover have "func_ids (snd (reg_func 7 demo_func [] [] init_server)) \<noteq> []"
    by (simp add: reg_func_def server_reg_def init_server_def parse_int_def int_fits_def Let_def)
  ultimately show ?thesis using server_del_fails by blast
qed

text \<open>
  (C32) A future that was waited for with a limit that ran out stays failed: from then on, whatever happens to
  the client, \<^verbatim>\<open>error_code\<close> is \<^verbatim>\<open>ETIMEDOUT\<close>, \<^verbatim>\<open>result\<close> is \<^verbatim>\<open>None\<close> and the Python future does not change.  This holds also
  for the client after the late reply came in, which does replace the code stored in the C++ future but does not
  make that future ready.
\<close>

theorem timed_out_for_good:
  assumes "fid fu = xid" "\<not> wait_ok fu" "future_of c xid = new_future"
    and "future_wait S junk d True fu c h = ((r, h'), fu', c')"
  shows "r = Inr (Some ETIMEDOUT) \<and>
    future_error_code S junk d fu' c'' h'' = ((Inr ETIMEDOUT, h''), fu', c'') \<and>
    future_result S junk d fu' c'' h'' = ((Inr PNone, h''), fu', c'') \<and>
    future_of (deliver c' (xid, ec, m)) xid = \<lparr>fu_ready = False, fu_timed_out = True, fu_error = ec, fu_reply = m\<rparr>"
proof -
  let ?t = "\<lparr>fu_ready = False, fu_timed_out = True, fu_error = ETIMEDOUT, fu_reply = []\<rparr>"
  have t: "timed_wait (future_of c (fid fu)) = ?t" by (simp add: assms(1,3) timed_wait_def new_future_def)
  have w: "r = Inr (Some ETIMEDOUT)" "wait_ok fu'" "err_code fu' = Some ETIMEDOUT" "rep fu' = Some PNone" "c' = take_reply xid ?t c"
    using assms(2,4) unfolding future_wait_def Let_def
    by (auto simp: t [unfolded assms(1)] assms(1) await_def read_reply_def rep_of_def split: prod.splits)
  have "future_of c' xid = ?t" by (simp add: w(5) take_reply_def future_of_def update_conv)
  then have "future_of (deliver c' (xid, ec, m)) xid = \<lparr>fu_ready = False, fu_timed_out = True, fu_error = ec, fu_reply = m\<rparr>"
    by (simp add: deliver_def future_of_def [of "_ \<lparr>pending := _, futures := _\<rparr>"] update_conv notify_ready_def Let_def)
  then show ?thesis using w by (simp add: future_wait_def future_error_code_def future_result_def)
qed

theorem timed_out_for_good_witness:
  "\<exists>h' fu' c'. future_wait [] 0 5 True (py_future 0 [''rrr::i32'']) \<lparr>connected = True, xid_counter = 1, pending = [0], futures = []\<rparr>
      \<lparr>bufs = [], next_id = 1\<rparr> = ((Inr (Some ETIMEDOUT), h'), fu', c') \<and>
    future_error_code [] 0 5 fu' (deliver c' (0, 0, [1, 0, 0, 0])) h' = ((Inr ETIMEDOUT, h'), fu', deliver c' (0, 0, [1, 0, 0, 0])) \<and>
    future_result [] 0 5 fu' (deliver c' (0, 0, [1, 0, 0, 0])) h' = ((Inr PNone, h'), fu', deliver c' (0, 0, [1, 0, 0, 0]))"
proof -
  let ?c = "\<lparr>connected = True, xid_counter = 1, pending = [0], futures = []\<rparr> :: rclient"
  obtain r h' fu' c' where w: "future_wait [] 0 5 True (py_future 0 [''rrr::i32'']) ?c \<lparr>bufs = [], next_id = 1\<rparr> = ((r, h'), fu', c')"
    by (metis surj_pair)
  have "fid (py_future 0 [''rrr::i32'']) = 0" "\<not> wait_ok (py_future 0 [''rrr::i32''])" "future_of ?c 0 = new_future"
    by (simp_all add: py_future_def future_of_def)
  from timed_out_for_good [OF this w] w show ?thesis by blast
qed

end
