(* ===== verification/Py_Float.thy ===== *)
theory Py_Float
  imports Py_Prelude Complex_Main "HOL-Library.Log_Nat"
begin

text \<open>
  Python floats: IEEE double-precision numbers.  A finite double is its exact value, a rational
  number; an arithmetic operation is the exact operation followed by \<open>rnd\<close>, the rounding to the nearest
  number with a 53-bit significand (ties to the even significand, gradual underflow below \<open>2 ^ -1022\<close>).
  Infinities and NaN are left out: a result beyond the largest double is not in the model.
\<close>

section \<open>Rounding to an integer\<close>

text \<open>\<^verbatim>\<open>round(x)\<close>: to the nearest integer, a half to the even one.\<close>

definition py_round :: "rat \<Rightarrow> int" where
  "py_round x =
     (let f = \<lfloor>x\<rfloor>; d = x - of_int f in
      if d < 1 / 2 then f else if 1 / 2 < d then f + 1 else if even f then f else f + 1)"

lemma py_round_of_int [simp]: "py_round (of_int i) = i"
  by (simp add: py_round_def)

lemma py_round_bounds: "\<lfloor>x\<rfloor> \<le> py_round x \<and> py_round x \<le> \<lfloor>x\<rfloor> + 1"
  by (simp add: py_round_def Let_def)

lemma py_round_mono:
  assumes "x \<le> y"
  shows "py_round x \<le> py_round y"
proof (cases "\<lfloor>x\<rfloor> = \<lfloor>y\<rfloor>")
  case True
  then have "x - of_int \<lfloor>x\<rfloor> \<le> y - of_int \<lfloor>x\<rfloor>" using assms by simp
  then show ?thesis by (simp add: py_round_def Let_def True [symmetric])
next
  case False
  then have "\<lfloor>x\<rfloor> + 1 \<le> \<lfloor>y\<rfloor>" using floor_mono [OF assms] by simp
  then show ?thesis using py_round_bounds [of x] py_round_bounds [of y] by linarith
qed

text \<open>The rounding error is at most a half.\<close>

lemma py_round_error: "\<bar>of_int (py_round x) - x\<bar> \<le> 1 / 2"
proof -
  define d where "d = x - of_int \<lfloor>x\<rfloor>"
  have "0 \<le> d" "d < 1" unfolding d_def by linarith+
  then show ?thesis by (auto simp: py_round_def Let_def d_def [symmetric]) (auto simp: d_def)
qed

section \<open>The binary exponent\<close>

definition pow2 :: "int \<Rightarrow> rat" where
  "pow2 k = (if 0 \<le> k then 2 ^ nat k else 1 / 2 ^ nat (- k))"

lemma pow2_pos [simp]: "0 < pow2 k"
  by (simp add: pow2_def)

lemma pow2_powi: "pow2 k = 2 powi k"
  by (simp add: pow2_def power_int_def inverse_eq_divide power_one_over)

lemma pow2_add: "pow2 (a + b) = pow2 a * pow2 b"
  by (simp add: pow2_powi power_int_add)

lemma pow2_diff: "pow2 (a - b) = pow2 a / pow2 b"
proof -
  have "pow2 a = pow2 (a - b) * pow2 b" using pow2_add [of "a - b" b] by simp
  moreover have "pow2 b \<noteq> 0" using pow2_pos [of b] by linarith
  ultimately show ?thesis by (simp add: field_simps)
qed

lemma pow2_mono: "a \<le> b \<Longrightarrow> pow2 a \<le> pow2 b"
  by (simp add: pow2_powi power_int_increasing)

lemma pow2_0 [simp]: "pow2 0 = 1"
  by (simp add: pow2_def)

lemma pow2_nat: "pow2 (int n) = 2 ^ n"
  by (simp add: pow2_def)

text \<open>\<open>exponent x\<close> is the \<open>e\<close> with \<open>2 ^ e \<le> x < 2 ^ (e + 1)\<close>, for positive \<open>x\<close>.\<close>

definition exponent :: "rat \<Rightarrow> int" where
  "exponent x =
     (let (p, q) = quotient_of x; e = int (floorlog 2 (nat p)) - int (floorlog 2 (nat q)) in
      if pow2 e \<le> x then e else e - 1)"

lemma floorlog_rat:
  assumes "0 < n"
  shows "2 ^ (floorlog 2 n - 1) \<le> (of_nat n :: rat)" "of_nat n < (2 :: rat) ^ floorlog 2 n" "1 \<le> floorlog 2 n"
proof -
  have "2 ^ (floorlog 2 n - 1) \<le> n \<and> n < 2 ^ floorlog 2 n" by (rule floorlog_bounds) (use assms in simp_all)
  then have "of_nat (2 ^ (floorlog 2 n - 1)) \<le> (of_nat n :: rat)" "of_nat n < (of_nat (2 ^ floorlog 2 n) :: rat)"
    by (simp_all only: of_nat_le_iff of_nat_less_iff)
  then show "2 ^ (floorlog 2 n - 1) \<le> (of_nat n :: rat)" "of_nat n < (2 :: rat) ^ floorlog 2 n" by simp_all
  show "1 \<le> floorlog 2 n" using assms by (simp add: floorlog_def)
qed

lemma exponent_bounds:
  assumes "0 < x"
  shows "pow2 (exponent x) \<le> x" "x < pow2 (exponent x + 1)"
proof -
  obtain p q where pq: "quotient_of x = (p, q)" by force
  have q: "0 < q" using quotient_of_denom_pos [OF pq] .
  have x': "x = of_int p / of_int q" using quotient_of_div [OF pq] .
  then have p: "0 < p" using assms q by (simp add: zero_less_divide_iff)
  have x: "x = of_nat (nat p) / of_nat (nat q)" using x' p q by simp
  define a where "a = floorlog 2 (nat p)"
  define b where "b = floorlog 2 (nat q)"
  have pb: "2 ^ (a - 1) \<le> (of_nat (nat p) :: rat)" "of_nat (nat p) < (2::rat) ^ a" "1 \<le> a"
    unfolding a_def using p by (intro floorlog_rat; simp)+
  have qb: "2 ^ (b - 1) \<le> (of_nat (nat q) :: rat)" "of_nat (nat q) < (2::rat) ^ b" "1 \<le> b"
    unfolding b_def using q by (intro floorlog_rat; simp)+
  define e where "e = int a - int b"
  have pe: "pow2 a / pow2 (int b) = pow2 e" "pow2 (int a - 1) / pow2 b = pow2 (e - 1)" "pow2 a / pow2 (int b - 1) = pow2 (e + 1)"
    by (simp_all only: pow2_diff [symmetric] e_def) (simp_all add: algebra_simps)
  have "x < pow2 (e + 1)"
  proof -
    have "x < pow2 a / pow2 (int b - 1)"
      unfolding x using pb qb q p pow2_nat [of a] pow2_nat [of "b - 1"]
      by (intro frac_less) (simp_all add: of_nat_diff)
    then show ?thesis unfolding pe .
  qed
  moreover have "pow2 (e - 1) \<le> x"
  proof -
    have "pow2 (int a - 1) / pow2 b \<le> x"
      unfolding x using pb qb q p pow2_nat [of "a - 1"] pow2_nat [of b]
      by (intro frac_le) (simp_all add: of_nat_diff)
    then show ?thesis unfolding pe .
  qed
  moreover have "exponent x = (if pow2 e \<le> x then e else e - 1)"
    by (simp add: exponent_def pq e_def a_def b_def)
  ultimately show "pow2 (exponent x) \<le> x" "x < pow2 (exponent x + 1)" by (auto split: if_splits)
qed

lemma exponent_mono:
  assumes "0 < x" "x \<le> y"
  shows "exponent x \<le> exponent y"
proof (rule ccontr)
  assume "\<not> exponent x \<le> exponent y"
  then have "exponent y + 1 \<le> exponent x" by simp
  then have "pow2 (exponent y + 1) \<le> pow2 (exponent x)" by (rule pow2_mono)
  then have "pow2 (exponent y + 1) \<le> x" using exponent_bounds(1) [OF assms(1)] by (rule order_trans)
  then show False using exponent_bounds(2) [of y] assms by linarith
qed

section \<open>Rounding to a double\<close>

text \<open>The weight of the last bit of the significand of the numbers near \<open>x\<close>.\<close>

definition ulp :: "rat \<Rightarrow> rat" where
  "ulp x = pow2 (max (exponent x) (- 1022) - 52)"

definition rnd :: "rat \<Rightarrow> rat" where
  "rnd x =
     (if x = 0 then 0
      else if 0 < x then of_int (py_round (x / ulp x)) * ulp x
      else - (of_int (py_round (- x / ulp (- x))) * ulp (- x)))"

lemma ulp_pos [simp]: "0 < ulp x"
  by (simp add: ulp_def)

lemma rnd_0 [simp]: "rnd 0 = 0"
  by (simp add: rnd_def)

lemma rnd_minus: "rnd (- x) = - rnd x"
  by (simp add: rnd_def)

lemma rnd_nonneg: "0 \<le> x \<Longrightarrow> 0 \<le> rnd x"
proof -
  assume "0 \<le> x"
  then have "0 \<le> \<lfloor>x / ulp x\<rfloor>" by (simp add: less_imp_le)
  then have "0 \<le> py_round (x / ulp x)" using py_round_bounds [of "x / ulp x"] by linarith
  then show ?thesis using \<open>0 \<le> x\<close> by (simp add: rnd_def less_imp_le)
qed

text \<open>A number that is a multiple of its last bit is a double; it rounds to itself.\<close>

lemma rnd_exact:
  assumes "0 < x" "x = of_int k * ulp x"
  shows "rnd x = x"
proof -
  have "x / ulp x = of_int k" using assms(2) ulp_pos [of x] by (metis less_irrefl nonzero_mult_div_cancel_right)
  then show ?thesis using assms by (simp add: rnd_def)
qed

lemma exponent_le:
  assumes "0 < x" "x < pow2 (k + 1)"
  shows "exponent x \<le> k"
proof (rule ccontr)
  assume "\<not> exponent x \<le> k"
  then have "pow2 (k + 1) \<le> pow2 (exponent x)" by (intro pow2_mono) simp
  then show False using exponent_bounds(1) [OF assms(1)] assms(2) by linarith
qed

lemma rnd_of_nat:
  assumes "n < 2 ^ 53"
  shows "rnd (of_nat n) = of_nat n"
proof (cases "n = 0")
  case False
  have "(of_nat n :: rat) < of_nat (2 ^ 53)" using assms by (simp only: of_nat_less_iff)
  then have "exponent (of_nat n) \<le> 52"
    using False by (intro exponent_le) (simp_all add: pow2_def)
  then have "pow2 (52 - max (exponent (of_nat n)) (- 1022)) = of_nat (2 ^ nat (52 - max (exponent (of_nat n)) (- 1022)))"
    by (simp add: pow2_def)
  moreover have "pow2 (52 - max (exponent (of_nat n)) (- 1022)) * ulp (of_nat n) = 1"
    unfolding ulp_def pow2_add [symmetric] by simp
  ultimately have "of_nat n = of_int (int n * 2 ^ nat (52 - max (exponent (of_nat n)) (- 1022))) * ulp (of_nat n)"
    by (simp add: mult.assoc)
  then show ?thesis using False by (intro rnd_exact [of _ "int n * 2 ^ nat (52 - max (exponent (of_nat n)) (- 1022))"]) simp_all
qed simp

text \<open>Rounding never moves a number across a power of two.\<close>

lemma rnd_between:
  assumes "0 < x" "max (exponent x) (- 1022) = e"
  shows "rnd x \<le> pow2 (e + 1)" "exponent x = e \<Longrightarrow> pow2 e \<le> rnd x"
proof -
  have u: "ulp x = pow2 (e - 52)" using assms(2) by (simp add: ulp_def)
  have e: "pow2 (e + 1) = of_int (2 ^ 53) * pow2 (e - 52)" "pow2 e = of_int (2 ^ 52) * pow2 (e - 52)"
    using pow2_add [of 53 "e - 52"] pow2_add [of 52 "e - 52"]
    by (simp_all only: pow2_def [of 52] pow2_def [of 53]) (simp_all add: add.commute)
  have "x < pow2 (e + 1)"
    using exponent_bounds(2) [OF assms(1)] pow2_mono [of "exponent x + 1" "e + 1"] assms(2) by auto
  then have "x / ulp x \<le> of_int (2 ^ 53)" unfolding e u by (simp add: pos_divide_le_eq)
  then have "py_round (x / ulp x) \<le> 2 ^ 53" using py_round_mono py_round_of_int by metis
  then show "rnd x \<le> pow2 (e + 1)"
    unfolding e using assms(1) u by (simp add: rnd_def)
  assume "exponent x = e"
  then have "pow2 e \<le> x" using exponent_bounds(1) [OF assms(1)] by simp
  then have "of_int (2 ^ 52) \<le> x / ulp x" unfolding e u by (simp add: pos_le_divide_eq)
  then have "2 ^ 52 \<le> py_round (x / ulp x)" using py_round_mono py_round_of_int by metis
  then show "pow2 e \<le> rnd x"
    unfolding e using assms(1) u by (simp add: rnd_def)
qed

lemma rnd_mono_pos:
  assumes "0 < x" "x \<le> y"
  shows "rnd x \<le> rnd y"
proof -
  define e where "e = max (exponent x) (- 1022)"
  define f where "f = max (exponent y) (- 1022)"
  have "e \<le> f" using exponent_mono [OF assms] by (auto simp: e_def f_def)
  show ?thesis
  proof (cases "e = f")
    case True
    then have u: "ulp x = ulp y" by (simp add: ulp_def e_def f_def)
    have "py_round (x / ulp y) \<le> py_round (y / ulp y)"
      using assms by (intro py_round_mono divide_right_mono) (simp_all add: less_imp_le)
    then show ?thesis using assms u by (simp add: rnd_def)
  next
    case False
    then have "e + 1 \<le> f" and f: "exponent y = f" using \<open>e \<le> f\<close> by (auto simp: e_def f_def)
    have "rnd x \<le> pow2 (e + 1)" by (rule rnd_between(1)) (use assms in \<open>simp_all add: e_def\<close>)
    also have "\<dots> \<le> pow2 f" using \<open>e + 1 \<le> f\<close> by (rule pow2_mono)
    also have "\<dots> \<le> rnd y" by (rule rnd_between(2)) (use assms f in \<open>simp_all add: f_def\<close>)
    finally show ?thesis .
  qed
qed

lemma rnd_mono:
  assumes "x \<le> y"
  shows "rnd x \<le> rnd y"
proof -
  consider "0 < x" | "x \<le> 0" "0 \<le> y" | "y < 0" by linarith
  then show ?thesis
  proof cases
    case 1
    then show ?thesis using assms by (rule rnd_mono_pos)
  next
    case 2
    then show ?thesis using rnd_nonneg [of y] rnd_nonneg [of "- x"] by (simp add: rnd_minus)
  next
    case 3
    then show ?thesis using rnd_mono_pos [of "- y" "- x"] assms by (simp add: rnd_minus)
  qed
qed

text \<open>The relative error of a rounding in the normal range.\<close>

lemma rnd_error:
  assumes "pow2 (- 1022) \<le> x"
  shows "\<bar>rnd x - x\<bar> \<le> x / 2 ^ 53"
proof -
  have x: "0 < x" using assms pow2_pos [of "- 1022"] by linarith
  have "exponent (pow2 (- 1022)) \<le> exponent x" by (rule exponent_mono) (use assms in simp_all)
  moreover have "- 1022 \<le> exponent (pow2 (- 1022))"
  proof (rule ccontr)
    assume "\<not> - 1022 \<le> exponent (pow2 (- 1022))"
    then have "pow2 (exponent (pow2 (- 1022)) + 1) \<le> pow2 (- 1022)" by (intro pow2_mono) simp
    then show False using exponent_bounds(2) [of "pow2 (- 1022)"] by simp
  qed
  ultimately have u: "ulp x = pow2 (exponent x - 52)" by (simp add: ulp_def)
  have "\<bar>of_int (py_round (x / ulp x)) - x / ulp x\<bar> * ulp x \<le> 1 / 2 * ulp x"
    using py_round_error by (intro mult_right_mono) (simp_all add: less_imp_le)
  also have "\<bar>of_int (py_round (x / ulp x)) - x / ulp x\<bar> * ulp x = \<bar>rnd x - x\<bar>"
  proof -
    have "\<bar>of_int (py_round (x / ulp x)) - x / ulp x\<bar> * ulp x = \<bar>(of_int (py_round (x / ulp x)) - x / ulp x) * ulp x\<bar>"
      by (simp only: abs_mult abs_of_pos [OF ulp_pos])
    also have "(of_int (py_round (x / ulp x)) - x / ulp x) * ulp x = rnd x - x"
      using x less_imp_neq [OF ulp_pos, of x] by (simp add: rnd_def left_diff_distrib)
    finally show ?thesis .
  qed
  also have "1 / 2 * ulp x = pow2 (exponent x) / 2 ^ 53"
    unfolding u pow2_diff by (simp add: pow2_def [of 52])
  also have "\<dots> \<le> x / 2 ^ 53" using exponent_bounds(1) [OF x] by (intro divide_right_mono) simp_all
  finally show ?thesis .
qed

lemma rnd_pos:
  assumes "pow2 (- 1022) \<le> x"
  shows "0 < rnd x"
proof -
  have x: "0 < x" using assms pow2_pos [of "- 1022"] by linarith
  then have "x / 2 ^ 53 < x" by simp
  then show ?thesis using rnd_error [OF assms] by linarith
qed

lemma pow2_small: "pow2 (- 1022) \<le> 1 / 2 ^ 20"
  using pow2_mono [of "- 1022" "- 20"] by (simp add: pow2_def)

section \<open>Arithmetic\<close>

abbreviation fadd :: "rat \<Rightarrow> rat \<Rightarrow> rat" where
  "fadd x y \<equiv> rnd (x + y)"

abbreviation fsub :: "rat \<Rightarrow> rat \<Rightarrow> rat" where
  "fsub x y \<equiv> rnd (x - y)"

abbreviation fmul :: "rat \<Rightarrow> rat \<Rightarrow> rat" where
  "fmul x y \<equiv> rnd (x * y)"

text \<open>Division, of two floats or of two integers; the quotient is rounded once.\<close>

definition fdiv :: "rat \<Rightarrow> rat \<Rightarrow> rat res" where
  "fdiv x y = (if y = 0 then Inl ZeroDivisionError else Inr (rnd (x / y)))"

text \<open>The double a decimal literal denotes, and an integer used as a float.\<close>

abbreviation flit :: "rat \<Rightarrow> rat" where
  "flit x \<equiv> rnd x"

abbreviation float_of :: "int \<Rightarrow> rat" where
  "float_of i \<equiv> rnd (of_int i)"

text \<open>\<^verbatim>\<open>round(x, 2)\<close>: the double nearest to the decimal with two places nearest to \<open>x\<close>.\<close>

definition py_round2 :: "rat \<Rightarrow> rat" where
  "py_round2 x = rnd (of_int (py_round (x * 100)) / 100)"

text \<open>\<^verbatim>\<open>sum\<close> over a list of floats adds from the left.\<close>

definition fsum :: "rat list \<Rightarrow> rat" where
  "fsum xs = foldl fadd 0 xs"

lemma fdiv_Inr [simp]: "y \<noteq> 0 \<Longrightarrow> fdiv x y = Inr (rnd (x / y))"
  by (simp add: fdiv_def)

lemma rnd_of_int:
  assumes "\<bar>i\<bar> < 2 ^ 53"
  shows "rnd (of_int i) = of_int i"
proof (cases "0 \<le> i")
  case True
  then show ?thesis using rnd_of_nat [of "nat i"] assms by (simp add: nat_less_iff)
next
  case False
  then show ?thesis using rnd_of_nat [of "nat (- i)"] assms by (simp add: nat_less_iff rnd_minus)
qed

lemma rnd_1 [simp]: "rnd 1 = 1"
  using rnd_of_nat [of 1] by simp

lemma rnd_numeral:
  assumes "numeral n < (2 ^ 53 :: nat)"
  shows "rnd (numeral n) = numeral n"
  using rnd_of_nat [OF assms] by simp

text \<open>Computing a rounding from the exponent and the significand of the result.\<close>

lemma exponent_eqI:
  assumes "pow2 e \<le> x" "x < pow2 (e + 1)"
  shows "exponent x = e"
proof -
  have "0 < x" using assms(1) pow2_pos [of e] by linarith
  moreover have "e \<le> exponent x"
  proof (rule ccontr)
    assume "\<not> e \<le> exponent x"
    then have "pow2 (exponent x + 1) \<le> pow2 e" by (intro pow2_mono) simp
    then show False using exponent_bounds(2) [OF \<open>0 < x\<close>] assms(1) by linarith
  qed
  ultimately show ?thesis using exponent_le [OF _ assms(2)] by simp
qed

lemma rnd_eqI:
  assumes "pow2 e \<le> x" "x < pow2 (e + 1)" "- 1022 \<le> e"
    and "\<bar>x - of_int k * pow2 (e - 52)\<bar> < pow2 (e - 53)"
  shows "rnd x = of_int k * pow2 (e - 52)"
proof -
  have x: "0 < x" using assms(1) pow2_pos [of e] by linarith
  have u: "ulp x = pow2 (e - 52)" using exponent_eqI [OF assms(1,2)] assms(3) by (simp add: ulp_def)
  have p: "pow2 (e - 52) \<noteq> 0" using pow2_pos [of "e - 52"] by linarith
  have h: "pow2 (e - 53) = 1 / 2 * pow2 (e - 52)" using pow2_diff [of "e - 52" 1] by (simp add: pow2_def [of 1])
  define r where "r = x / pow2 (e - 52)"
  have "x = r * pow2 (e - 52)" using p by (simp add: r_def)
  then have "\<bar>(r - of_int k) * pow2 (e - 52)\<bar> < 1 / 2 * pow2 (e - 52)" using assms(4) h by (simp add: left_diff_distrib)
  then have "\<bar>r - of_int k\<bar> < 1 / 2" by (simp only: abs_mult abs_of_pos [OF pow2_pos]) simp
  then have "py_round r = k" using py_round_error [of r] by linarith
  then show ?thesis using x u by (simp add: rnd_def r_def)
qed

end
