(* ===== verification/Run_Txn.thy ===== *)
theory Run_Txn
  imports Py_Float "HOL-Library.Multiset"
begin

text \<open>
  Class \<^verbatim>\<open>TxnInfo\<close> of \<^verbatim>\<open>run.py\<close>: the statistics the benchmark controller keeps for one transaction type.
  Every heartbeat of the controller clears the running totals, adds what each client reports, and asks
  for the rows of the progress tables; between 10 and 90 per cent of the run the samples also go into
  the \<^verbatim>\<open>mid_\<close> fields, from which \<^verbatim>\<open>print_mid\<close> makes the final report.
\<close>

section \<open>Constants of the module\<close>

definition g_percentage :: "rat list" where
  "g_percentage = map flit [1 / 2, 9 / 10, 99 / 100, 999 / 1000]"

definition g_max_latency :: rat where
  "g_max_latency = flit (999999 / 10)"

definition g_max_try :: rat where
  "g_max_try = flit (999999 / 10)"

definition NO_VALUE :: rat where
  "NO_VALUE = flit (99999999 / 100)"

section \<open>The object\<close>

text \<open>A cell of a table row: a name, a count, a float, or a share printed as a percentage.\<close>

datatype cell = CStr string | CInt int | CFloat rat | CPct rat

record txn_info =
  txn_type :: int
  start_txn :: int
  pre_start_txn :: int
  total_txn :: int
  pre_total_txn :: int
  total_try :: int
  pre_total_try :: int
  commit_txn :: int
  pre_commit_txn :: int
  txn_name :: string
  max_data :: "cell list"
  max_interval :: rat
  interest :: bool
  last_interval_start :: int
  this_latencies :: "rat list"
  last_latencies :: "rat list"
  attempt_latencies :: "rat list"
  all_latencies :: "rat list"
  n_try :: "int list"
  min_interval :: rat
  update_latency :: bool
  mid_retry_exhausted :: int
  mid_status :: int
  mid_pre_start_txn :: int
  mid_start_txn :: int
  mid_pre_total_txn :: int
  mid_total_txn :: int
  mid_pre_total_try :: int
  mid_total_try :: int
  mid_pre_commit_txn :: int
  mid_commit_txn :: int
  mid_time :: rat
  mid_latencies :: "rat list"
  mid_all_latencies :: "rat list"
  mid_attempt_latencies :: "rat list"
  mid_n_try :: "int list"

definition new_txn_info :: "int \<Rightarrow> string \<Rightarrow> bool \<Rightarrow> txn_info" where
  "new_txn_info ty name intr =
     \<lparr>txn_type = ty, start_txn = 0, pre_start_txn = 0, total_txn = 0, pre_total_txn = 0, total_try = 0, pre_total_try = 0,
      commit_txn = 0, pre_commit_txn = 0, txn_name = name, max_data = [], max_interval = 0, interest = intr,
      last_interval_start = 0, this_latencies = [], last_latencies = [], attempt_latencies = [], all_latencies = [], n_try = [],
      min_interval = 0, update_latency = False, mid_retry_exhausted = 0, mid_status = 0,
      mid_pre_start_txn = 0, mid_start_txn = 0, mid_pre_total_txn = 0, mid_total_txn = 0,
      mid_pre_total_try = 0, mid_total_try = 0, mid_pre_commit_txn = 0, mid_commit_txn = 0, mid_time = 0,
      mid_latencies = [], mid_all_latencies = [], mid_attempt_latencies = [], mid_n_try = []\<rparr>"

definition set_mid_status :: "txn_info \<Rightarrow> txn_info" where
  "set_mid_status t = t \<lparr>mid_status := mid_status t + 1\<rparr>"

definition clear :: "txn_info \<Rightarrow> txn_info" where
  "clear t =
     (let t = t \<lparr>start_txn := 0, total_txn := 0, total_try := 0, commit_txn := 0, mid_retry_exhausted := 0,
                 this_latencies := [], min_interval := g_max_latency, attempt_latencies := [], n_try := []\<rparr>
      in if mid_status t = 0 then
           t \<lparr>mid_pre_start_txn := 0, mid_pre_total_txn := 0, mid_pre_total_try := 0, mid_pre_commit_txn := 0\<rparr>
         else if mid_status t = 1 then
           t \<lparr>mid_start_txn := 0, mid_total_txn := 0, mid_total_try := 0, mid_commit_txn := 0\<rparr>
         else t)"

text \<open>What a client reports about one transaction type.\<close>

record txn_res =
  r_start :: int
  r_total :: int
  r_try :: int
  r_commit :: int
  r_this_latency :: "rat list"
  r_last_latency :: "rat list"
  r_interval_latency :: "rat list"
  r_attempt_latency :: "rat list"
  r_num_try :: "int list"
  r_num_exhausted :: int

definition push_res :: "txn_res \<Rightarrow> rat \<Rightarrow> txn_info \<Rightarrow> txn_info" where
  "push_res r interval_time t =
     (let t = t \<lparr>start_txn := start_txn t + r_start r, total_txn := total_txn t + r_total r,
                 total_try := total_try t + r_try r, commit_txn := commit_txn t + r_commit r\<rparr>;
          t = (if interval_time < min_interval t then t \<lparr>min_interval := interval_time\<rparr> else t)
      in if mid_status t = 0 then
           t \<lparr>mid_pre_start_txn := mid_pre_start_txn t + r_start r,
              mid_pre_total_txn := mid_pre_total_txn t + r_total r,
              mid_pre_total_try := mid_pre_total_try t + r_try r,
              mid_pre_commit_txn := mid_pre_commit_txn t + r_commit r\<rparr>
         else if mid_status t = 1 then
           (let t = t \<lparr>mid_latencies := mid_latencies t @ r_interval_latency r\<rparr> in
            t \<lparr>mid_all_latencies := mid_all_latencies t @ mid_latencies t,
               mid_attempt_latencies := mid_attempt_latencies t @ r_attempt_latency r,
               mid_time := fadd (mid_time t) interval_time,
               mid_n_try := mid_n_try t @ r_num_try r,
               mid_start_txn := mid_start_txn t + r_start r,
               mid_total_txn := mid_total_txn t + r_total r,
               mid_total_try := mid_total_try t + r_try r,
               mid_commit_txn := mid_commit_txn t + r_commit r,
               mid_retry_exhausted := mid_retry_exhausted t + r_num_exhausted r\<rparr>)
         else t)"

section \<open>Rows of the progress tables\<close>

text \<open>\<^verbatim>\<open>int(round(n / t))\<close> for a count and a time.\<close>

definition rate :: "int \<Rightarrow> rat \<Rightarrow> int res" where
  "rate n t = bindE (fdiv (float_of n) t) (\<lambda>x. Inr (py_round x))"

text \<open>\<^verbatim>\<open>str(round(n * 100.0 / all, 2)) + "%"\<close>, or dashes when there was nothing.\<close>

definition share :: "int \<Rightarrow> int \<Rightarrow> cell res" where
  "share n all =
     (if 0 < all then
        bindE (fdiv (fmul (float_of n) 100) (float_of all)) (\<lambda>x. Inr (CPct (py_round2 x)))
      else Inr (CStr ''----''))"

text \<open>The loop that overwrites the cells of \<^verbatim>\<open>max_data\<close> from index 9 on.\<close>

fun copy_cells :: "nat \<Rightarrow> cell list \<Rightarrow> cell list \<Rightarrow> cell list res" where
  "copy_cells i [] dst = Inr dst"
| "copy_cells i (c # src) dst = (if i < length dst then copy_cells (Suc i) src (dst[i := c]) else Inl IndexError)"

text \<open>\<^verbatim>\<open>max_data[6] < interval_tps\<close>\<close>

definition slower :: "cell list \<Rightarrow> int \<Rightarrow> bool res" where
  "slower md tps =
     bindE (py_nth md 6) (\<lambda>c. case c of CInt i \<Rightarrow> Inr (i < tps) | CFloat x \<Rightarrow> Inr (x < of_int tps) | _ \<Rightarrow> Inl TypeError)"

definition total_row :: "cell \<Rightarrow> int \<Rightarrow> txn_info \<Rightarrow> cell list" where
  "total_row shr tps t =
     [shr, CStr (txn_name t), CInt (start_txn t), CInt (total_txn t), CInt (total_try t), CInt (commit_txn t), CInt tps]"

definition interval_row :: "cell \<Rightarrow> int \<Rightarrow> txn_info \<Rightarrow> cell list" where
  "interval_row shr tps t =
     [shr, CStr (txn_name t), CInt (start_txn t - pre_start_txn t), CInt (total_txn t - pre_total_txn t),
      CInt (total_try t - pre_total_try t), CInt (commit_txn t - pre_commit_txn t), CInt tps,
      CFloat g_max_latency, CFloat g_max_latency]
     @ map (\<lambda>_. CFloat g_max_latency) g_percentage @ map (\<lambda>_. CFloat g_max_latency) g_percentage
     @ map (\<lambda>_. CFloat g_max_try) g_percentage"

definition refresh_max :: "cell list \<Rightarrow> txn_info \<Rightarrow> txn_info res" where
  "refresh_max row t =
     (if update_latency t then
        bindE (copy_cells 9 (drop 9 row) (max_data t)) (\<lambda>md. Inr (t \<lparr>update_latency := False, max_data := md\<rparr>))
      else Inr t)"

definition choose_max :: "bool \<Rightarrow> int \<Rightarrow> cell list \<Rightarrow> rat \<Rightarrow> txn_info \<Rightarrow> txn_info res" where
  "choose_max set_max tps row interval_time t =
     (if set_max then
        bindE (if max_data t = [] then Inr True else slower (max_data t) tps) (\<lambda>b.
        Inr (if b then t \<lparr>max_data := row, max_interval := interval_time, update_latency := True\<rparr> else t))
      else Inr t)"

definition roll_over :: "txn_info \<Rightarrow> txn_info" where
  "roll_over t =
     t \<lparr>last_interval_start := start_txn t - pre_start_txn t, pre_start_txn := start_txn t,
        pre_total_txn := total_txn t, pre_total_try := total_try t, pre_commit_txn := commit_txn t,
        this_latencies := []\<rparr>"

definition get_res :: "rat \<Rightarrow> rat \<Rightarrow> bool \<Rightarrow> int \<Rightarrow> int \<Rightarrow> txn_info \<Rightarrow> ((cell list \<times> cell list) \<times> txn_info) res" where
  "get_res interval_time total_time set_max all_total_commits all_interval_commits t =
     (let interval_commits = commit_txn t - pre_commit_txn t in
      bindE (rate interval_commits interval_time) (\<lambda>interval_tps.
      bindE (share (commit_txn t) all_total_commits) (\<lambda>total_share.
      bindE (rate (commit_txn t) total_time) (\<lambda>total_tps.
      bindE (share interval_commits all_interval_commits) (\<lambda>interval_share.
      let total_ret = total_row total_share total_tps t; interval_ret = interval_row interval_share interval_tps t in
      bindE (refresh_max interval_ret t) (\<lambda>t.
      bindE (choose_max set_max interval_tps interval_ret interval_time t) (\<lambda>t.
      Inr ((total_ret, interval_ret), roll_over t))))))))"

section \<open>The final report\<close>

text \<open>\<^verbatim>\<open>int(math.ceil(percent/100*len(xs)))-1\<close>, with \<^verbatim>\<open>percent\<close> already multiplied by 100.\<close>

definition pct_index :: "rat \<Rightarrow> nat \<Rightarrow> int" where
  "pct_index p n = \<lceil>fmul (rnd (fmul p 100 / 100)) (rnd (of_nat n))\<rceil> - 1"

definition percentile :: "rat \<Rightarrow> rat list \<Rightarrow> rat res" where
  "percentile p xs = (if 0 < length xs then py_nth xs (pct_index p (length xs)) else Inr NO_VALUE)"

text \<open>The block of one kind of latency: percentiles in the order of the list, minimum, maximum and mean.\<close>

record latency_block =
  lb_percentiles :: "rat list"
  lb_min :: rat
  lb_max :: rat
  lb_avg :: rat

definition min_max_avg :: "bool \<Rightarrow> rat list \<Rightarrow> (rat \<times> rat \<times> rat) res" where
  "min_max_avg present xs =
     (if present then
        bindE (py_nth xs 0) (\<lambda>lo.
        bindE (py_nth xs (int (length xs) - 1)) (\<lambda>hi.
        bindE (fdiv (fsum xs) (rnd (of_nat (length xs)))) (\<lambda>avg.
        Inr (lo, hi, avg))))
      else Inr (NO_VALUE, NO_VALUE, NO_VALUE))"

definition latency_block :: "bool \<Rightarrow> rat list \<Rightarrow> latency_block res" where
  "latency_block present xs =
     bindE (mapE (\<lambda>p. percentile p xs) g_percentage) (\<lambda>ps.
     bindE (min_max_avg present xs) (\<lambda>(lo, hi, avg).
     Inr \<lparr>lb_percentiles = ps, lb_min = lo, lb_max = hi, lb_avg = avg\<rparr>))"

text \<open>The entries of the configuration the report repeats.\<close>

record mid_config =
  workload :: string
  cc :: string
  ab :: string
  client_sites :: "string list list"
  n_concurrent :: int
  coefficient :: "rat option"
  experiment_id :: int

record mid_report =
  d_benchmark :: string
  d_cc :: string
  d_ab :: string
  d_clients :: int
  d_duration :: rat
  d_txn_name :: string
  d_start_cnt :: int
  d_total_cnt :: int
  d_attempts :: int
  d_commits :: int
  d_tps :: rat
  d_zipf :: rat
  d_experiment_id :: int
  d_retries_exhausted_cnt :: int
  d_latency :: latency_block
  d_all_latency :: latency_block
  d_att_latency :: latency_block

definition py_max :: "rat list \<Rightarrow> rat res" where
  "py_max xs = (if xs = [] then Inl ValueError else Inr (Max (set xs)))"

definition print_mid :: "mid_config \<Rightarrow> int \<Rightarrow> txn_info \<Rightarrow> (mid_report \<times> txn_info) res" where
  "print_mid config num_clients t =
     (let start = mid_start_txn t - mid_pre_start_txn t;
          total = mid_total_txn t - mid_pre_total_txn t;
          tries = mid_total_try t - mid_pre_total_try t;
          commit = mid_commit_txn t - mid_pre_commit_txn t
      in
      bindE (fdiv (mid_time t) (float_of num_clients)) (\<lambda>mt.
      bindE (fdiv (float_of commit) mt) (\<lambda>tps.
      bindE (if 0 < mid_retry_exhausted t then
               bindE (py_max (mid_latencies t)) (\<lambda>m. Inr (mid_all_latencies t @ replicate (nat (mid_retry_exhausted t)) m))
             else Inr (mid_all_latencies t)) (\<lambda>all_lat.
      let t = t \<lparr>mid_time := mt, mid_latencies := sort (mid_latencies t), mid_all_latencies := sort all_lat,
                 mid_attempt_latencies := sort (mid_attempt_latencies t), mid_n_try := sort (mid_n_try t)\<rparr>;
          present = 0 < length (mid_latencies t)
      in
      bindE (latency_block present (mid_latencies t)) (\<lambda>lat.
      bindE (latency_block (0 < length (mid_all_latencies t)) (mid_all_latencies t)) (\<lambda>all_lat.
      bindE (latency_block present (mid_attempt_latencies t)) (\<lambda>att_lat.
      Inr (\<lparr>d_benchmark = workload config, d_cc = cc config, d_ab = ab config,
            d_clients = int (sum_list (map length (client_sites config))) * n_concurrent config,
            d_duration = mt, d_txn_name = txn_name t, d_start_cnt = start, d_total_cnt = total, d_attempts = tries,
            d_commits = commit, d_tps = tps,
            d_zipf = (case coefficient config of Some z \<Rightarrow> z | None \<Rightarrow> - 1),
            d_experiment_id = experiment_id config, d_retries_exhausted_cnt = mid_retry_exhausted t,
            d_latency = lat, d_all_latency = all_lat, d_att_latency = att_lat\<rparr>, t))))))))"

text \<open>\<^verbatim>\<open>print_max\<close>: the line about the best interval; \<open>str_cell\<close> and \<open>str_float\<close> print values.\<close>

definition join_cells :: "(cell \<Rightarrow> string) \<Rightarrow> cell list \<Rightarrow> int \<Rightarrow> string list \<Rightarrow> string res" where
  "join_cells str_cell md base header =
     bindE (foldE (\<lambda>(s, i) l_str.
       bindE (py_nth md (base + i)) (\<lambda>c. Inr (s @ ''; '' @ l_str @ '': '' @ str_cell c, i + 1))) ([], 0) header) (\<lambda>(s, i). Inr s)"

definition header :: "(rat \<Rightarrow> string) \<Rightarrow> string \<Rightarrow> string list" where
  "header str_float lbl = map (\<lambda>x. str_float (fmul x 100) @ lbl) g_percentage"

definition print_max :: "(rat \<Rightarrow> string) \<Rightarrow> (cell \<Rightarrow> string) \<Rightarrow> txn_info \<Rightarrow> string res" where
  "print_max str_float str_cell t =
     (let md = max_data t; n = int (length g_percentage); fld = (\<lambda>i. bindE (py_nth md i) (\<lambda>c. Inr (str_cell c))) in
      bindE (join_cells str_cell md 9 (header str_float ''% LATENCY'')) (\<lambda>latency_str.
      bindE (join_cells str_cell md (9 + n) (header str_float ''% ATT_LT'')) (\<lambda>att_str.
      bindE (join_cells str_cell md (9 + n + n) (header str_float ''% N_TRY'')) (\<lambda>n_tried_str.
      bindE (mapE fld [1, 2, 3, 4, 5, 6, 7, 8]) (\<lambda>f.
      Inr (''RECORDING_RESULT: TXN: <'' @ f ! 0 @ ''>; STARTED_TXNS: '' @ f ! 1 @ ''; FINISHED_TXNS: '' @ f ! 2
        @ ''; ATTEMPTS: '' @ f ! 3 @ ''; COMMITS: '' @ f ! 4 @ ''; TPS: '' @ f ! 5 @ latency_str @ att_str
        @ ''; TIME: '' @ str_float (max_interval t) @ ''; LATENCY MIN: '' @ f ! 6 @ ''; LATENCY MAX: '' @ f ! 7
        @ n_tried_str))))))"

section \<open>Percentile indices\<close>

lemma pct_index_parts:
  assumes "1 / 2 ^ 10 \<le> p" "p \<le> 1"
  defines "b \<equiv> rnd (fmul p 100 / 100)"
  shows "\<bar>b - p\<bar> \<le> 3 / 2 ^ 53" "b \<le> 1" "1 / 2 ^ 11 \<le> b"
proof -
  define a where "a = fmul p 100"
  have "pow2 (- 1022) \<le> p * 100" using assms(1) pow2_small by simp
  from rnd_error [OF this] have ea: "\<bar>a - p * 100\<bar> \<le> p * 100 / 2 ^ 53" by (simp add: a_def)
  then have a: "p * 100 - p * 100 / 2 ^ 53 \<le> a" "a \<le> p * 100 + p * 100 / 2 ^ 53" by linarith+
  have "a \<le> rnd 100" unfolding a_def using assms(2) by (intro rnd_mono) simp
  then have a100: "a \<le> 100" by (simp add: rnd_numeral)
  have "pow2 (- 1022) \<le> a / 100" using a(1) assms(1) pow2_small by simp
  from rnd_error [OF this] have eb: "\<bar>b - a / 100\<bar> \<le> a / 100 / 2 ^ 53" by (simp add: a_def b_def)
  then have b: "a / 100 - a / 100 / 2 ^ 53 \<le> b" "b \<le> a / 100 + a / 100 / 2 ^ 53" by linarith+
  have "a / 100 / 2 ^ 53 \<le> 1 / 2 ^ 53" "p * 100 / 2 ^ 53 \<le> 100 / 2 ^ 53" using a100 assms(2) by simp_all
  then show "\<bar>b - p\<bar> \<le> 3 / 2 ^ 53" using a b unfolding abs_le_iff by linarith
  have "b \<le> rnd 1" unfolding b_def using a100 by (intro rnd_mono) (simp add: a_def)
  then show "b \<le> 1" by simp
  show "1 / 2 ^ 11 \<le> b" using a(1) b(1) assms(1) by simp
qed

lemma pct_index_range:
  assumes "1 / 2 ^ 10 \<le> p" "p \<le> 1" "0 < n" "n < 2 ^ 53"
  shows "0 \<le> pct_index p n" "pct_index p n < int n"
proof -
  let ?b = "rnd (fmul p 100 / 100)"
  note b = pct_index_parts [OF assms(1,2)]
  have n: "rnd (of_nat n) = of_nat n" by (rule rnd_of_nat [OF assms(4)])
  have "?b * of_nat n \<le> of_nat n" using b(2) by (simp add: mult_left_le_one_le rnd_nonneg assms less_imp_le)
  then have "fmul ?b (of_nat n) \<le> of_nat n" using rnd_mono n by metis
  then have "\<lceil>fmul ?b (of_nat n)\<rceil> \<le> int n" by (simp add: ceiling_le_iff)
  then show "pct_index p n < int n" by (simp add: pct_index_def n)
  have "1 / 2 ^ 11 * 1 \<le> ?b * of_nat n" using b(3) assms(3) by (intro mult_mono) simp_all
  then have "pow2 (- 1022) \<le> ?b * of_nat n" using pow2_small by simp
  then have "0 < fmul ?b (of_nat n)" by (rule rnd_pos)
  then have "1 \<le> \<lceil>fmul ?b (of_nat n)\<rceil>" by (simp add: one_le_ceiling)
  then show "0 \<le> pct_index p n" by (simp add: pct_index_def n)
qed

lemma pct_index_near:
  assumes "1 / 2 ^ 10 \<le> p" "p \<le> 1" "0 < n" "n < 2 ^ 50"
  shows "\<bar>pct_index p n - (\<lceil>p * of_nat n\<rceil> - 1)\<bar> \<le> 1"
proof -
  let ?b = "rnd (fmul p 100 / 100)" and ?n = "of_nat n :: rat"
  note b = pct_index_parts [OF assms(1,2)]
  have n: "rnd ?n = ?n" using assms(4) by (intro rnd_of_nat) simp
  have n50: "?n < 2 ^ 50" using assms(4) by (metis of_nat_less_iff of_nat_numeral of_nat_power)
  have "1 / 2 ^ 11 * 1 \<le> ?b * ?n" using b(3) assms(3) by (intro mult_mono) simp_all
  then have "pow2 (- 1022) \<le> ?b * ?n" using pow2_small by simp
  from rnd_error [OF this] have e1: "\<bar>fmul ?b ?n - ?b * ?n\<bar> \<le> ?b * ?n / 2 ^ 53" .
  have "?b * ?n \<le> 1 * ?n" using b(2) by (intro mult_right_mono) simp_all
  then have "?b * ?n \<le> 2 ^ 50" using n50 by linarith
  then have "?b * ?n / 2 ^ 53 \<le> 2 ^ 50 / 2 ^ 53" by (intro divide_right_mono) simp_all
  moreover have "\<bar>?b * ?n - p * ?n\<bar> \<le> 3 / 2 ^ 53 * ?n"
    using mult_right_mono [OF b(1), of ?n] by (simp add: abs_mult flip: left_diff_distrib)
  moreover have "3 / 2 ^ 53 * ?n \<le> 3 / 2 ^ 53 * 2 ^ 50" using n50 by (intro mult_left_mono) (linarith, simp)
  moreover have "3 / 2 ^ 53 * 2 ^ 50 + 2 ^ 50 / 2 ^ 53 < (1 :: rat)" by simp
  ultimately have "\<bar>fmul ?b ?n - p * ?n\<bar> < 1" using e1 by linarith
  then have "\<bar>\<lceil>fmul ?b ?n\<rceil> - \<lceil>p * ?n\<rceil>\<bar> \<le> 1" by linarith
  then show ?thesis by (simp add: pct_index_def n)
qed

lemma flit_range:
  assumes "1 / 2 \<le> x" "x \<le> 1"
  shows "1 / 2 ^ 10 \<le> flit x" "flit x \<le> 1"
proof -
  have "pow2 (- 1022) \<le> x" using assms(1) pow2_small by simp
  from rnd_error [OF this] have "x - x / 2 ^ 53 \<le> flit x" by linarith
  moreover have "1 / 2 ^ 10 \<le> x - x / 2 ^ 53" using assms by simp
  ultimately show "1 / 2 ^ 10 \<le> flit x" by linarith
  show "flit x \<le> 1" using rnd_mono [OF assms(2)] by simp
qed

lemma g_percentage_range:
  assumes "p \<in> set g_percentage"
  shows "1 / 2 ^ 10 \<le> p" "p \<le> 1"
  using assms flit_range [of "1 / 2"] flit_range [of "9 / 10"] flit_range [of "99 / 100"] flit_range [of "999 / 1000"]
  by (auto simp: g_percentage_def)

lemma flit_999: "flit (999 / 1000) = 8998192055486251 / 2 ^ 53"
  using rnd_eqI [of "- 1" "999 / 1000" 8998192055486251] by (simp add: pow2_def)

lemma pct_index_1000: "pct_index (flit (999 / 1000)) 1000 = 999"
proof -
  have a: "fmul (flit (999 / 1000)) 100 = 7029837543348634 / 2 ^ 46"
    unfolding flit_999 using rnd_eqI [of 6 "8998192055486251 / 2 ^ 53 * 100" 7029837543348634] by (simp add: pow2_def)
  have b: "rnd (fmul (flit (999 / 1000)) 100 / 100) = 8998192055486252 / 2 ^ 53"
    unfolding a using rnd_eqI [of "- 1" "7029837543348634 / 2 ^ 46 / 100" 8998192055486252] by (simp add: pow2_def)
  have c: "fmul (8998192055486252 / 2 ^ 53) 1000 = 8787296929185793 / 2 ^ 43"
    using rnd_eqI [of 9 "8998192055486252 / 2 ^ 53 * 1000" 8787296929185793] by (simp add: pow2_def)
  have d: "\<lceil>8787296929185793 / (2 ^ 43 :: rat)\<rceil> = 1000" by (rule ceiling_unique) simp_all
  have n: "rnd (of_nat 1000) = 1000" using rnd_of_nat [of 1000] by simp
  show ?thesis unfolding pct_index_def b n c d by simp
qed

section \<open>What a report says about its samples\<close>

lemma percentile_nth:
  assumes "p \<in> set g_percentage" "xs \<noteq> []" "length xs < 2 ^ 53"
  shows "percentile p xs = Inr (xs ! nat (pct_index p (length xs)))" "nat (pct_index p (length xs)) < length xs"
proof -
  note i = pct_index_range [OF g_percentage_range [OF assms(1)], of "length xs"]
  have "0 \<le> pct_index p (length xs)" "pct_index p (length xs) < int (length xs)" using i assms(2,3) by simp_all
  then show "percentile p xs = Inr (xs ! nat (pct_index p (length xs)))" "nat (pct_index p (length xs)) < length xs"
    using assms(2) by (simp_all add: percentile_def py_nth_def py_index_def nat_less_iff)
qed

lemma pct_index_mono:
  assumes "p \<le> q" "0 < n"
  shows "pct_index p n \<le> pct_index q n"
proof -
  have "rnd (fmul p 100 / 100) \<le> rnd (fmul q 100 / 100)"
    using assms(1) by (intro rnd_mono divide_right_mono) simp_all
  then have "rnd (fmul p 100 / 100) * rnd (of_nat n) \<le> rnd (fmul q 100 / 100) * rnd (of_nat n)"
    by (rule mult_right_mono) (simp add: rnd_nonneg)
  then have "\<lceil>fmul (rnd (fmul p 100 / 100)) (rnd (of_nat n))\<rceil> \<le> \<lceil>fmul (rnd (fmul q 100 / 100)) (rnd (of_nat n))\<rceil>"
    by (intro ceiling_mono rnd_mono)
  then show ?thesis by (simp only: pct_index_def)
qed

lemma sorted_g_percentage: "sorted g_percentage"
  by (simp add: g_percentage_def rnd_mono)

text \<open>A block over a sorted sample: every percentile is a sample value, they ascend, and they lie between
  the minimum and the maximum.\<close>

lemma latency_block_present:
  assumes "xs \<noteq> []" "length xs < 2 ^ 53"
  shows "latency_block True xs = Inr \<lparr>lb_percentiles = map (\<lambda>p. xs ! nat (pct_index p (length xs))) g_percentage,
    lb_min = hd xs, lb_max = last xs, lb_avg = rnd (fsum xs / of_nat (length xs))\<rparr>"
proof -
  have "mapE (\<lambda>p. percentile p xs) g_percentage = Inr (map (\<lambda>p. xs ! nat (pct_index p (length xs))) g_percentage)"
    unfolding mapE_eq_Inr_iff using percentile_nth(1) [OF _ assms] by (simp add: list_all2_map2 list_all2_same)
  moreover have "rnd (of_nat (length xs)) = of_nat (length xs)" by (rule rnd_of_nat [OF assms(2)])
  ultimately show ?thesis
    using assms(1) by (simp add: latency_block_def min_max_avg_def py_nth_ends)
qed

lemma latency_block_absent: "latency_block False [] = Inr \<lparr>lb_percentiles = map (\<lambda>_. NO_VALUE) g_percentage,
    lb_min = NO_VALUE, lb_max = NO_VALUE, lb_avg = NO_VALUE\<rparr>"
  by (simp add: latency_block_def percentile_def mapE_total min_max_avg_def)

lemma latency_block_missing: "latency_block True [] = Inl IndexError"
  by (simp add: latency_block_def percentile_def mapE_total min_max_avg_def py_nth_def py_index_def)

lemma percentiles_sorted:
  fixes xs :: "rat list"
  assumes "sorted xs" "xs \<noteq> []" "length xs < 2 ^ 53"
  shows "sorted (map (\<lambda>p. xs ! nat (pct_index p (length xs))) g_percentage)"
proof -
  have "xs ! nat (pct_index p (length xs)) \<le> xs ! nat (pct_index q (length xs))" if "p \<le> q" "q \<in> set g_percentage" for p q
    using that percentile_nth(2) [OF that(2) assms(2,3)] pct_index_mono [OF that(1), of "length xs"] assms(2)
    by (intro sorted_nth_mono [OF assms(1)]) (auto intro: nat_mono)
  then show ?thesis
    using sorted_g_percentage by (auto simp: sorted_map intro: sorted_wrt_mono_rel [of g_percentage "(\<le>)"])
qed

lemma percentiles_within:
  fixes xs :: "rat list"
  assumes "sorted xs" "xs \<noteq> []" "length xs < 2 ^ 53" "p \<in> set g_percentage"
  shows "hd xs \<le> xs ! nat (pct_index p (length xs)) \<and> xs ! nat (pct_index p (length xs)) \<le> last xs"
  using percentile_nth(2) [OF assms(4,2,3)] assms(1,2)
  by (auto simp: hd_conv_nth last_conv_nth intro!: sorted_nth_mono)

section \<open>A run\<close>

text \<open>
  What one heartbeat of the controller does to the statistics of one transaction type: clear, add the
  batch of reports, start or stop recording if it is time, and compute the table rows.
\<close>

datatype phase = Keep | Start_Recording | Stop_Recording

record beat =
  batch :: "(txn_res \<times> rat) list"
  act :: phase
  b_interval_time :: rat
  b_total_time :: rat
  b_set_max :: bool
  b_total_commits :: int
  b_interval_commits :: int

definition push_all :: "(txn_res \<times> rat) list \<Rightarrow> txn_info \<Rightarrow> txn_info" where
  "push_all rs t = foldl (\<lambda>t (r, i). push_res r i t) t rs"

type_synonym beat_out = "mid_report option \<times> cell list \<times> cell list"

definition txn_beat :: "mid_config \<Rightarrow> int \<Rightarrow> beat \<Rightarrow> txn_info \<Rightarrow> (beat_out \<times> txn_info) res" where
  "txn_beat config n b t =
     (let t = push_all (batch b) (clear t) in
      bindE (case act b of
          Keep \<Rightarrow> Inr (None, t)
        | Start_Recording \<Rightarrow> Inr (None, set_mid_status t)
        | Stop_Recording \<Rightarrow> bindE (print_mid config n t) (\<lambda>(d, t). Inr (Some d, set_mid_status t))) (\<lambda>(d, t).
      bindE (get_res (b_interval_time b) (b_total_time b) (b_set_max b) (b_total_commits b) (b_interval_commits b) t) (\<lambda>(rows, t).
      Inr ((d, rows), t))))"

fun txn_beats :: "mid_config \<Rightarrow> int \<Rightarrow> beat list \<Rightarrow> txn_info \<Rightarrow> (beat_out list \<times> txn_info) res" where
  "txn_beats config n [] t = Inr ([], t)"
| "txn_beats config n (b # bs) t =
     bindE (txn_beat config n b t) (\<lambda>(x, t). bindE (txn_beats config n bs t) (\<lambda>(xs, t). Inr (x # xs, t)))"

text \<open>The fields the recording uses, and that the rows of the tables do not touch.\<close>

definition mid_view :: "txn_info \<Rightarrow> int \<times> int \<times> int \<times> int \<times> int \<times> rat \<times> rat list \<times> rat list" where
  "mid_view t =
     (mid_status t, mid_pre_start_txn t, mid_pre_commit_txn t, mid_start_txn t, mid_commit_txn t, mid_time t,
      mid_latencies t, mid_attempt_latencies t)"

text \<open>Without recorded time there is no report.\<close>

lemma print_mid_no_time: "mid_time t = 0 \<Longrightarrow> print_mid config n t = Inl ZeroDivisionError"
  by (cases "float_of n = 0") (simp_all add: print_mid_def Let_def fdiv_def)

text \<open>Computing rows succeeds only with positive times; it then rolls the counters over, whatever it did to \<^verbatim>\<open>max_data\<close>.\<close>

lemma get_res_InrE:
  assumes "get_res it tt sm ac ai t = Inr ((total_ret, interval_ret), t')"
  obtains t1 t2 total_share total_tps interval_share interval_tps where
    "total_ret = total_row total_share total_tps t" "interval_ret = interval_row interval_share interval_tps t"
    "refresh_max interval_ret t = Inr t1" "choose_max sm interval_tps interval_ret it t1 = Inr t2" "t' = roll_over t2"
  using assms unfolding get_res_def Let_def by (elim bindE_eq_InrE) auto

lemma refresh_max_mid_view: "refresh_max row t = Inr t' \<Longrightarrow> mid_view t' = mid_view t"
  by (auto simp: refresh_max_def mid_view_def bindE_eq_Inr_iff split: if_splits)

lemma choose_max_mid_view: "choose_max sm tps row it t = Inr t' \<Longrightarrow> mid_view t' = mid_view t"
  by (auto simp: choose_max_def mid_view_def bindE_eq_Inr_iff split: if_splits)

lemma roll_over_mid_view: "mid_view (roll_over t) = mid_view t"
  by (simp add: roll_over_def mid_view_def)

lemma get_res_mid_view:
  assumes "get_res it tt sm ac ai t = Inr (rows, t')"
  shows "mid_view t' = mid_view t"
proof -
  obtain total_ret interval_ret where "rows = (total_ret, interval_ret)" by force
  with assms show ?thesis
    by (auto elim!: get_res_InrE simp: roll_over_mid_view choose_max_mid_view refresh_max_mid_view)
qed

abbreviation batch_sum :: "(txn_res \<Rightarrow> int) \<Rightarrow> (txn_res \<times> rat) list \<Rightarrow> int" where
  "batch_sum f rs \<equiv> sum_list (map (\<lambda>(r, i). f r) rs)"

abbreviation batch_time :: "rat \<Rightarrow> (txn_res \<times> rat) list \<Rightarrow> rat" where
  "batch_time t rs \<equiv> foldl (\<lambda>t (r, i). fadd t i) t rs"

lemma push_res_0:
  assumes "mid_view t = (0, a, b, c, d, e, l, m)"
  shows "mid_view (push_res r i t) = (0, a + r_start r, b + r_commit r, c, d, e, l, m)"
  using assms by (simp add: push_res_def mid_view_def Let_def)

lemma push_res_1:
  assumes "mid_view t = (1, a, b, c, d, e, l, m)"
  shows "mid_view (push_res r i t) =
    (1, a, b, c + r_start r, d + r_commit r, fadd e i, l @ r_interval_latency r, m @ r_attempt_latency r)"
  using assms by (simp add: push_res_def mid_view_def Let_def)

lemma push_all_0:
  assumes "mid_view t = (0, a, b, c, d, e, l, m)"
  shows "mid_view (push_all rs t) = (0, a + batch_sum r_start rs, b + batch_sum r_commit rs, c, d, e, l, m)"
  using assms
proof (induction rs arbitrary: t a b)
  case (Cons x rs)
  obtain r i where x: "x = (r, i)" by force
  show ?case
    using Cons.IH [OF push_res_0 [OF Cons.prems, of r i]] by (simp add: push_all_def x add.assoc)
qed (simp add: push_all_def)

lemma push_all_1:
  assumes "mid_view t = (1, a, b, c, d, e, l, m)"
  shows "mid_view (push_all rs t) =
    (1, a, b, c + batch_sum r_start rs, d + batch_sum r_commit rs, batch_time e rs,
     l @ concat (map (\<lambda>(r, i). r_interval_latency r) rs), m @ concat (map (\<lambda>(r, i). r_attempt_latency r) rs))"
  using assms
proof (induction rs arbitrary: t c d e l m)
  case (Cons x rs)
  obtain r i where x: "x = (r, i)" by force
  show ?case
    using Cons.IH [OF push_res_1 [OF Cons.prems, of r i]] by (simp add: push_all_def x add.assoc)
qed (simp add: push_all_def)

lemma clear_0:
  assumes "mid_view t = (0, a, b, c, d, e, l, m)"
  shows "mid_view (clear t) = (0, 0, 0, c, d, e, l, m)"
  using assms by (simp add: clear_def mid_view_def Let_def)

lemma clear_1:
  assumes "mid_view t = (1, a, b, c, d, e, l, m)"
  shows "mid_view (clear t) = (1, a, b, 0, 0, e, l, m)"
  using assms by (simp add: clear_def mid_view_def Let_def)

lemma set_mid_status_0:
  assumes "mid_view t = (0, a, b, c, d, e, l, m)"
  shows "mid_view (set_mid_status t) = (1, a, b, c, d, e, l, m)"
  using assms by (simp add: set_mid_status_def mid_view_def)

lemma beat_keep_0:
  assumes "mid_view t = (0, a, b, c, d, e, l, m)" "act x = Keep" "txn_beat config n x t = Inr (y, t')"
  shows "\<exists>a b. mid_view t' = (0, a, b, c, d, e, l, m)"
  using assms(2,3) push_all_0 [OF clear_0 [OF assms(1)], of "batch x"]
  by (auto simp: txn_beat_def Let_def elim!: bindE_eq_InrE dest!: get_res_mid_view)

lemma beat_start_0:
  assumes "mid_view t = (0, a, b, c, d, e, l, m)" "act x = Start_Recording" "txn_beat config n x t = Inr (y, t')"
  shows "mid_view t' = (1, batch_sum r_start (batch x), batch_sum r_commit (batch x), c, d, e, l, m)"
  using assms(2,3) set_mid_status_0 [OF push_all_0 [OF clear_0 [OF assms(1)], of "batch x"]]
  by (auto simp: txn_beat_def Let_def elim!: bindE_eq_InrE dest!: get_res_mid_view)

lemma beat_keep_1:
  assumes "mid_view t = (1, a, b, c, d, e, l, m)" "act x = Keep" "txn_beat config n x t = Inr (y, t')"
  shows "\<exists>c d. mid_view t' = (1, a, b, c, d, batch_time e (batch x),
    l @ concat (map (\<lambda>(r, i). r_interval_latency r) (batch x)), m @ concat (map (\<lambda>(r, i). r_attempt_latency r) (batch x)))"
  using assms(2,3) push_all_1 [OF clear_1 [OF assms(1)], of "batch x"]
  by (auto simp: txn_beat_def Let_def elim!: bindE_eq_InrE dest!: get_res_mid_view)

lemma beats_keep_0:
  assumes "mid_view t = (0, a, b, c, d, e, l, m)" "list_all (\<lambda>x. act x = Keep) xs" "txn_beats config n xs t = Inr (ys, t')"
  shows "\<exists>a b. mid_view t' = (0, a, b, c, d, e, l, m)"
  using assms
proof (induction xs arbitrary: t a b ys)
  case (Cons x xs)
  from Cons.prems(3) obtain y t1 ys' where t1: "txn_beat config n x t = Inr (y, t1)" "txn_beats config n xs t1 = Inr (ys', t')"
    by (auto elim!: bindE_eq_InrE)
  have "act x = Keep" "list_all (\<lambda>x. act x = Keep) xs" using Cons.prems(2) by simp_all
  then show ?case using beat_keep_0 [OF Cons.prems(1) _ t1(1)] Cons.IH [OF _ _ t1(2)] by blast
qed auto

lemma beats_keep_1:
  assumes "mid_view t = (1, a, b, c, d, e, l, m)" "list_all (\<lambda>x. act x = Keep) xs" "txn_beats config n xs t = Inr (ys, t')"
  shows "\<exists>c d. mid_view t' = (1, a, b, c, d, batch_time e (concat (map batch xs)),
    l @ concat (map (\<lambda>(r, i). r_interval_latency r) (concat (map batch xs))),
    m @ concat (map (\<lambda>(r, i). r_attempt_latency r) (concat (map batch xs))))"
  using assms
proof (induction xs arbitrary: t c d e l m ys)
  case (Cons x xs)
  from Cons.prems(3) obtain y t1 ys' where t1: "txn_beat config n x t = Inr (y, t1)" "txn_beats config n xs t1 = Inr (ys', t')"
    by (auto elim!: bindE_eq_InrE)
  have "act x = Keep" using Cons.prems(2) by simp
  from beat_keep_1 [OF Cons.prems(1) this t1(1)] obtain c d where
    "mid_view t1 = (1, a, b, c, d, batch_time e (batch x),
      l @ concat (map (\<lambda>(r, i). r_interval_latency r) (batch x)), m @ concat (map (\<lambda>(r, i). r_attempt_latency r) (batch x)))"
    by blast
  from Cons.IH [OF this _ t1(2)] Cons.prems(2) show ?case by simp
qed auto

text \<open>What the report says, in terms of the recorded fields.\<close>

lemma print_mid_report:
  assumes "mid_view t = (1, a, b, c, d, e, l, m)" "print_mid config n t = Inr (rep, t')"
  shows "d_start_cnt rep = c - a \<and> d_commits rep = d - b \<and> d_duration rep = rnd (e / float_of n) \<and>
    latency_block (l \<noteq> []) (sort l) = Inr (d_latency rep) \<and> latency_block (l \<noteq> []) (sort m) = Inr (d_att_latency rep)"
proof -
  have v: "mid_start_txn t = c" "mid_pre_start_txn t = a" "mid_commit_txn t = d" "mid_pre_commit_txn t = b"
    "mid_time t = e" "mid_latencies t = l" "mid_attempt_latencies t = m"
    using assms(1) by (simp_all add: mid_view_def)
  have "rnd (e / float_of n) = x" if "fdiv e (float_of n) = Inr x" for x
    using that by (simp add: fdiv_def split: if_splits)
  then show ?thesis
    using assms(2) unfolding print_mid_def Let_def v by (elim bindE_eq_InrE) auto
qed

lemma txn_beats_append:
  "txn_beats config n (xs @ ys) t =
     bindE (txn_beats config n xs t) (\<lambda>(us, t). bindE (txn_beats config n ys t) (\<lambda>(vs, t). Inr (us @ vs, t)))"
  by (induction xs arbitrary: t) (auto simp: bindE_assoc split_def)

lemma new_mid_view: "mid_view (new_txn_info ty name intr) = (0, 0, 0, 0, 0, 0, [], [])"
  by (simp add: new_txn_info_def mid_view_def)

section \<open>When the operations succeed\<close>

definition max_ok :: "txn_info \<Rightarrow> bool" where
  "max_ok t \<longleftrightarrow> (update_latency t \<longrightarrow> max_data t \<noteq> []) \<and>
     (max_data t \<noteq> [] \<longrightarrow> length (max_data t) = 21 \<and> (\<exists>i. max_data t ! 6 = CInt i))"

lemma copy_cells_ok:
  assumes "i + length src \<le> length dst" "6 < i"
  shows "\<exists>md. copy_cells i src dst = Inr md \<and> length md = length dst \<and> md ! 6 = dst ! 6"
  using assms
proof (induction src arbitrary: i dst)
  case (Cons c src)
  then show ?case using Cons.IH [of "Suc i" "dst[i := c]"] by simp
qed simp

lemma interval_row_ok: "length (interval_row s tps t) = 21" "interval_row s tps t ! 6 = CInt tps"
  by (simp_all add: interval_row_def g_percentage_def)

lemma refresh_max_ok:
  assumes "max_ok t" "length row = 21"
  shows "\<exists>t'. refresh_max row t = Inr t' \<and> max_ok t'"
proof (cases "update_latency t")
  case True
  then have "length (max_data t) = 21" using assms(1) by (simp add: max_ok_def)
  then obtain md where "copy_cells 9 (drop 9 row) (max_data t) = Inr md" "length md = 21" "md ! 6 = max_data t ! 6"
    using copy_cells_ok [of 9 "drop 9 row" "max_data t"] assms(2) by auto
  then show ?thesis using True assms(1) by (auto simp: refresh_max_def max_ok_def)
qed (use assms in \<open>simp add: refresh_max_def\<close>)

lemma choose_max_ok:
  assumes "max_ok t" "length row = 21" "row ! 6 = CInt i"
  shows "\<exists>t'. choose_max sm tps row it t = Inr t' \<and> max_ok t'"
proof (cases "sm \<and> max_data t \<noteq> []")
  case True
  then obtain j where "max_data t ! 6 = CInt j" "length (max_data t) = 21" using assms(1) by (auto simp: max_ok_def)
  then have "slower (max_data t) tps = Inr (j < tps)" by (simp add: slower_def py_nth_def py_index_def)
  then show ?thesis using True assms by (auto simp: choose_max_def max_ok_def)
qed (use assms in \<open>auto simp: choose_max_def max_ok_def\<close>)

lemma float_of_pos: "0 < i \<Longrightarrow> 0 < float_of i"
proof -
  assume "0 < i"
  then have "1 \<le> (of_int i :: rat)" by simp
  then have "pow2 (- 1022) \<le> of_int i" using pow2_small by simp
  then show ?thesis by (rule rnd_pos)
qed

lemma share_ok: "\<exists>c. share n all = Inr c"
  using float_of_pos [of all] by (auto simp: share_def)

lemma rate_ok: "t \<noteq> 0 \<Longrightarrow> rate n t = Inr (py_round (rnd (float_of n / t)))"
  by (simp add: rate_def)

lemma get_res_ok:
  assumes "max_ok t" "it \<noteq> 0" "tt \<noteq> 0"
  shows "\<exists>rows t'. get_res it tt sm ac ai t = Inr (rows, t') \<and> max_ok t'"
proof -
  obtain c1 c2 where c: "share (commit_txn t) ac = Inr c1" "share (commit_txn t - pre_commit_txn t) ai = Inr c2"
    using share_ok by metis
  let ?tps = "py_round (rnd (float_of (commit_txn t - pre_commit_txn t) / it))"
  let ?row = "interval_row c2 ?tps t"
  obtain t1 where t1: "refresh_max ?row t = Inr t1" "max_ok t1"
    using refresh_max_ok [OF assms(1) interval_row_ok(1)] by blast
  obtain t2 where t2: "choose_max sm ?tps ?row it t1 = Inr t2" "max_ok t2"
    using choose_max_ok [OF t1(2) interval_row_ok] by blast
  have "max_ok (roll_over t2)" using t2(2) by (simp add: max_ok_def roll_over_def)
  then show ?thesis using c t1(1) t2(1) assms(2,3) by (simp add: get_res_def rate_ok Let_def)
qed

lemma max_ok_ops:
  "max_ok (new_txn_info ty name intr)" "max_ok (clear t) = max_ok t" "max_ok (push_res r i t) = max_ok t"
  "max_ok (set_mid_status t) = max_ok t" "max_ok (roll_over t) = max_ok t"
  by (simp_all add: max_ok_def new_txn_info_def clear_def push_res_def set_mid_status_def roll_over_def Let_def)

lemma op_fields:
  "update_latency (new_txn_info ty name intr) = False" "mid_status (new_txn_info ty name intr) = 0"
  "mid_all_latencies (new_txn_info ty name intr) = []" "mid_time (new_txn_info ty name intr) = 0"
  "mid_latencies (new_txn_info ty name intr) = []" "mid_attempt_latencies (new_txn_info ty name intr) = []"
  "update_latency (clear t) = update_latency t" "mid_status (clear t) = mid_status t"
  "mid_all_latencies (clear t) = mid_all_latencies t" "mid_time (clear t) = mid_time t"
  "mid_latencies (clear t) = mid_latencies t" "mid_attempt_latencies (clear t) = mid_attempt_latencies t"
  "mid_retry_exhausted (clear t) = 0"
  "update_latency (set_mid_status t) = update_latency t" "mid_status (set_mid_status t) = mid_status t + 1"
  "mid_all_latencies (set_mid_status t) = mid_all_latencies t" "mid_time (set_mid_status t) = mid_time t"
  "mid_latencies (set_mid_status t) = mid_latencies t" "mid_attempt_latencies (set_mid_status t) = mid_attempt_latencies t"
  "update_latency (roll_over t) = update_latency t" "mid_status (roll_over t) = mid_status t" "max_data (roll_over t) = max_data t"
  "mid_all_latencies (roll_over t) = mid_all_latencies t" "mid_time (roll_over t) = mid_time t"
  "mid_latencies (roll_over t) = mid_latencies t" "mid_attempt_latencies (roll_over t) = mid_attempt_latencies t"
  by (simp_all add: new_txn_info_def clear_def set_mid_status_def roll_over_def Let_def)

lemma push_res_fields:
  "update_latency (push_res r i t) = update_latency t" "mid_status (push_res r i t) = mid_status t"
  "mid_all_latencies (push_res r i t) =
     (if mid_status t = 1 then mid_all_latencies t @ mid_latencies t @ r_interval_latency r else mid_all_latencies t)"
  "mid_time (push_res r i t) = (if mid_status t = 1 then fadd (mid_time t) i else mid_time t)"
  "mid_latencies (push_res r i t) = (if mid_status t = 1 then mid_latencies t @ r_interval_latency r else mid_latencies t)"
  "mid_attempt_latencies (push_res r i t) =
     (if mid_status t = 1 then mid_attempt_latencies t @ r_attempt_latency r else mid_attempt_latencies t)"
  "mid_retry_exhausted (push_res r i t) =
     (if mid_status t = 1 then mid_retry_exhausted t + r_num_exhausted r else mid_retry_exhausted t)"
  by (simp_all add: push_res_def Let_def)

lemma max_ok_push_all: "max_ok (push_all rs t) = max_ok t"
proof (induction rs arbitrary: t)
  case (Cons x rs)
  obtain r i where "x = (r, i)" by force
  then have "push_all (x # rs) t = push_all rs (push_res r i t)" by (simp add: push_all_def)
  then show ?case by (simp only: Cons.IH max_ok_ops)
qed (simp add: push_all_def)

lemma sort_eq_Nil_iff: "sort xs = [] \<longleftrightarrow> xs = []"
  by (metis length_0_conv length_sort)

lemma latency_block_ok:
  assumes "present \<longrightarrow> xs \<noteq> []" "length xs < 2 ^ 53"
  shows "\<exists>b. latency_block present xs = Inr b"
proof (cases "present")
  case True
  then show ?thesis using latency_block_present [OF _ assms(2)] assms(1) by auto
next
  case False
  have "mapE (\<lambda>p. percentile p xs) g_percentage = Inr (map (\<lambda>p. if xs = [] then NO_VALUE else xs ! nat (pct_index p (length xs))) g_percentage)"
    unfolding mapE_eq_Inr_iff using percentile_nth(1) [OF _ _ assms(2)]
    by (auto simp: list_all2_map2 list_all2_same percentile_def)
  then show ?thesis using False by (simp add: latency_block_def min_max_avg_def)
qed

lemma print_mid_ok:
  assumes "float_of n \<noteq> 0" "rnd (mid_time t / float_of n) \<noteq> 0"
    and "0 < mid_retry_exhausted t \<longrightarrow> mid_latencies t \<noteq> []" "mid_latencies t \<noteq> [] \<longrightarrow> mid_attempt_latencies t \<noteq> []"
    and "length (mid_latencies t) < 2 ^ 53" "length (mid_attempt_latencies t) < 2 ^ 53"
    and "length (mid_all_latencies t) + nat (mid_retry_exhausted t) < 2 ^ 53"
  shows "\<exists>rep t'. print_mid config n t = Inr (rep, t')"
proof -
  obtain all where all: "(if 0 < mid_retry_exhausted t then
        bindE (py_max (mid_latencies t)) (\<lambda>m. Inr (mid_all_latencies t @ replicate (nat (mid_retry_exhausted t)) m))
      else Inr (mid_all_latencies t)) = Inr all" "length all < 2 ^ 53"
    using assms(3,7) by (cases "0 < mid_retry_exhausted t") (auto simp: py_max_def)
  obtain b1 where b1: "latency_block (0 < length (mid_latencies t)) (sort (mid_latencies t)) = Inr b1"
    using latency_block_ok [of "0 < length (mid_latencies t)" "sort (mid_latencies t)"] assms(5) by (auto simp: sort_eq_Nil_iff)
  obtain b2 where b2: "latency_block (0 < length all) (sort all) = Inr b2"
    using latency_block_ok [of "0 < length all" "sort all"] all(2) by (auto simp: sort_eq_Nil_iff)
  obtain b3 where b3: "latency_block (0 < length (mid_latencies t)) (sort (mid_attempt_latencies t)) = Inr b3"
    using latency_block_ok [of "0 < length (mid_latencies t)" "sort (mid_attempt_latencies t)"] assms(4,6) by (auto simp: sort_eq_Nil_iff)
  show ?thesis
    unfolding print_mid_def Let_def fdiv_Inr [OF assms(1)] bindE_simps fdiv_Inr [OF assms(2)] all(1)
    using b1 b2 b3 by simp
qed

lemma print_mid_max_ok: "print_mid config n t = Inr (rep, t') \<Longrightarrow> max_ok t' = max_ok t"
  unfolding print_mid_def Let_def by (elim bindE_eq_InrE) (auto simp: max_ok_def)

lemma sorted_ends:
  fixes xs :: "rat list"
  assumes "sorted xs" "xs \<noteq> []"
  shows "Min (set xs) = hd xs" "Max (set xs) = last xs"
proof -
  have "hd xs \<le> x \<and> x \<le> last xs" if x: "x \<in> set xs" for x
  proof -
    obtain i where "i < length xs" "x = xs ! i" using x by (auto simp: in_set_conv_nth)
    then show ?thesis
      using assms by (auto simp: hd_conv_nth last_conv_nth intro!: sorted_nth_mono)
  qed
  then show "Min (set xs) = hd xs" "Max (set xs) = last xs" using assms(2) by (auto intro!: Min_eqI Max_eqI)
qed

section \<open>Properties of the statistics\<close>

text \<open>
  (C8) The report covers exactly the recorded window: over any run in which recording starts at one heartbeat
  and stops at a later one, its counts are the totals the clients reported at the stopping heartbeat minus
  those at the starting one, its duration is the sum of the reported periods after the start divided by
  the number of clients, and its latency blocks are those of all samples reported after the start.
\<close>

theorem recorded_window:
  assumes "list_all (\<lambda>x. act x = Keep) pre" "act s = Start_Recording" "list_all (\<lambda>x. act x = Keep) mid"
    and "act e = Stop_Recording"
    and "txn_beats config n (pre @ s # mid) (new_txn_info ty name intr) = Inr (ys, t)"
    and "txn_beat config n e t = Inr ((Some rep, rows), t')"
  defines "window \<equiv> concat (map batch (mid @ [e]))"
  shows "d_commits rep = batch_sum r_commit (batch e) - batch_sum r_commit (batch s) \<and>
    d_start_cnt rep = batch_sum r_start (batch e) - batch_sum r_start (batch s) \<and>
    d_duration rep = rnd (batch_time 0 window / float_of n) \<and>
    (let l = concat (map (\<lambda>(r, i). r_interval_latency r) window); m = concat (map (\<lambda>(r, i). r_attempt_latency r) window) in
     latency_block (l \<noteq> []) (sort l) = Inr (d_latency rep) \<and> latency_block (l \<noteq> []) (sort m) = Inr (d_att_latency rep))"
proof -
  from assms(5) obtain us t1 y t2 vs where
    t1: "txn_beats config n pre (new_txn_info ty name intr) = Inr (us, t1)"
    and t2: "txn_beat config n s t1 = Inr (y, t2)" and t3: "txn_beats config n mid t2 = Inr (vs, t)"
    by (auto simp: txn_beats_append elim!: bindE_eq_InrE)
  obtain a b where v1: "mid_view t1 = (0, a, b, 0, 0, 0, [], [])"
    using beats_keep_0 [OF new_mid_view assms(1) t1] by blast
  note v2 = beat_start_0 [OF v1 assms(2) t2]
  obtain c d where v3: "mid_view t = (1, batch_sum r_start (batch s), batch_sum r_commit (batch s), c, d,
      batch_time 0 (concat (map batch mid)), concat (map (\<lambda>(r, i). r_interval_latency r) (concat (map batch mid))),
      concat (map (\<lambda>(r, i). r_attempt_latency r) (concat (map batch mid))))"
    using beats_keep_1 [OF v2 assms(3) t3] by auto
  note v4 = push_all_1 [OF clear_1 [OF v3], of "batch e"]
  from assms(4,6) obtain t4 where "print_mid config n (push_all (batch e) (clear t)) = Inr (rep, t4)"
    by (auto simp: txn_beat_def Let_def elim!: bindE_eq_InrE)
  from print_mid_report [OF v4 this] show ?thesis by (simp add: window_def Let_def)
qed

definition demo_res :: "int \<Rightarrow> int \<Rightarrow> rat list \<Rightarrow> txn_res" where
  "demo_res s c ls = \<lparr>r_start = s, r_total = s, r_try = s, r_commit = c, r_this_latency = [], r_last_latency = [],
     r_interval_latency = ls, r_attempt_latency = ls, r_num_try = [], r_num_exhausted = 0\<rparr>"

definition demo_beat :: "(txn_res \<times> rat) list \<Rightarrow> phase \<Rightarrow> beat" where
  "demo_beat rs a = \<lparr>batch = rs, act = a, b_interval_time = 1, b_total_time = 1, b_set_max = False,
     b_total_commits = 0, b_interval_commits = 0\<rparr>"

definition demo_config :: mid_config where
  "demo_config = \<lparr>workload = ''tpcc'', cc = ''janus'', ab = ''none'', client_sites = [[''c1'', ''c2'']], n_concurrent = 3,
     coefficient = None, experiment_id = 0\<rparr>"

lemma get_res_plain:
  assumes "\<not> update_latency t" "it \<noteq> 0" "tt \<noteq> 0"
  shows "\<exists>rows. get_res it tt False 0 0 t = Inr (rows, roll_over t)"
  using assms by (simp add: get_res_def rate_ok share_def refresh_max_def choose_max_def Let_def)

lemma demo_run:
  "\<exists>ys t rep rows t'.
     txn_beats demo_config 1 [demo_beat [(demo_res 5 4 [], 1)] Start_Recording] (new_txn_info 0 ''w'' False) = Inr (ys, t) \<and>
     txn_beat demo_config 1 (demo_beat [(demo_res 12 10 [7], 2)] Stop_Recording) t = Inr ((Some rep, rows), t')"
proof -
  let ?n = "new_txn_info 0 ''w'' False"
  let ?t1 = "set_mid_status (push_all [(demo_res 5 4 [], 1)] (clear ?n))"
  let ?t2 = "push_all [(demo_res 12 10 [7], 2)] (clear (roll_over ?t1))"
  have p: "push_all [(r, i)] t = push_res r i t" for r i t by (simp add: push_all_def)
  obtain rows1 where r1: "get_res 1 1 False 0 0 ?t1 = Inr (rows1, roll_over ?t1)"
    using get_res_plain [of ?t1 1 1] by (auto simp: p op_fields push_res_fields)
  have "\<exists>rep t'. print_mid demo_config 1 ?t2 = Inr (rep, t')"
    by (rule print_mid_ok) (simp_all add: p op_fields push_res_fields demo_res_def rnd_numeral)
  then obtain rep t3 where r2: "print_mid demo_config 1 ?t2 = Inr (rep, t3)" by blast
  have "max_ok ?t2" by (simp add: max_ok_push_all max_ok_ops)
  then have "max_ok (set_mid_status t3)" using print_mid_max_ok [OF r2] by (simp add: max_ok_ops)
  then obtain rows t' where "get_res 1 1 False 0 0 (set_mid_status t3) = Inr (rows, t')"
    using get_res_ok [of "set_mid_status t3" 1 1 False 0 0] by auto
  then show ?thesis using r1 r2 by (simp add: txn_beat_def demo_beat_def Let_def)
qed

theorem recorded_window_witness:
  "\<exists>ys t rep rows t'.
     txn_beats demo_config 1 [demo_beat [(demo_res 5 4 [], 1)] Start_Recording] (new_txn_info 0 ''w'' False) = Inr (ys, t) \<and>
     txn_beat demo_config 1 (demo_beat [(demo_res 12 10 [7], 2)] Stop_Recording) t = Inr ((Some rep, rows), t') \<and>
     d_commits rep = 6"
proof -
  obtain ys t rep rows t' where
    t: "txn_beats demo_config 1 ([] @ [demo_beat [(demo_res 5 4 [], 1)] Start_Recording]) (new_txn_info 0 ''w'' False) = Inr (ys, t)"
      "txn_beat demo_config 1 (demo_beat [(demo_res 12 10 [7], 2)] Stop_Recording) t = Inr ((Some rep, rows), t')"
    using demo_run by auto
  have "d_commits rep = 6"
    using recorded_window [OF _ _ _ _ t] by (simp add: demo_beat_def demo_res_def)
  then show ?thesis using t by auto
qed

text \<open>
  (C24) The index of a reported percentile is always inside the sorted sample, and at most one place away from
  the nearest rank of the exact percentage, for every sample of fewer than \<open>2 ^ 50\<close> values.
\<close>

theorem percentile_index_bounds:
  assumes "p \<in> set g_percentage" "0 < n" "n < 2 ^ 50"
  shows "0 \<le> pct_index p n \<and> pct_index p n < int n \<and> \<bar>pct_index p n - (\<lceil>p * of_nat n\<rceil> - 1)\<bar> \<le> 1"
  using pct_index_range [OF g_percentage_range [OF assms(1)] assms(2)] pct_index_near [OF g_percentage_range [OF assms(1)] assms(2,3)]
    assms(3) by simp

theorem percentile_index_bounds_witness:
  "0 \<le> pct_index (flit (1 / 2)) 7 \<and> pct_index (flit (1 / 2)) 7 < int 7"
  using percentile_index_bounds [of "flit (1 / 2)" 7] by (simp add: g_percentage_def)

text \<open>
  (C39) One place is possible: the value reported as the 99.9 per cent latency of any 1000 sorted samples is the
  largest of them.  The factor is a little smaller than 0.999, so that its exact product with 1000 leads to the 999th
  value, at index 998; the products by 100 and 1000 round up to the next index.
\<close>

theorem percentile_999_of_1000:
  assumes "length xs = 1000" "sorted xs"
  shows "percentile (flit (999 / 1000)) xs = Inr (Max (set xs)) \<and> \<lceil>flit (999 / 1000) * of_nat (length xs)\<rceil> - 1 = 998"
proof -
  have "xs \<noteq> []" using assms(1) by auto
  then have "Max (set xs) = xs ! 999" using sorted_ends(2) [OF assms(2)] assms(1) by (simp add: last_conv_nth)
  moreover have "\<lceil>8998192055486251 / 2 ^ 53 * (1000 :: rat)\<rceil> = 999 + 1 - 1" by (rule ceiling_unique) simp_all
  ultimately show ?thesis
    using pct_index_1000 assms(1) unfolding percentile_def flit_999 by (simp add: py_nth_def py_index_def)
qed

theorem percentile_999_of_1000_witness:
  "percentile (flit (999 / 1000)) (map rat_of_nat [0..<1000]) = Inr 999"
proof -
  have "Max (set (map rat_of_nat [0..<1000])) = 999" by (rule Max_eqI) (auto simp: image_iff intro!: bexI [of _ 999])
  moreover have "sorted (map rat_of_nat [0..<1000])" by (simp add: sorted_map sorted_wrt_upt)
  ultimately show ?thesis using percentile_999_of_1000 [of "map rat_of_nat [0..<1000]"] by (simp del: upt_rec_numeral)
qed

text \<open>
  (C25) A report's latency block over a non-empty sample: the minimum and the maximum are those of the sample,
  every percentile is a value of the sample, and minimum, percentiles and maximum ascend.
\<close>

theorem report_latencies:
  assumes "print_mid config n t = Inr (rep, t')" "mid_latencies t \<noteq> []" "length (mid_latencies t) < 2 ^ 53"
  shows "lb_min (d_latency rep) = Min (set (mid_latencies t)) \<and> lb_max (d_latency rep) = Max (set (mid_latencies t)) \<and>
    set (lb_percentiles (d_latency rep)) \<subseteq> set (mid_latencies t) \<and>
    sorted (lb_min (d_latency rep) # lb_percentiles (d_latency rep) @ [lb_max (d_latency rep)])"
proof -
  let ?xs = "sort (mid_latencies t)"
  have xs: "?xs \<noteq> []" "length ?xs < 2 ^ 53" "sorted ?xs" "set ?xs = set (mid_latencies t)"
    using assms(2,3) by (simp_all add: sort_eq_Nil_iff)
  have "latency_block True ?xs = Inr (d_latency rep)"
    using assms(1,2) unfolding print_mid_def Let_def by (elim bindE_eq_InrE) auto
  then have d: "d_latency rep = \<lparr>lb_percentiles = map (\<lambda>p. ?xs ! nat (pct_index p (length ?xs))) g_percentage,
      lb_min = hd ?xs, lb_max = last ?xs, lb_avg = rnd (fsum ?xs / of_nat (length ?xs))\<rparr>"
    using latency_block_present [OF xs(1,2)] by simp
  have "hd ?xs \<le> last ?xs" using percentiles_within [OF xs(3,1,2), of "flit (1 / 2)"] by (auto simp: g_percentage_def)
  then have "sorted (hd ?xs # map (\<lambda>p. ?xs ! nat (pct_index p (length ?xs))) g_percentage @ [last ?xs])"
    using percentiles_sorted [OF xs(3,1,2)] percentiles_within [OF xs(3,1,2)] by (auto simp: sorted_append)
  moreover have "?xs ! nat (pct_index p (length ?xs)) \<in> set (mid_latencies t)" if "p \<in> set g_percentage" for p
    using percentile_nth(2) [OF that xs(1,2)] xs(4) nth_mem by metis
  moreover have "hd ?xs = Min (set (mid_latencies t))" "last ?xs = Max (set (mid_latencies t))"
    using sorted_ends [OF xs(3,1)] xs(4) by simp_all
  ultimately show ?thesis by (auto simp: d)
qed

theorem report_latencies_witness:
  "\<exists>rep t'. print_mid demo_config 1 (push_all [(demo_res 12 10 [7, 3], 2)] (set_mid_status (new_txn_info 0 ''w'' False))) = Inr (rep, t') \<and>
     lb_min (d_latency rep) = 3 \<and> lb_max (d_latency rep) = 7"
proof -
  let ?t = "push_all [(demo_res 12 10 [7, 3], 2)] (set_mid_status (new_txn_info 0 ''w'' False))"
  have p: "push_all [(r, i)] t = push_res r i t" for r i t by (simp add: push_all_def)
  have l: "mid_latencies ?t = [7, 3]" by (simp add: p op_fields push_res_fields demo_res_def)
  have x: "0 < mid_retry_exhausted ?t \<longrightarrow> mid_latencies ?t \<noteq> []" by (simp add: l)
  have "mid_retry_exhausted ?t = 0" by (simp add: p push_res_fields demo_res_def) (simp add: set_mid_status_def new_txn_info_def)
  then have "\<exists>rep t'. print_mid demo_config 1 ?t = Inr (rep, t')"
    by (intro print_mid_ok x) (simp_all add: p op_fields push_res_fields demo_res_def rnd_numeral)
  then obtain rep t' where r: "print_mid demo_config 1 ?t = Inr (rep, t')" by blast
  show ?thesis using report_latencies [OF r] r by (auto simp: l)
qed

text \<open>
  (C35) Computing table rows raises \<^verbatim>\<open>ZeroDivisionError\<close> exactly when the interval or the total time is zero, and
  nothing else; the remembered best interval stays well formed.
\<close>

theorem get_res_errors:
  assumes "max_ok t"
  shows "case get_res it tt sm ac ai t of
      Inl e \<Rightarrow> e = ZeroDivisionError \<and> (it = 0 \<or> tt = 0)
    | Inr (rows, t') \<Rightarrow> it \<noteq> 0 \<and> tt \<noteq> 0 \<and> max_ok t'"
proof (cases "it = 0 \<or> tt = 0")
  case True
  obtain c where "share (commit_txn t) ac = Inr c" using share_ok by blast
  then have "get_res it tt sm ac ai t = Inl ZeroDivisionError"
    using True by (cases "it = 0") (simp_all add: get_res_def rate_def fdiv_def Let_def)
  then show ?thesis using True by simp
next
  case False
  then show ?thesis using get_res_ok [OF assms, of it tt sm ac ai] by auto
qed

theorem get_res_errors_witness:
  "case get_res 1 0 True 5 5 (new_txn_info 0 ''w'' False) of
      Inl e \<Rightarrow> e = ZeroDivisionError \<and> ((1 :: rat) = 0 \<or> (0 :: rat) = 0)
    | Inr (rows, t') \<Rightarrow> (1 :: rat) \<noteq> 0 \<and> (0 :: rat) \<noteq> 0 \<and> max_ok t'"
  by (rule get_res_errors [OF max_ok_ops(1)])

end
