(* ===== verification/Py_Str.thy ===== *)
theory Py_Str
  imports Py_Prelude "HOL-Library.List_Lexorder" "HOL-Library.Char_ord"
begin

text \<open>
  The string operations of Python the scripts use: \<^verbatim>\<open>str\<close> of an integer, \<^verbatim>\<open>int\<close> of a string, splitting,
  searching and replacing.  Strings are lists of characters and compare in the order of their
  characters' codes.
\<close>

text \<open>Newline and quotes.\<close>

abbreviation "nl \<equiv> [CHR 0x0A]"
abbreviation "sq \<equiv> [CHR 0x27]"
abbreviation "dq \<equiv> [CHR 0x22]"

section \<open>Numbers in strings\<close>

definition digit_char :: "nat \<Rightarrow> char" where
  "digit_char d = char_of (48 + d)"

definition char_digit :: "char \<Rightarrow> nat option" where
  "char_digit c = (let n = of_char c :: nat in if 48 \<le> n \<and> n \<le> 57 then Some (n - 48) else None)"

fun str_of_nat :: "nat \<Rightarrow> string" where
  "str_of_nat n = (if n < 10 then [digit_char n] else str_of_nat (n div 10) @ [digit_char (n mod 10)])"

declare str_of_nat.simps [simp del]

definition str_of_int :: "int \<Rightarrow> string" where
  "str_of_int i = (if i < 0 then CHR ''-'' # str_of_nat (nat (- i)) else str_of_nat (nat i))"

text \<open>
  The digits of \<^verbatim>\<open>int(s)\<close>: at least one, single underscores allowed between digits.  The flag tells that
  the last character was a digit.
\<close>

fun read_digits :: "bool \<Rightarrow> nat \<Rightarrow> string \<Rightarrow> nat option" where
  "read_digits b n [] = (if b then Some n else None)"
| "read_digits b n (c # cs) =
     (if c = CHR ''_'' then (if b then read_digits False n cs else None)
      else case char_digit c of Some d \<Rightarrow> read_digits True (10 * n + d) cs | None \<Rightarrow> None)"

definition py_int :: "string \<Rightarrow> int res" where
  "py_int s =
     (let s = py_strip s;
          (sgn, s) = (case s of c # cs \<Rightarrow> if c = CHR ''-'' then (- 1, cs) else if c = CHR ''+'' then (1, cs) else (1, s) | [] \<Rightarrow> (1, s))
      in case read_digits False 0 s of Some n \<Rightarrow> Inr (sgn * int n) | None \<Rightarrow> Inl ValueError)"

lemma char_digit_digit_char [simp]: "d < 10 \<Longrightarrow> char_digit (digit_char d) = Some d"
  by (simp add: char_digit_def digit_char_def)

lemma digit_char_other: "d < 10 \<Longrightarrow> char_digit c = None \<Longrightarrow> digit_char d \<noteq> c"
  using char_digit_digit_char by fastforce

lemma char_digit_others [simp]:
  "char_digit CHR ''_'' = None" "char_digit CHR ''-'' = None" "char_digit CHR ''+'' = None" "char_digit CHR '':'' = None"
  "char_digit CHR '' '' = None"
  by (simp_all add: char_digit_def)

lemma str_of_nat_chars: "c \<in> set (str_of_nat n) \<Longrightarrow> \<exists>d < 10. c = digit_char d"
proof (induction n rule: str_of_nat.induct)
  case (1 n)
  have "\<exists>d < 10. digit_char (n mod 10) = digit_char d" by (rule exI [of _ "n mod 10"]) simp
  with 1 show ?case by (subst (asm) (2) str_of_nat.simps) (auto split: if_splits)
qed

lemma str_of_nat_not_Nil [simp]: "str_of_nat n \<noteq> []"
  by (subst str_of_nat.simps) simp

lemma char_digit_str: "c \<in> set (str_of_nat n) \<Longrightarrow> char_digit c \<noteq> None"
  using str_of_nat_chars by fastforce

lemma py_space_char_digit: "py_space c \<Longrightarrow> char_digit c = None"
  by (auto simp: py_space_def char_digit_def)

lemma read_digits_snoc_Some:
  assumes "read_digits b n s = Some m" "d < 10"
  shows "read_digits b n (s @ [digit_char d]) = Some (10 * m + d)"
  using assms digit_char_other [of d "CHR ''_''"]
  by (induction b n s rule: read_digits.induct) (auto split: option.splits if_splits)

lemma read_digits_str_of_nat: "read_digits False 0 (str_of_nat n) = Some n"
proof (induction n rule: str_of_nat.induct)
  case (1 n)
  have [simp]: "digit_char n \<noteq> CHR ''_''" if "n < 10" using that by (rule digit_char_other) simp
  show ?case
  proof (cases "n < 10")
    case False
    then have "read_digits False 0 (str_of_nat (n div 10) @ [digit_char (n mod 10)]) = Some (10 * (n div 10) + n mod 10)"
      using 1 by (intro read_digits_snoc_Some) auto
    then show ?thesis using False by (subst str_of_nat.simps) simp
  qed (subst str_of_nat.simps, simp)
qed

lemma strip_str_of_nat: "py_strip (str_of_nat n) = str_of_nat n"
proof (rule strip_edges)
  have "hd (str_of_nat n) \<in> set (str_of_nat n)" "last (str_of_nat n) \<in> set (str_of_nat n)" by simp_all
  then show "\<not> py_space (hd (str_of_nat n))" "\<not> py_space (last (str_of_nat n))"
    using char_digit_str py_space_char_digit by blast+
qed simp

lemma strip_minus_str_of_nat: "py_strip (CHR ''-'' # str_of_nat n) = CHR ''-'' # str_of_nat n"
proof (rule strip_edges)
  have "last (str_of_nat n) \<in> set (str_of_nat n)" by simp
  then show "\<not> py_space (last (CHR ''-'' # str_of_nat n))" using char_digit_str py_space_char_digit by fastforce
qed (simp_all add: py_space_def)

theorem py_int_str_of_int: "py_int (str_of_int i) = Inr i"
proof (cases "i < 0")
  case True
  then show ?thesis
    by (simp add: py_int_def str_of_int_def strip_minus_str_of_nat read_digits_str_of_nat)
next
  case False
  obtain c cs where c: "str_of_nat (nat i) = c # cs" by (cases "str_of_nat (nat i)") auto
  have "char_digit c \<noteq> None" using char_digit_str [of c "nat i"] by (simp add: c)
  then have "c \<noteq> CHR ''-''" "c \<noteq> CHR ''+''" by auto
  then have "py_int (str_of_nat (nat i)) = (case read_digits False 0 (str_of_nat (nat i)) of Some n \<Rightarrow> Inr (int n) | None \<Rightarrow> Inl ValueError)"
    unfolding py_int_def strip_str_of_nat by (simp add: c split: option.split)
  then show ?thesis using False by (simp add: str_of_int_def read_digits_str_of_nat)
qed

lemma str_of_int_inj: "str_of_int i = str_of_int j \<longleftrightarrow> i = j"
  by (metis py_int_str_of_int sum.inject(2))

lemma str_of_nat_int: "str_of_int (int n) = str_of_nat n"
  by (simp add: str_of_int_def)

lemma str_of_nat_inj: "str_of_nat m = str_of_nat n \<longleftrightarrow> m = n"
  using str_of_int_inj [of "int m" "int n"] by (simp add: str_of_nat_int)

section \<open>Splitting and replacing\<close>

text \<open>\<^verbatim>\<open>s.split(c)\<close> for one character: always at least one piece.\<close>

fun split_char :: "char \<Rightarrow> string \<Rightarrow> string list" where
  "split_char c [] = [[]]"
| "split_char c (x # xs) =
     (if x = c then [] # split_char c xs
      else case split_char c xs of p # ps \<Rightarrow> (x # p) # ps | [] \<Rightarrow> [[x]])"

lemma split_char_not_Nil [simp]: "split_char c s \<noteq> []"
  by (induction s) (auto split: list.split)

lemma split_char_none: "c \<notin> set s \<Longrightarrow> split_char c s = [s]"
  by (induction s) auto

lemma split_char_append: "c \<notin> set s \<Longrightarrow> split_char c (s @ c # t) = s # split_char c t"
  by (induction s) auto

lemma join_split_char: "py_join [c] (split_char c s) = s"
proof (induction s)
  case (Cons x xs)
  obtain p ps where p: "split_char c xs = p # ps" by (cases "split_char c xs") auto
  show ?case using Cons by (cases ps) (auto simp: p)
qed simp

lemma split_char_length: "length (split_char c s) = Suc (count_list s c)"
  by (induction s) (auto split: list.split)

text \<open>\<^verbatim>\<open>s.split()\<close>: the maximal runs of other characters than white space.\<close>

function split_ws :: "string \<Rightarrow> string list" where
  "split_ws s =
     (let s = dropWhile py_space s in
      if s = [] then [] else takeWhile (\<lambda>c. \<not> py_space c) s # split_ws (dropWhile (\<lambda>c. \<not> py_space c) s))"
  by pat_completeness auto
termination
proof (relation "measure length")
  fix s x :: string
  assume x: "x = dropWhile py_space s" "x \<noteq> []"
  then have "\<not> py_space (hd x)" by (simp add: hd_dropWhile)
  then have "length (dropWhile (\<lambda>c. \<not> py_space c) x) < length x"
    using x(2) by (cases x) (auto simp: le_imp_less_Suc length_dropWhile_le)
  also have "\<dots> \<le> length s" using x(1) by (simp add: length_dropWhile_le)
  finally show "(dropWhile (\<lambda>c. \<not> py_space c) x, s) \<in> measure length" by simp
qed simp

declare split_ws.simps [simp del]

text \<open>\<^verbatim>\<open>s.find(p)\<close> as an option, \<^verbatim>\<open>p in s\<close>, and \<^verbatim>\<open>s.replace(p, q)\<close> for a non-empty \<open>p\<close>.\<close>

fun py_find :: "string \<Rightarrow> string \<Rightarrow> nat option" where
  "py_find p [] = (if p = [] then Some 0 else None)"
| "py_find p (c # s) = (if startswith (c # s) p then Some 0 else map_option Suc (py_find p s))"

definition str_in :: "string \<Rightarrow> string \<Rightarrow> bool" where
  "str_in p s \<longleftrightarrow> py_find p s \<noteq> None"

function py_replace :: "string \<Rightarrow> string \<Rightarrow> string \<Rightarrow> string" where
  "py_replace p q [] = []"
| "py_replace p q (c # s) =
     (if p \<noteq> [] \<and> startswith (c # s) p then q @ py_replace p q (drop (length p) (c # s)) else c # py_replace p q s)"
  by pat_completeness auto
termination by (relation "measure (\<lambda>(p, q, s). length s)") (auto simp: Suc_le_eq)

definition endswith :: "string \<Rightarrow> string \<Rightarrow> bool" where
  "endswith s p \<longleftrightarrow> startswith (rev s) (rev p)"

text \<open>\<^verbatim>\<open>os.path.join\<close> of two parts.\<close>

definition path_join :: "string \<Rightarrow> string \<Rightarrow> string" where
  "path_join a b =
     (if startswith b ''/'' then b else if a = [] \<or> endswith a ''/'' then a @ b else a @ ''/'' @ b)"

lemma py_find_sound: "py_find p s = Some i \<Longrightarrow> startswith (drop i s) p"
  by (induction s arbitrary: i) (auto split: if_splits)

lemma str_in_iff: "str_in p s \<longleftrightarrow> sublist p s"
proof (induction s)
  case (Cons c s)
  then show ?case by (simp add: str_in_def sublist_Cons_right startswith_iff_prefix)
qed (simp add: str_in_def)

lemma startswith_map_rev: "endswith (s @ p) p"
  by (simp add: endswith_def)

end
