(* ===== verification/Py_Args.thy ===== *)
theory Py_Args
  imports Py_Str
begin

text \<open>
  Command lines as \<^verbatim>\<open>argparse\<close> reads them, once the line is cut into options with their values: a parser is a
  list of declared arguments, its result the dictionary of the namespace.  A value that does not convert,
  an unknown option and a missing required one end the program with status 2.
\<close>

datatype argval = ANone | AInt int | AStr string | ABool bool | AList "argval list"

datatype arg_kind =
    Store                   \<comment> \<open>one string\<close>
  | Store_Int               \<comment> \<open>\<^verbatim>\<open>type=int\<close>\<close>
  | Store_True
  | Append_Str              \<comment> \<open>\<^verbatim>\<open>action='append'\<close>\<close>
  | Many_Str                \<comment> \<open>\<^verbatim>\<open>nargs="+"\<close>\<close>
  | Many_Int
  | Choice "string list"

record arg_spec =
  a_flags :: "string list"
  a_dest :: string
  a_kind :: arg_kind
  a_default :: argval
  a_required :: bool

abbreviation "opt fl d k df \<equiv> \<lparr>a_flags = fl, a_dest = d, a_kind = k, a_default = df, a_required = False\<rparr>"

type_synonym namespace = "(string \<times> argval) list"

definition usage_error :: "'a res" where
  "usage_error = Inl (SystemExit 2)"

definition arg_int :: "string \<Rightarrow> argval res" where
  "arg_int s = (case py_int s of Inr i \<Rightarrow> Inr (AInt i) | Inl _ \<Rightarrow> usage_error)"

text \<open>The value an occurrence gives its destination, from the present one.\<close>

definition arg_value :: "arg_kind \<Rightarrow> string list \<Rightarrow> argval \<Rightarrow> argval res" where
  "arg_value k vs old =
     (case k of
        Store \<Rightarrow> (case vs of [v] \<Rightarrow> Inr (AStr v) | _ \<Rightarrow> usage_error)
      | Store_Int \<Rightarrow> (case vs of [v] \<Rightarrow> arg_int v | _ \<Rightarrow> usage_error)
      | Store_True \<Rightarrow> (if vs = [] then Inr (ABool True) else usage_error)
      | Append_Str \<Rightarrow>
          (case vs of
             [v] \<Rightarrow> Inr (AList ((case old of AList xs \<Rightarrow> xs | _ \<Rightarrow> []) @ [AStr v]))
           | _ \<Rightarrow> usage_error)
      | Many_Str \<Rightarrow> (if vs = [] then usage_error else Inr (AList (map AStr vs)))
      | Many_Int \<Rightarrow> (if vs = [] then usage_error else bindE (mapE arg_int vs) (\<lambda>xs. Inr (AList xs)))
      | Choice cs \<Rightarrow> (case vs of [v] \<Rightarrow> if v \<in> set cs then Inr (AStr v) else usage_error | _ \<Rightarrow> usage_error))"

definition find_spec :: "arg_spec list \<Rightarrow> string \<Rightarrow> arg_spec option" where
  "find_spec specs flag = find (\<lambda>s. flag \<in> set (a_flags s)) specs"

definition parse_one :: "arg_spec list \<Rightarrow> namespace \<Rightarrow> string \<times> string list \<Rightarrow> namespace res" where
  "parse_one specs ns occ =
     (case find_spec specs (fst occ) of
        None \<Rightarrow> usage_error
      | Some s \<Rightarrow>
          bindE (dict_get ns (a_dest s)) (\<lambda>old.
          bindE (arg_value (a_kind s) (snd occ) old) (\<lambda>v. Inr (AList.update (a_dest s) v ns))))"

definition defaults :: "arg_spec list \<Rightarrow> namespace" where
  "defaults specs = map (\<lambda>s. (a_dest s, a_default s)) specs"

definition parse_args :: "arg_spec list \<Rightarrow> (string \<times> string list) list \<Rightarrow> namespace res" where
  "parse_args specs line =
     bindE (foldE (parse_one specs) (defaults specs) line) (\<lambda>ns.
     if \<exists>s \<in> set specs. a_required s \<and> (\<forall>occ \<in> set line. fst occ \<notin> set (a_flags s)) then usage_error
     else Inr ns)"

text \<open>Reading an attribute of the namespace, and converting it.\<close>

definition arg_get :: "namespace \<Rightarrow> string \<Rightarrow> argval res" where
  "arg_get ns k = (case map_of ns k of Some v \<Rightarrow> Inr v | None \<Rightarrow> Inl AttributeError)"

definition arg_to_int :: "argval \<Rightarrow> int res" where
  "arg_to_int v =
     (case v of
        AInt i \<Rightarrow> Inr i
      | AStr s \<Rightarrow> py_int s
      | ABool b \<Rightarrow> Inr (if b then 1 else 0)
      | _ \<Rightarrow> Inl TypeError)"

fun py_repr :: "argval \<Rightarrow> string" where
  "py_repr ANone = ''None''"
| "py_repr (AInt i) = str_of_int i"
| "py_repr (AStr s) = CHR 0x27 # s @ [CHR 0x27]"
| "py_repr (ABool b) = (if b then ''True'' else ''False'')"
| "py_repr (AList xs) = ''['' @ py_join '', '' (map py_repr xs) @ '']''"

text \<open>\<^verbatim>\<open>str\<close> of a value; inside a list strings are quoted (those here hold no quote or backslash).\<close>

definition py_str :: "argval \<Rightarrow> string" where
  "py_str v = (case v of AStr s \<Rightarrow> s | _ \<Rightarrow> py_repr v)"

section \<open>Laws\<close>

lemma update_keys: "k \<in> fst ` set d \<Longrightarrow> map fst (AList.update k v d) = map fst d"
  by (induction d) auto

lemma parse_one_keys:
  assumes "parse_one specs ns occ = Inr ns'"
  shows "map fst ns' = map fst ns"
  using assms
  by (auto simp: parse_one_def bindE_eq_Inr_iff dict_get_Inr_iff usage_error_def split: option.splits
      intro!: update_keys dest!: map_of_SomeD intro: rev_image_eqI)

text \<open>The namespace has exactly the declared destinations.\<close>

lemma parse_args_keys:
  assumes "parse_args specs line = Inr ns"
  shows "map fst ns = map a_dest specs"
proof -
  from assms have f: "foldE (parse_one specs) (defaults specs) line = Inr ns"
    by (auto simp: parse_args_def bindE_eq_Inr_iff usage_error_def split: if_splits)
  have "map fst ns = map fst (defaults specs)"
    by (rule foldE_invariant [OF f, where P = "\<lambda>ns. map fst ns = map fst (defaults specs)"])
       (simp_all add: parse_one_keys)
  then show ?thesis by (simp add: defaults_def comp_def)
qed

lemma arg_get_missing:
  assumes "parse_args specs line = Inr ns" "k \<notin> a_dest ` set specs"
  shows "arg_get ns k = Inl AttributeError"
proof -
  have "set (map fst ns) = a_dest ` set specs" using parse_args_keys [OF assms(1)] by simp
  then have "map_of ns k = None" using assms(2) by (simp add: map_of_eq_None_iff)
  then show ?thesis by (simp add: arg_get_def)
qed

text \<open>The value of a destination that only plain \<open>Store\<close> options write is its default or a string.\<close>

lemma parse_args_store:
  assumes "parse_args specs line = Inr ns"
    and "\<And>s. s \<in> set specs \<Longrightarrow> a_dest s = k \<Longrightarrow> a_kind s = Store \<and> a_default s = df"
    and "k \<in> a_dest ` set specs"
  shows "\<exists>v. map_of ns k = Some v \<and> (v = df \<or> (\<exists>s. v = AStr s))"
proof -
  let ?P = "\<lambda>ns :: namespace. \<exists>v. map_of ns k = Some v \<and> (v = df \<or> (\<exists>s. v = AStr s))"
  from assms have f: "foldE (parse_one specs) (defaults specs) line = Inr ns"
    by (auto simp: parse_args_def bindE_eq_Inr_iff usage_error_def split: if_splits)
  show ?thesis
  proof (rule foldE_invariant [OF f, where P = ?P])
    have "k \<in> fst ` set (defaults specs)" using assms(3) by (force simp: defaults_def)
    then obtain v where v: "map_of (defaults specs) k = Some v" by (metis map_of_eq_None_iff not_None_eq)
    then have "(k, v) \<in> set (defaults specs)" by (rule map_of_SomeD)
    then have "v = df" using assms(2) by (auto simp: defaults_def)
    with v show "?P (defaults specs)" by simp
  next
    fix ns occ ns'
    assume P: "?P ns" and o: "parse_one specs ns occ = Inr ns'"
    from o obtain s old v where s: "find_spec specs (fst occ) = Some s" "arg_value (a_kind s) (snd occ) old = Inr v"
        "ns' = AList.update (a_dest s) v ns"
      by (auto simp: parse_one_def bindE_eq_Inr_iff usage_error_def split: option.splits)
    show "?P ns'"
    proof (cases "a_dest s = k")
      case True
      have "s \<in> set specs" using s(1) by (auto simp: find_spec_def find_Some_iff)
      then have "a_kind s = Store" using assms(2) True by blast
      then have "\<exists>x. v = AStr x" using s(2) by (auto simp: arg_value_def usage_error_def split: list.splits)
      then show ?thesis using True by (simp add: s(3) update_conv')
    next
      case False
      then show ?thesis using P by (simp add: s(3) update_conv')
    qed
  qed
qed

end
