(* ===== verification/Run_Sites.thy ===== *)
theory Run_Sites
  imports Py_Args Complex_Main "HOL-Library.Multiset"
begin

text \<open>
  The configuration half of \<^verbatim>\<open>run.py\<close>: the command line, \<^verbatim>\<open>TrialConfig\<close>, the processes and sites that
  \<^verbatim>\<open>get_process_info\<close> builds from the YAML configuration, and connecting to a site.  The dictionary
  \<^verbatim>\<open>process_infos\<close> owns the process objects, so a reference to a process is its name there; the class
  counters \<^verbatim>\<open>SiteInfo.id\<close> and \<^verbatim>\<open>ProcessInfo.id\<close> are part of the state.
\<close>

section \<open>The command line\<close>

definition run_parser :: "string \<Rightarrow> arg_spec list" where
  "run_parser log_dir =
     [opt [''-n'', ''--name''] ''experiment_name'' Store ANone,
      opt [''-id''] ''experiment_id'' Store (AStr ''-1''),
      opt [''-f'', ''--file''] ''config_files'' Append_Str (AList []),
      opt [''-P'', ''--port''] ''rpc_port'' Store (AInt 5555),
      opt [''-t'', ''--server-timeout''] ''s_timeout'' Store_Int (AInt 10),
      opt [''-i'', ''--status-time-interval''] ''c_timeout'' Store_Int (AInt 5),
      opt [''-w'', ''--wait''] ''wait'' Store_True (ABool False),
      opt [''-d'', ''--duration''] ''c_duration'' Store_Int (AInt 60),
      opt [''-S'', ''--single-server''] ''c_single_server'' Store (AInt 0),
      opt [''-T'', ''--taskset-schema''] ''s_taskset'' Store (AInt 2),
      opt [''-c'', ''--client-taskset''] ''c_taskset'' Store_True (ABool False),
      opt [''-l'', ''--log-dir''] ''log_dir'' Store (AStr log_dir),
      opt [''-r'', ''--recording-path''] ''recording_path'' Store (AStr ''''),
      opt [''-x'', ''--interest-txn''] ''interest_txn'' Store (AStr ''NEW ORDER''),
      opt [''-H'', ''--hosts''] ''hosts_path'' Store (AStr ''./config/hosts-local'')]"

section \<open>TrialConfig\<close>

record trial_config =
  t_s_timeout :: int
  t_c_timeout :: int
  t_c_duration :: int
  t_c_single_server :: int
  t_s_taskset :: int
  t_c_taskset :: argval
  t_config_path :: string
  t_hosts_path :: string
  t_recording_path :: string
  t_log_path :: string
  t_c_interest_txn :: string
  t_rpc_port :: int

definition int_opt :: "namespace \<Rightarrow> string \<Rightarrow> int res" where
  "int_opt ns k = bindE (arg_get ns k) arg_to_int"

text \<open>\<open>realpath\<close> is \<^verbatim>\<open>os.path.realpath\<close>, which takes strings only.\<close>

definition path_opt :: "(string \<Rightarrow> string) \<Rightarrow> namespace \<Rightarrow> string \<Rightarrow> string res" where
  "path_opt realpath ns k = bindE (arg_get ns k) (\<lambda>v. case v of AStr s \<Rightarrow> Inr (realpath s) | _ \<Rightarrow> Inl TypeError)"

definition new_trial_config :: "(string \<Rightarrow> string) \<Rightarrow> namespace \<Rightarrow> trial_config res" where
  "new_trial_config realpath options =
     bindE (int_opt options ''s_timeout'') (\<lambda>s_timeout.
     bindE (int_opt options ''c_timeout'') (\<lambda>c_timeout.
     bindE (int_opt options ''c_duration'') (\<lambda>c_duration.
     bindE (int_opt options ''c_single_server'') (\<lambda>c_single_server.
     bindE (int_opt options ''s_taskset'') (\<lambda>s_taskset.
     bindE (arg_get options ''c_taskset'') (\<lambda>c_taskset.
     bindE (path_opt realpath options ''config_path'') (\<lambda>config_path.
     bindE (path_opt realpath options ''hosts_path'') (\<lambda>hosts_path.
     bindE (path_opt realpath options ''recording_path'') (\<lambda>recording_path.
     bindE (path_opt realpath options ''log_dir'') (\<lambda>log_path.
     bindE (arg_get options ''interest_txn'') (\<lambda>interest.
     bindE (int_opt options ''rpc_port'') (\<lambda>rpc_port.
     Inr \<lparr>t_s_timeout = s_timeout, t_c_timeout = c_timeout, t_c_duration = c_duration,
          t_c_single_server = c_single_server, t_s_taskset = s_taskset, t_c_taskset = c_taskset,
          t_config_path = config_path, t_hosts_path = hosts_path, t_recording_path = recording_path,
          t_log_path = log_path, t_c_interest_txn = py_str interest, t_rpc_port = rpc_port\<rparr>))))))))))))"

definition check_correctness :: "(string \<Rightarrow> bool) \<Rightarrow> trial_config \<Rightarrow> bool" where
  "check_correctness exists c \<longleftrightarrow>
     (if t_c_single_server c \<notin> {0, 1, 2} then False
      else if \<not> exists (t_config_path c) then False
      else if \<not> exists (t_hosts_path c) then False
      else True)"

section \<open>Sites\<close>

abbreviation (input) "Client \<equiv> 1 :: int"
abbreviation (input) "Server \<equiv> 2 :: int"
abbreviation (input) "CTRL_PORT_DELTA \<equiv> 10000 :: int"

datatype site_kind = Kind_Name string | Kind_Code int

record site_info =
  s_id :: int
  s_process :: string
  s_name :: string
  s_type :: int
  s_port :: int
  s_rpc_port :: int
  s_rpc_proxy :: "nat option"

record process_info =
  p_id :: int
  p_name :: string
  p_host_address :: string
  p_rpc_port :: int
  p_client_rpc_proxy :: "nat option"
  p_sites :: "site_info list"

record counters =
  site_ctr :: int
  process_ctr :: int

definition new_counters :: counters where
  "new_counters = \<lparr>site_ctr = - 1, process_ctr = - 1\<rparr>"

definition next_site_id :: "counters \<Rightarrow> int \<times> counters" where
  "next_site_id k = (let i = site_ctr k + 1 in (i, k \<lparr>site_ctr := i\<rparr>))"

definition next_process_id :: "counters \<Rightarrow> int \<times> counters" where
  "next_process_id k = (let i = process_ctr k + 1 in (i, k \<lparr>process_ctr := i\<rparr>))"

definition new_site :: "string \<Rightarrow> string \<Rightarrow> site_kind \<Rightarrow> argval \<Rightarrow> counters \<Rightarrow> (site_info \<times> counters) res" where
  "new_site process site_name site_type port k =
     (let (i, k) = next_site_id k;
          ty = (case site_type of Kind_Name n \<Rightarrow> if n = ''client'' then Client else Server | Kind_Code c \<Rightarrow> c) in
      bindE (if site_type = Kind_Name ''client'' then bindE (arg_to_int port) (\<lambda>p. Inr (p, p))
             else if port \<noteq> ANone then bindE (arg_to_int port) (\<lambda>p. Inr (p, p + CTRL_PORT_DELTA))
             else Inl (SystemExit 1)) (\<lambda>(p, rp).
      Inr (\<lparr>s_id = i, s_process = process, s_name = site_name, s_type = ty, s_port = p, s_rpc_port = rp,
            s_rpc_proxy = None\<rparr>, k)))"

text \<open>
  The connection loop of \<^verbatim>\<open>connect_rpc\<close>.  \<open>att n\<close> is the result of the attempt number \<open>n\<close> and the seconds since the
  start when it is over; the loop is left by a success or by the time limit, \<open>None\<close> is no end within the fuel.
\<close>

fun connect_loop :: "rat \<Rightarrow> (nat \<Rightarrow> int \<times> rat) \<Rightarrow> nat \<Rightarrow> nat \<Rightarrow> unit res option" where
  "connect_loop timeout att 0 n = None"
| "connect_loop timeout att (Suc fuel) n =
     (case att n of (result, elapsed) \<Rightarrow>
        if timeout < elapsed then Some (Inl (RuntimeError ''rpc connect time out''))
        else if result \<noteq> 0 then connect_loop timeout att fuel (Suc n)
        else Some (Inr ()))"

definition connect_fuel :: "rat \<Rightarrow> nat" where
  "connect_fuel timeout = nat \<lceil>10 * timeout\<rceil> + 2"

text \<open>\<^verbatim>\<open>connect_rpc\<close>; \<open>proxy\<close> names the proxy object that is made when a new connection is needed.\<close>

definition connect_port :: "process_info \<Rightarrow> site_info \<Rightarrow> int" where
  "connect_port pr s = (if s_type s = Client then p_rpc_port pr else s_rpc_port s)"

definition connect_rpc ::
  "rat \<Rightarrow> (nat \<Rightarrow> int \<times> rat) \<Rightarrow> nat \<Rightarrow> process_info \<Rightarrow> site_info \<Rightarrow> (process_info \<times> site_info) res" where
  "connect_rpc timeout att proxy pr s =
     (if s_type s = Client \<and> p_client_rpc_proxy pr \<noteq> None then Inr (pr, s \<lparr>s_rpc_proxy := p_client_rpc_proxy pr\<rparr>)
      else case connect_loop timeout att (connect_fuel timeout) 0 of
          None \<Rightarrow> Inl Hang
        | Some (Inl e) \<Rightarrow> Inl e
        | Some (Inr _) \<Rightarrow>
            if s_type s = Client then Inr (pr \<lparr>p_client_rpc_proxy := Some proxy\<rparr>, s \<lparr>s_rpc_proxy := Some proxy\<rparr>)
            else Inr (pr, s \<lparr>s_rpc_proxy := Some proxy\<rparr>))"

section \<open>Processes\<close>

text \<open>\<^verbatim>\<open>rpc_port + self.id\<close>: adding an integer to a string raises.\<close>

definition add_id :: "argval \<Rightarrow> int \<Rightarrow> int res" where
  "add_id v i =
     (case v of AInt p \<Rightarrow> Inr (p + i) | ABool b \<Rightarrow> Inr ((if b then 1 else 0) + i) | _ \<Rightarrow> Inl TypeError)"

definition new_process :: "string \<Rightarrow> string \<Rightarrow> argval \<Rightarrow> counters \<Rightarrow> (process_info \<times> counters) res" where
  "new_process name address rpc_port k =
     (let (i, k) = next_process_id k in
      bindE (add_id rpc_port i) (\<lambda>p.
      Inr (\<lparr>p_id = i, p_name = name, p_host_address = address, p_rpc_port = p, p_client_rpc_proxy = None, p_sites = []\<rparr>, k)))"

definition add_site :: "string \<Rightarrow> string \<Rightarrow> argval \<Rightarrow> process_info \<times> counters \<Rightarrow> (process_info \<times> counters) res" where
  "add_site site_name site_type port x =
     (case x of (pr, k) \<Rightarrow>
        bindE (new_site (p_name pr) site_name (Kind_Name site_type) port k) (\<lambda>(obj, k).
        Inr (pr \<lparr>p_sites := p_sites pr @ [obj]\<rparr>, k)))"

definition client_sites_of :: "process_info \<Rightarrow> site_info list" where
  "client_sites_of pr = filter (\<lambda>s. s_type s = Client) (p_sites pr)"

definition server_sites_of :: "process_info \<Rightarrow> site_info list" where
  "server_sites_of pr = filter (\<lambda>s. s_type s = Server) (p_sites pr)"

type_synonym process_dict = "(string \<times> process_info) list"

definition get_sites :: "process_dict \<Rightarrow> int \<Rightarrow> site_info list" where
  "get_sites process_list site_type =
     (let m = (if site_type = Client then client_sites_of else server_sites_of) in
      concat (map (\<lambda>(_, process). m process) process_list))"

section \<open>get\_process\_info\<close>

record site_config =
  c_args :: namespace
  c_host :: "(string \<times> string) list"
  c_process :: "(string \<times> string) list"
  c_site :: "(string \<times> string list list) list"

definition add_process :: "site_config \<Rightarrow> process_dict \<times> counters \<Rightarrow> string \<times> string \<Rightarrow> (process_dict \<times> counters) res" where
  "add_process config st item =
     (case (st, item) of ((infos, k), (_, process_name)) \<Rightarrow>
        if process_name \<notin> fst ` set infos then
          bindE (dict_get (c_host config) process_name) (\<lambda>address.
          bindE (arg_get (c_args config) ''rpc_port'') (\<lambda>port.
          bindE (new_process process_name address port k) (\<lambda>(pr, k).
          Inr (AList.update process_name pr infos, k))))
        else Inr (infos, k))"

text \<open>\<^verbatim>\<open>site, port = site.split(':')\<close> when there is a colon.\<close>

definition site_and_port :: "site_config \<Rightarrow> string \<Rightarrow> (string \<times> argval) res" where
  "site_and_port config site =
     (if CHR '':'' \<in> set site then
        (case split_char (CHR '':'') site of [s, p] \<Rightarrow> Inr (s, AStr p) | _ \<Rightarrow> Inl ValueError)
      else bindE (int_opt (c_args config) ''rpc_port'') (\<lambda>p. Inr (site, AInt p)))"

definition place_site ::
  "site_config \<Rightarrow> string \<Rightarrow> process_dict \<times> counters \<Rightarrow> string \<Rightarrow> (process_dict \<times> counters) res" where
  "place_site config site_type st site =
     (case st of (infos, k) \<Rightarrow>
        bindE (site_and_port config site) (\<lambda>(site, port).
        bindE (dict_get (c_process config) site) (\<lambda>pn.
        bindE (dict_get infos pn) (\<lambda>pr.
        bindE (add_site site site_type port (pr, k)) (\<lambda>(pr, k).
        Inr (AList.update pn pr infos, k))))))"

definition place_sites :: "site_config \<Rightarrow> process_dict \<times> counters \<Rightarrow> string \<Rightarrow> (process_dict \<times> counters) res" where
  "place_sites config st site_type =
     bindE (dict_get (c_site config) site_type) (\<lambda>rows. foldE (place_site config site_type) st (concat rows))"

definition get_process_info :: "site_config \<Rightarrow> counters \<Rightarrow> (process_dict \<times> counters) res" where
  "get_process_info config k =
     bindE (foldE (add_process config) ([], k) (sort_key fst (c_process config))) (\<lambda>st.
     foldE (place_sites config) st [''server'', ''client''])"

section \<open>The connection loop ends\<close>

lemma connect_loop_end:
  assumes "\<And>n. of_nat n / 10 \<le> snd (att n)" "nat \<lceil>10 * timeout\<rceil> + 2 \<le> n + fuel" "0 < fuel"
  shows "\<exists>r. connect_loop timeout att fuel n = Some r \<and>
    (r = Inr () \<longleftrightarrow> (\<exists>m \<ge> n. fst (att m) = 0 \<and> (\<forall>j. n \<le> j \<and> j \<le> m \<longrightarrow> snd (att j) \<le> timeout)))"
  using assms(2,3)
proof (induction fuel arbitrary: n)
  case (Suc fuel)
  obtain result elapsed where a: "att n = (result, elapsed)" by force
  consider "timeout < elapsed" | "elapsed \<le> timeout" "result = 0" | "elapsed \<le> timeout" "result \<noteq> 0" by linarith
  then show ?case
  proof cases
    case 1
    then show ?thesis by (auto simp: a intro!: exI [of _ n])
  next
    case 2
    then show ?thesis by (auto simp: a intro!: exI [of _ n])
  next
    case 3
    have "of_nat n / 10 \<le> timeout" using assms(1) [of n] 3(1) by (simp add: a)
    then have "of_nat n \<le> 10 * timeout" by simp
    then have "int n \<le> \<lceil>10 * timeout\<rceil>" by (simp add: le_ceiling_iff order_less_le_trans)
    then have "0 < fuel" using Suc.prems(1) by linarith
    with Suc.IH [of "Suc n"] Suc.prems(1) obtain r where r: "connect_loop timeout att fuel (Suc n) = Some r"
      "r = Inr () \<longleftrightarrow> (\<exists>m \<ge> Suc n. fst (att m) = 0 \<and> (\<forall>j. Suc n \<le> j \<and> j \<le> m \<longrightarrow> snd (att j) \<le> timeout))" by auto
    have "(\<exists>m \<ge> n. fst (att m) = 0 \<and> (\<forall>j. n \<le> j \<and> j \<le> m \<longrightarrow> snd (att j) \<le> timeout)) \<longleftrightarrow>
      (\<exists>m \<ge> Suc n. fst (att m) = 0 \<and> (\<forall>j. Suc n \<le> j \<and> j \<le> m \<longrightarrow> snd (att j) \<le> timeout))"
      using 3 by (metis Suc_leD a fst_conv le_antisym not_less_eq_eq snd_conv)
    then show ?thesis using r 3 by (simp add: a)
  qed
qed simp

text \<open>
  (C29) Connecting to a site always ends.  If the attempts are at least a tenth of a second apart, which is what the
  pause between them gives, the loop returns; it returns success exactly when some attempt succeeds before
  any attempt has ended after the time limit, and raises \<^verbatim>\<open>RuntimeError\<close> otherwise.
\<close>

theorem connect_loop_terminates:
  assumes "\<And>n. of_nat n / 10 \<le> snd (att n)"
  shows "connect_loop timeout att (connect_fuel timeout) 0 =
    Some (if \<exists>m. fst (att m) = 0 \<and> (\<forall>j \<le> m. snd (att j) \<le> timeout) then Inr () else Inl (RuntimeError ''rpc connect time out''))"
proof -
  have l: "r = Inr () \<or> r = Inl (RuntimeError ''rpc connect time out'')"
    if "connect_loop timeout att fuel n = Some r" for fuel n r
    using that by (induction fuel arbitrary: n) (auto split: prod.splits if_splits)
  show ?thesis
    using connect_loop_end [OF assms, where fuel = "connect_fuel timeout" and n = 0 and timeout = timeout] l
    by (fastforce simp: connect_fuel_def)
qed

theorem connect_loop_terminates_witness:
  "connect_loop 2 (\<lambda>n. (if n = 3 then 0 else - 1, of_nat n / 10)) (connect_fuel 2) 0 = Some (Inr ())"
proof -
  let ?att = "\<lambda>n. (if n = 3 then 0 else - 1 :: int, of_nat n / 10 :: rat)"
  have "\<exists>m. fst (?att m) = 0 \<and> (\<forall>j \<le> m. snd (?att j) \<le> 2)" by (rule exI [of _ 3]) auto
  then show ?thesis using connect_loop_terminates [of ?att 2] by simp
qed

section \<open>Processes and sites\<close>

text \<open>What the later steps never change of a process object.\<close>

definition core :: "string \<times> process_info \<Rightarrow> string \<times> int \<times> string \<times> string \<times> int" where
  "core x = (case x of (n, p) \<Rightarrow> (n, p_id p, p_name p, p_host_address p, p_rpc_port p))"

definition numbered :: "site_config \<Rightarrow> int \<Rightarrow> process_dict \<times> counters \<Rightarrow> bool" where
  "numbered config port st \<longleftrightarrow>
     (case st of (infos, k) \<Rightarrow>
        distinct (map fst infos) \<and> process_ctr k = int (length infos) - 1 \<and>
        (\<forall>i < length infos. \<exists>n a. dict_get (c_host config) n = Inr a \<and> core (infos ! i) = (n, int i, n, a, port + int i)))"

lemma numbered_add_process:
  assumes "numbered config port st" "arg_get (c_args config) ''rpc_port'' = Inr (AInt port)" "add_process config st item = Inr st'"
  shows "numbered config port st'"
proof -
  obtain infos k x pn where st: "st = (infos, k)" "item = (x, pn)" by (metis surj_pair)
  show ?thesis
  proof (cases "pn \<in> fst ` set infos")
    case True
    then show ?thesis using assms by (simp add: add_process_def st)
  next
    case False
    with assms obtain a where a: "dict_get (c_host config) pn = Inr a" and
      st': "st' = (infos @ [(pn, \<lparr>p_id = int (length infos), p_name = pn, p_host_address = a,
        p_rpc_port = port + int (length infos), p_client_rpc_proxy = None, p_sites = []\<rparr>)], k \<lparr>process_ctr := int (length infos)\<rparr>)"
      by (auto simp: add_process_def st bindE_eq_Inr_iff new_process_def next_process_id_def add_id_def update_new
          numbered_def Let_def)
    show ?thesis
      using assms(1) a False by (auto simp: st st' numbered_def nth_append core_def less_Suc_eq)
  qed
qed

lemma place_site_core:
  assumes "place_site config ty (infos, k) site = Inr (infos', k')" "\<forall>x \<in> set infos. p_name (snd x) = fst x"
  obtains s p port pn pr where
    "site_and_port config site = Inr (s_name s, port)" "dict_get (c_process config) (s_name s) = Inr pn"
    "map_of infos pn = Some pr" "infos' = AList.update pn (pr \<lparr>p_sites := p_sites pr @ [s]\<rparr>) infos"
    "s_process s = pn" "s_type s = (if ty = ''client'' then Client else Server)"
    "process_ctr k' = process_ctr k" "s_id s = site_ctr k + 1" "site_ctr k' = site_ctr k + 1"
proof -
  from assms(1) obtain nm port pn pr p rp where *: "site_and_port config site = Inr (nm, port)"
      "dict_get (c_process config) nm = Inr pn" "dict_get infos pn = Inr pr"
      "infos' = AList.update pn (pr \<lparr>p_sites := p_sites pr @ [\<lparr>s_id = site_ctr k + 1, s_process = p_name pr, s_name = nm,
        s_type = (if ty = ''client'' then Client else Server), s_port = p, s_rpc_port = rp, s_rpc_proxy = None\<rparr>]\<rparr>) infos"
      "k' = k \<lparr>site_ctr := site_ctr k + 1\<rparr>"
    by (auto simp: place_site_def add_site_def new_site_def next_site_id_def Let_def elim!: bindE_eq_InrE
        split: if_splits)
  have pr: "map_of infos pn = Some pr" using *(3) by (simp add: dict_get_Inr_iff)
  then have "p_name pr = pn" using assms(2) by (metis fst_conv map_of_SomeD snd_conv)
  then show ?thesis
    by (intro that [where s = "\<lparr>s_id = site_ctr k + 1, s_process = p_name pr, s_name = nm,
        s_type = (if ty = ''client'' then Client else Server), s_port = p, s_rpc_port = rp, s_rpc_proxy = None\<rparr>"])
      (use * pr in simp_all)
qed

lemma update_core:
  assumes "map_of infos pn = Some pr" "core (pn, pr') = core (pn, pr)"
  shows "map core (AList.update pn pr' infos) = map core infos"
  using assms by (induction infos) (auto split: if_splits)

lemma get_sites_alt:
  assumes "ty \<in> {Client, Server}"
  shows "get_sites infos ty = concat (map (\<lambda>(_, p). filter (\<lambda>s. s_type s = ty) (p_sites p)) infos)"
  using assms by (auto simp: get_sites_def client_sites_of_def [abs_def] server_sites_of_def [abs_def])

lemma get_sites_update:
  assumes "map_of infos pn = Some pr" "ty \<in> {Client, Server}"
  shows "mset (get_sites (AList.update pn (pr \<lparr>p_sites := p_sites pr @ [s]\<rparr>) infos) ty) =
    mset (get_sites infos ty) + (if s_type s = ty then {#s#} else {#})"
  unfolding get_sites_alt [OF assms(2)] using assms(1) by (induction infos) (auto split: if_splits)

definition site_base :: "string \<Rightarrow> string" where
  "site_base site = hd (split_char (CHR '':'') site)"

lemma site_and_port_base: "site_and_port config site = Inr (nm, port) \<Longrightarrow> nm = site_base site"
  by (auto simp: site_and_port_def site_base_def split_char_none bindE_eq_Inr_iff split: if_splits list.splits)

abbreviation named :: "process_dict \<Rightarrow> bool" where
  "named infos \<equiv> \<forall>x \<in> set infos. p_name (snd x) = fst x"

definition placed :: "site_config \<Rightarrow> process_dict \<Rightarrow> bool" where
  "placed config infos \<longleftrightarrow>
     (\<forall>(n, p) \<in> set infos. \<forall>s \<in> set (p_sites p). s_process s = n \<and> map_of (c_process config) (s_name s) = Some n)"

lemma named_core:
  assumes "map core infos = map core infos'" "named infos"
  shows "named infos'"
proof
  have c: "p_name (snd x) = fst x \<longleftrightarrow> fst (core x) = fst (snd (snd (core x)))" for x :: "string \<times> process_info"
    by (cases x) (auto simp: core_def)
  fix x
  assume "x \<in> set infos'"
  then have "core x \<in> core ` set infos" using assms(1) by (metis image_eqI image_set)
  then obtain y where y: "y \<in> set infos" "core x = core y" by blast
  have "p_name (snd y) = fst y" using assms(2) y(1) by blast
  then show "p_name (snd x) = fst x" unfolding c y(2) .
qed

lemma update_set: "set (AList.update k v d) \<subseteq> insert (k, v) (set d)"
  by (induction d) auto

definition kind_code :: "string \<Rightarrow> int" where
  "kind_code ty = (if ty = ''client'' then Client else Server)"

lemma place_site_step:
  assumes "place_site config ty (infos, k) site = Inr (infos', k')" "named infos"
  shows "map core infos' = map core infos" "placed config infos \<Longrightarrow> placed config infos'"
    "\<And>t. t \<in> {Client, Server} \<Longrightarrow> mset (map s_name (get_sites infos' t)) =
      mset (map s_name (get_sites infos t)) + (if kind_code ty = t then {#site_base site#} else {#})"
proof -
  from place_site_core [OF assms] obtain s port pn pr where *:
    "site_and_port config site = Inr (s_name s, port)" "dict_get (c_process config) (s_name s) = Inr pn"
    "map_of infos pn = Some pr" "infos' = AList.update pn (pr \<lparr>p_sites := p_sites pr @ [s]\<rparr>) infos"
    "s_process s = pn" "s_type s = kind_code ty"
    unfolding kind_code_def by metis
  show "map core infos' = map core infos"
    unfolding *(4) by (rule update_core [OF *(3)]) (simp add: core_def)
  show "placed config infos'" if "placed config infos"
    using that update_set [of pn "pr \<lparr>p_sites := p_sites pr @ [s]\<rparr>" infos] *(2,5) map_of_SomeD [OF *(3)]
    by (fastforce simp: placed_def *(4) dict_get_Inr_iff)
  show "mset (map s_name (get_sites infos' t)) =
      mset (map s_name (get_sites infos t)) + (if kind_code ty = t then {#site_base site#} else {#})"
    if "t \<in> {Client, Server}" for t
    using get_sites_update [OF *(3) that, of s] site_and_port_base [OF *(1)] by (simp add: *(4,6))
qed

lemma place_site_fold:
  assumes "foldE (place_site config ty) (infos, k) sites = Inr (infos', k')" "named infos"
  shows "map core infos' = map core infos \<and> (placed config infos \<longrightarrow> placed config infos') \<and>
    (\<forall>t \<in> {Client, Server}. mset (map s_name (get_sites infos' t)) =
      mset (map s_name (get_sites infos t)) + (if kind_code ty = t then mset (map site_base sites) else {#}))"
  using assms
proof (induction sites arbitrary: infos k)
  case (Cons site sites)
  from Cons.prems(1) obtain infos1 k1 where 1: "place_site config ty (infos, k) site = Inr (infos1, k1)"
    "foldE (place_site config ty) (infos1, k1) sites = Inr (infos', k')" by (auto elim!: bindE_eq_InrE)
  note s = place_site_step [OF 1(1) Cons.prems(2)]
  have "named infos1" by (rule named_core [OF s(1) [symmetric] Cons.prems(2)])
  from Cons.IH [OF 1(2) this] s show ?case by auto
qed auto

lemma get_process_info_InrE:
  assumes "get_process_info config k = Inr (infos, k')"
  obtains infos0 k0 infos1 k1 srows crows where
    "foldE (add_process config) ([], k) (sort_key fst (c_process config)) = Inr (infos0, k0)"
    "dict_get (c_site config) ''server'' = Inr srows" "dict_get (c_site config) ''client'' = Inr crows"
    "foldE (place_site config ''server'') (infos0, k0) (concat srows) = Inr (infos1, k1)"
    "foldE (place_site config ''client'') (infos1, k1) (concat crows) = Inr (infos, k')"
  using assms by (auto simp: get_process_info_def place_sites_def elim!: bindE_eq_InrE)

text \<open>The processes before the sites are placed.\<close>

definition bare :: "string \<times> process_info \<Rightarrow> bool" where
  "bare x \<longleftrightarrow> p_name (snd x) = fst x \<and> p_sites (snd x) = []"

lemma add_process_bare:
  assumes "add_process config (infos, k) item = Inr (infos', k')" "list_all bare infos"
  shows "list_all bare infos'"
proof (cases "snd item \<in> fst ` set infos")
  case False
  with assms(1) obtain p where "infos' = infos @ [(snd item, p)]" "bare (snd item, p)"
    by (cases item)
      (auto simp: add_process_def new_process_def next_process_id_def Let_def update_new bare_def elim!: bindE_eq_InrE)
  then show ?thesis using assms(2) by simp
qed (use assms in \<open>cases item; simp add: add_process_def\<close>)

lemma new_processes:
  assumes "foldE (add_process config) ([], k) items = Inr (infos, k')"
  shows "named infos \<and> (\<forall>x \<in> set infos. p_sites (snd x) = [])"
proof -
  have "case (infos, k') of (infos, k) \<Rightarrow> list_all bare infos"
    by (rule foldE_invariant [OF assms, where P = "\<lambda>(infos, k). list_all bare infos"]) (auto intro: add_process_bare)
  then show ?thesis by (simp add: list_all_iff bare_def)
qed

text \<open>
  (C14) Every site of the configuration becomes exactly one site object, a server for each entry of the server rows and a
  client for each entry of the client rows, in the process that the configuration assigns it to.
\<close>

theorem every_site_placed:
  assumes "get_process_info config k = Inr (infos, k')"
    "map_of (c_site config) ''server'' = Some srows" "map_of (c_site config) ''client'' = Some crows"
  shows "mset (map s_name (get_sites infos Server)) = mset (map site_base (concat srows)) \<and>
    mset (map s_name (get_sites infos Client)) = mset (map site_base (concat crows)) \<and>
    (\<forall>(n, p) \<in> set infos. \<forall>s \<in> set (p_sites p). s_process s = n \<and> map_of (c_process config) (s_name s) = Some n)"
proof -
  obtain infos0 k0 infos1 k1 where *:
    "foldE (add_process config) ([], k) (sort_key fst (c_process config)) = Inr (infos0, k0)"
    "foldE (place_site config ''server'') (infos0, k0) (concat srows) = Inr (infos1, k1)"
    "foldE (place_site config ''client'') (infos1, k1) (concat crows) = Inr (infos, k')"
    by (rule get_process_info_InrE [OF assms(1)]) (use assms(2,3) in \<open>simp add: dict_get_def\<close>)
  note n = new_processes [OF *(1)]
  have e: "get_sites infos0 t = []" if "t \<in> {Client, Server}" for t
    using n by (auto simp: get_sites_alt [OF that])
  have p: "placed config infos0" using n by (auto simp: placed_def)
  note s = place_site_fold [OF *(2) conjunct1 [OF n]]
  have "named infos1" by (rule named_core [OF conjunct1 [OF s, symmetric] conjunct1 [OF n]])
  note c = place_site_fold [OF *(3) this]
  have "placed config infos" using s c p by blast
  then show ?thesis using s c e by (simp add: placed_def kind_code_def)
qed

definition demo_sites :: site_config where
  "demo_sites = \<lparr>c_args = [(''rpc_port'', AInt 5555)], c_host = [(''h1'', ''10.0.0.1''), (''h2'', ''10.0.0.2'')],
     c_process = [(''s2'', ''h2''), (''c1'', ''h1''), (''s1'', ''h1'')],
     c_site = [(''server'', [[''s1:8100'', ''s2:8101'']]), (''client'', [[''c1'']])]\<rparr>"

definition demo_infos :: process_dict where
  "demo_infos = (case get_process_info demo_sites new_counters of Inr (infos, k) \<Rightarrow> infos | Inl _ \<Rightarrow> [])"

lemma demo_infos_ok: "\<exists>k. get_process_info demo_sites new_counters = Inr (demo_infos, k)"
proof -
  have "(case get_process_info demo_sites new_counters of Inr _ \<Rightarrow> True | Inl _ \<Rightarrow> False)" by code_simp
  then show ?thesis by (auto simp: demo_infos_def split: sum.splits)
qed

theorem every_site_placed_witness:
  "mset (map s_name (get_sites demo_infos Server)) = {#''s1'', ''s2''#} \<and>
    mset (map s_name (get_sites demo_infos Client)) = {#''c1''#}"
proof -
  obtain k where "get_process_info demo_sites new_counters = Inr (demo_infos, k)" using demo_infos_ok by blast
  from every_site_placed [OF this, of "[[''s1:8100'', ''s2:8101'']]" "[[''c1'']]"]
  show ?thesis by (simp add: demo_sites_def site_base_def)
qed

lemma numbered_init: "numbered config port ([], new_counters)"
  by (simp add: numbered_def new_counters_def)

text \<open>
  (C15) With an integer base port the processes are numbered 0, 1, 2, ... in the order of \<^verbatim>\<open>process_infos\<close>, each knows
  its name and the host the configuration gives it, and its control port is the base port plus its number;
  so no two processes share a control port.
\<close>

theorem process_ports:
  assumes "get_process_info config new_counters = Inr (infos, k)" "arg_get (c_args config) ''rpc_port'' = Inr (AInt port)"
  shows "distinct (map (\<lambda>(n, p). p_rpc_port p) infos) \<and> distinct (map fst infos) \<and>
    (\<forall>i < length infos. case infos ! i of (n, p) \<Rightarrow>
       p_id p = int i \<and> p_name p = n \<and> map_of (c_host config) n = Some (p_host_address p) \<and> p_rpc_port p = port + int i)"
proof -
  obtain infos0 k0 infos1 k1 srows crows where *:
    "foldE (add_process config) ([], new_counters) (sort_key fst (c_process config)) = Inr (infos0, k0)"
    "foldE (place_site config ''server'') (infos0, k0) (concat srows) = Inr (infos1, k1)"
    "foldE (place_site config ''client'') (infos1, k1) (concat crows) = Inr (infos, k)"
    by (rule get_process_info_InrE [OF assms(1)])
  have num: "numbered config port (infos0, k0)"
    by (rule foldE_invariant [OF *(1), where P = "numbered config port"])
      (auto simp: numbered_init intro: numbered_add_process [OF _ assms(2)])
  have core: "map core infos = map core infos0"
    using new_processes [OF *(1)] place_site_fold [OF *(2)] place_site_fold [OF *(3)] named_core by metis
  have f: "map fst xs = map fst (map core xs)" for xs :: process_dict by (auto simp: core_def)
  have d: "distinct (map fst infos)" using num f [of infos] f [of infos0] core by (simp add: numbered_def)
  have n: "\<exists>n a. dict_get (c_host config) n = Inr a \<and> core (infos ! i) = (n, int i, n, a, port + int i)" if "i < length infos" for i
  proof -
    have l: "i < length infos0" using that map_eq_imp_length_eq [OF core] by simp
    have "core (infos ! i) = core (infos0 ! i)" using core that l by (metis nth_map)
    then show ?thesis using num l unfolding numbered_def by simp
  qed
  have i: "case infos ! i of (n, p) \<Rightarrow>
      p_id p = int i \<and> p_name p = n \<and> map_of (c_host config) n = Some (p_host_address p) \<and> p_rpc_port p = port + int i"
    if "i < length infos" for i
    using n [OF that] by (cases "infos ! i") (auto simp: core_def dict_get_Inr_iff)
  moreover have "distinct (map (\<lambda>(n, p). p_rpc_port p) infos)"
  proof -
    have "map (\<lambda>(n, p). p_rpc_port p) infos = map (\<lambda>i. port + int i) [0..<length infos]"
      using i by (intro nth_equalityI) (fastforce split: prod.splits)+
    then show ?thesis by (simp add: distinct_map inj_on_def)
  qed
  ultimately show ?thesis using d by blast
qed

theorem process_ports_witness: "map (\<lambda>(n, p). p_rpc_port p) demo_infos = [5555, 5556] \<and> distinct (map (\<lambda>(n, p). p_rpc_port p) demo_infos)"
proof -
  obtain k where k: "get_process_info demo_sites new_counters = Inr (demo_infos, k)" using demo_infos_ok by blast
  have "arg_get (c_args demo_sites) ''rpc_port'' = Inr (AInt 5555)" by (simp add: demo_sites_def arg_get_def)
  from process_ports [OF k this] have "distinct (map (\<lambda>(n, p). p_rpc_port p) demo_infos)" by simp
  moreover have "map (\<lambda>(n, p). p_rpc_port p) demo_infos = [5555, 5556]" by code_simp
  ultimately show ?thesis by simp
qed

lemma sort_key_fst_mset:
  fixes xs ys :: "('a :: linorder \<times> 'b) list"
  assumes "mset xs = mset ys" "distinct (map fst ys)"
  shows "sort_key fst xs = sort_key fst ys"
proof (rule map_sorted_distinct_set_unique)
  have s: "set xs = set ys" using assms(1) by (rule mset_eq_setD)
  then show "set (sort_key fst xs) = set (sort_key fst ys)" by simp
  show "inj_on fst (set (sort_key fst xs) \<union> set (sort_key fst ys))" using assms(2) s by (simp add: distinct_map)
  have "mset (map fst (sort_key fst xs)) = mset (map fst ys)" using assms(1) by simp
  then show "distinct (map fst (sort_key fst xs))" using assms(2) mset_eq_imp_distinct_iff by blast
  have "mset (map fst (sort_key fst ys)) = mset (map fst ys)" by simp
  then show "distinct (map fst (sort_key fst ys))" using assms(2) mset_eq_imp_distinct_iff by blast
qed simp_all

text \<open>
  (C16) The numbering does not depend on the order in which the configuration lists the processes: any reordering of
  the process table gives the same process objects with the same numbers and ports.
\<close>

theorem process_order_irrelevant:
  assumes "mset ps = mset (c_process config)" "distinct (map fst (c_process config))"
  shows "get_process_info (config \<lparr>c_process := ps\<rparr>) k = get_process_info config k"
proof -
  let ?c = "config \<lparr>c_process := ps\<rparr>"
  have "map_of ps = map_of (c_process config)"
    using assms by (metis mset_eq_setD mset_map map_of_inject_set mset_eq_imp_distinct_iff)
  then have "place_site ?c = place_site config"
    by (intro ext) (simp add: place_site_def site_and_port_def dict_get_def)
  then have "place_sites ?c = place_sites config" by (intro ext) (simp add: place_sites_def)
  moreover have "add_process ?c = add_process config" by (intro ext) (simp add: add_process_def split: prod.split)
  moreover have "sort_key fst ps = sort_key fst (c_process config)"
    by (rule sort_key_fst_mset [OF assms])
  ultimately show ?thesis by (simp add: get_process_info_def)
qed

theorem process_order_irrelevant_witness:
  "get_process_info (demo_sites \<lparr>c_process := [(''c1'', ''h1''), (''s1'', ''h1''), (''s2'', ''h2'')]\<rparr>) new_counters =
    get_process_info demo_sites new_counters"
  by (rule process_order_irrelevant) (simp_all add: demo_sites_def)

text \<open>A port given on the command line is a string.\<close>

lemma parse_port_string:
  assumes "parse_args (run_parser d) (line @ [(''-P'', [v])]) = Inr ns"
  shows "arg_get ns ''rpc_port'' = Inr (AStr v)"
proof -
  from assms obtain ns0 where "parse_one (run_parser d) ns0 (''-P'', [v]) = Inr ns"
    by (auto simp: parse_args_def foldE_append usage_error_def elim!: bindE_eq_InrE split: if_splits)
  then show ?thesis
    by (auto simp: parse_one_def find_spec_def run_parser_def arg_value_def arg_get_def update_conv' bindE_eq_Inr_iff)
qed

text \<open>
  (C34) A port given with \<^verbatim>\<open>-P\<close> stays a string, because the option has no integer type; with any process in the
  configuration, whose host is known, building the process table then raises \<^verbatim>\<open>TypeError\<close>.
\<close>

theorem port_option_fails:
  assumes "parse_args (run_parser d) (line @ [(''-P'', [v])]) = Inr (c_args config)" "c_process config \<noteq> []"
    "\<forall>(s, n) \<in> set (c_process config). n \<in> fst ` set (c_host config)"
  shows "get_process_info config k = Inl TypeError"
proof -
  let ?ps = "sort_key fst (c_process config)"
  obtain s n ps where ps: "?ps = (s, n) # ps"
    using assms(2) by (metis length_0_conv length_sort list.exhaust surj_pair)
  have "(s, n) \<in> set (c_process config)" using ps by (metis list.set_intros(1) set_sort)
  then have "n \<in> fst ` set (c_host config)" using assms(3) by blast
  then obtain a where "dict_get (c_host config) n = Inr a" by (metis dict_get_Inr_iff map_of_eq_None_iff not_None_eq)
  then have "add_process config ([], k) (s, n) = Inl TypeError"
    using parse_port_string [OF assms(1)] by (simp add: add_process_def new_process_def add_id_def split_def)
  then show ?thesis unfolding get_process_info_def ps by simp
qed

theorem port_option_fails_witness:
  "\<exists>ns. parse_args (run_parser ''log'') [(''-P'', [''6000''])] = Inr ns \<and>
    get_process_info (demo_sites \<lparr>c_args := ns\<rparr>) new_counters = Inl TypeError"
proof -
  have "(case parse_args (run_parser ''log'') [(''-P'', [''6000''])] of Inr _ \<Rightarrow> True | Inl _ \<Rightarrow> False)" by code_simp
  then obtain ns where ns: "parse_args (run_parser ''log'') [(''-P'', [''6000''])] = Inr ns" by (auto split: sum.splits)
  then show ?thesis
    using port_option_fails [of "''log''" "[]" "''6000''" "demo_sites \<lparr>c_args := ns\<rparr>" new_counters]
    by (simp add: demo_sites_def)
qed

text \<open>No namespace of the parser has the attribute \<^verbatim>\<open>config_path\<close> that \<^verbatim>\<open>TrialConfig\<close> reads.\<close>

lemma trial_config_unusable:
  assumes "parse_args (run_parser d) line = Inr ns"
  shows "\<exists>e. new_trial_config realpath ns = Inl e"
proof -
  have "arg_get ns ''config_path'' = Inl AttributeError"
    by (rule arg_get_missing [OF assms]) (simp add: run_parser_def)
  then have "path_opt realpath ns ''config_path'' = Inl AttributeError" by (simp add: path_opt_def)
  then show ?thesis unfolding new_trial_config_def by (auto simp: bindE_def split: sum.split)
qed

end
