(* ===== verification/Run_Client.thy ===== *)
theory Run_Client
  imports Run_Txn Run_Sites
begin

text \<open>
  Class \<^verbatim>\<open>ClientController\<close> of \<^verbatim>\<open>run.py\<close>: the loop that asks every client process for its statistics until all
  have finished, feeds them to the \<^verbatim>\<open>TxnInfo\<close> objects, and decides from the progress when to record.  A
  heartbeat's input is the list of answers (the calls that could be sent, in order) and the clock.
\<close>

section \<open>State and input\<close>

text \<open>The answer of one client process.\<close>

record client_res =
  cr_txn_info :: "(int \<times> txn_res) list"
  cr_run_sec :: int
  cr_run_nsec :: int
  cr_period_sec :: int
  cr_period_nsec :: int
  cr_n_asking :: int
  cr_is_finish :: int

record ctl =
  config :: mid_config
  duration :: int
  interest_txn :: string
  txn_names :: "(int \<times> string) list"
  num_proxies :: nat
  finish_set :: "nat list"
  txn_infos :: "(int \<times> txn_info) list"
  start_time :: rat
  c_pre_start_txn :: int
  c_start_txn :: int
  c_pre_total_txn :: int
  c_total_txn :: int
  c_pre_total_try :: int
  c_total_try :: int
  c_pre_commit_txn :: int
  c_commit_txn :: int
  run_sec :: rat
  pre_run_sec :: rat
  run_nsec :: rat
  pre_run_nsec :: rat
  n_asking :: int
  recording_period :: bool
  do_sample :: int

abbreviation one_billion :: rat where
  "one_billion \<equiv> 1000000000"

text \<open>
  The constructor.  The names of the transaction types, the number of proxies and the starting time are
  set by \<^verbatim>\<open>client_run\<close> and the methods it calls.
\<close>

definition new_ctl :: "mid_config \<Rightarrow> int \<Rightarrow> string \<Rightarrow> ctl" where
  "new_ctl cfg dur intr =
     \<lparr>config = cfg, duration = dur, interest_txn = intr, txn_names = [], num_proxies = 0, finish_set = [],
      txn_infos = [], start_time = 0, c_pre_start_txn = 0, c_start_txn = 0, c_pre_total_txn = 0, c_total_txn = 0,
      c_pre_total_try = 0, c_total_try = 0, c_pre_commit_txn = 0, c_commit_txn = 0, run_sec = 0, pre_run_sec = 0,
      run_nsec = 0, pre_run_nsec = 0, n_asking = 0, recording_period = False, do_sample = 0\<rparr>"

section \<open>Adding the answers\<close>

definition clear_all :: "ctl \<Rightarrow> ctl" where
  "clear_all c =
     c \<lparr>txn_infos := map (\<lambda>(k, t). (k, clear t)) (txn_infos c), c_start_txn := 0, c_total_txn := 0, c_total_try := 0,
        c_commit_txn := 0, run_sec := 0, run_nsec := 0\<rparr>"

definition add_txn :: "rat \<Rightarrow> ctl \<Rightarrow> int \<times> txn_res \<Rightarrow> ctl res" where
  "add_txn period_time c x =
     (case x of (ty, r) \<Rightarrow>
        bindE (case map_of (txn_infos c) ty of
            Some t \<Rightarrow> Inr t
          | None \<Rightarrow> bindE (dict_get (txn_names c) ty) (\<lambda>name. Inr (new_txn_info ty name (name = interest_txn c)))) (\<lambda>t.
        Inr (c \<lparr>c_start_txn := c_start_txn c + r_start r, c_total_txn := c_total_txn c + r_total r,
                c_total_try := c_total_try c + r_try r, c_commit_txn := c_commit_txn c + r_commit r,
                txn_infos := AList.update ty (push_res r period_time t) (txn_infos c)\<rparr>)))"

definition period_of :: "client_res \<Rightarrow> rat" where
  "period_of res = fadd (float_of (cr_period_sec res)) (rnd (float_of (cr_period_nsec res) / one_billion))"

text \<open>
  One answer; \<open>None\<close> is what \<^verbatim>\<open>future.result\<close> gives after an error, and reading its fields raises.  The times
  are summed as integers and divided at the end.
\<close>

definition add_answer :: "ctl \<times> nat \<Rightarrow> client_res option \<Rightarrow> (ctl \<times> nat) res" where
  "add_answer s a =
     (case s of (c, i) \<Rightarrow>
        case a of
          None \<Rightarrow> Inl AttributeError
        | Some res \<Rightarrow>
            bindE (foldE (add_txn (period_of res)) c (cr_txn_info res)) (\<lambda>c.
            Inr (c \<lparr>run_sec := run_sec c + of_int (cr_run_sec res), run_nsec := run_nsec c + of_int (cr_run_nsec res),
                    n_asking := n_asking c + cr_n_asking res,
                    finish_set := (if cr_is_finish res = 1 \<and> i \<notin> set (finish_set c) then finish_set c @ [i] else finish_set c)\<rparr>,
                 i + 1)))"

definition gather :: "client_res option list \<Rightarrow> ctl \<Rightarrow> ctl res" where
  "gather answers c =
     bindE (foldE add_answer (clear_all c, 0) answers) (\<lambda>(c, i).
     if answers = [] then Inl (SystemExit 1)
     else Inr (c \<lparr>run_sec := rnd (run_sec c / of_nat (length answers)), run_nsec := rnd (run_nsec c / of_nat (length answers))\<rparr>))"

section \<open>One stage\<close>

definition interval_time :: "ctl \<Rightarrow> rat" where
  "interval_time c =
     fadd (fsub (run_sec c) (pre_run_sec c)) (rnd (fsub (run_nsec c) (pre_run_nsec c) / one_billion))"

definition total_time :: "ctl \<Rightarrow> rat" where
  "total_time c = fadd (run_sec c) (rnd (run_nsec c / one_billion))"

definition progress :: "ctl \<Rightarrow> int res" where
  "progress c = bindE (fdiv (fmul 100 (total_time c)) (float_of (duration c))) (\<lambda>x. Inr (py_round x))"

text \<open>Starting and stopping the recording; \<open>phase\<close> tells what happens, the reports are those of the end.\<close>

definition stage_phase :: "int \<Rightarrow> ctl \<Rightarrow> phase" where
  "stage_phase p c =
     (if \<not> recording_period c then (if 10 \<le> p \<and> p \<le> 90 then Start_Recording else Keep)
      else if 90 \<le> p then Stop_Recording else Keep)"

definition map_infos :: "(txn_info \<Rightarrow> ('a \<times> txn_info) res) \<Rightarrow> (int \<times> txn_info) list \<Rightarrow> ('a list \<times> (int \<times> txn_info) list) res" where
  "map_infos f xs =
     bindE (mapE (\<lambda>(k, t). bindE (f t) (\<lambda>(a, t). Inr (a, k, t))) xs) (\<lambda>ys. Inr (map fst ys, map snd ys))"

definition stage_record :: "int \<Rightarrow> ctl \<Rightarrow> (mid_report list \<times> ctl) res" where
  "stage_record p c =
     (case stage_phase p c of
        Keep \<Rightarrow> Inr ([], c)
      | Start_Recording \<Rightarrow>
          Inr ([], c \<lparr>recording_period := True, do_sample := 1, txn_infos := map (\<lambda>(k, t). (k, set_mid_status t)) (txn_infos c)\<rparr>)
      | Stop_Recording \<Rightarrow>
          bindE (map_infos (print_mid (config c) (int (num_proxies c))) (txn_infos c)) (\<lambda>(reps, infos).
          Inr (reps, c \<lparr>recording_period := False, do_sample := 1, txn_infos := map (\<lambda>(k, t). (k, set_mid_status t)) infos\<rparr>)))"

record stage_out =
  o_progress :: int
  o_reports :: "mid_report list"
  o_total_table :: "cell list list"
  o_interval_table :: "cell list list"

definition stage_tables :: "ctl \<Rightarrow> ((cell list list \<times> cell list list) \<times> ctl) res" where
  "stage_tables c =
     (let it = interval_time c; tt = total_time c; ic = c_commit_txn c - c_pre_commit_txn c in
      bindE (map_infos (get_res it tt (recording_period c) (c_commit_txn c) ic) (txn_infos c)) (\<lambda>(rows, infos).
      bindE (rate (c_commit_txn c) tt) (\<lambda>total_tps.
      bindE (rate ic it) (\<lambda>interval_tps.
      Inr ((map fst rows @ [[CStr ''----'', CStr ''Total'', CInt (c_start_txn c), CInt (c_total_txn c), CInt (c_total_try c),
                             CInt (c_commit_txn c), CInt total_tps]],
            map snd rows @ [[CStr ''----'', CStr ''Total'', CInt (c_start_txn c - c_pre_start_txn c),
                             CInt (c_total_txn c - c_pre_total_txn c), CInt (c_total_try c - c_pre_total_try c),
                             CInt ic, CInt interval_tps]
                             @ map (\<lambda>_. CFloat 0) g_percentage @ map (\<lambda>_. CFloat 0) g_percentage]),
           c \<lparr>txn_infos := infos\<rparr>)))))"

definition print_stage_result :: "rat \<Rightarrow> ctl \<Rightarrow> (bool \<times> stage_out \<times> ctl) res" where
  "print_stage_result cur_time c =
     bindE (progress c) (\<lambda>p.
     bindE (stage_record p c) (\<lambda>(reps, c).
     bindE (stage_tables c) (\<lambda>((tot, ivl), c).
     Inr (fmul (flit (3 / 2)) (float_of (duration c)) < fsub cur_time (start_time c),
          \<lparr>o_progress = p, o_reports = reps, o_total_table = tot, o_interval_table = ivl\<rparr>,
          c \<lparr>c_pre_start_txn := c_start_txn c, c_pre_total_txn := c_total_txn c, c_pre_total_try := c_total_try c,
             c_pre_commit_txn := c_commit_txn c, pre_run_sec := run_sec c, pre_run_nsec := run_nsec c\<rparr>))))"

section \<open>The loop\<close>

definition heartbeat :: "client_res option list \<Rightarrow> rat \<Rightarrow> ctl \<Rightarrow> (bool \<times> stage_out \<times> ctl) res" where
  "heartbeat answers cur_time c = bindE (gather answers c) (print_stage_result cur_time)"

text \<open>The \<^verbatim>\<open>while\<close> loop over the heartbeats that happen; the flag tells that the loop was left.\<close>

fun benchmark_record :: "(client_res option list \<times> rat) list \<Rightarrow> ctl \<Rightarrow> (bool \<times> stage_out list \<times> ctl) res" where
  "benchmark_record inputs c =
     (if num_proxies c = length (finish_set c) then Inr (True, [], c)
      else case inputs of
          [] \<Rightarrow> Inr (False, [], c)
        | (answers, now) # inputs \<Rightarrow>
            bindE (heartbeat answers now c) (\<lambda>(need_break, out, c).
            if need_break then Inr (True, [out], c)
            else bindE (benchmark_record inputs c) (\<lambda>(left, outs, c). Inr (left, out # outs, c))))"

declare benchmark_record.simps [simp del]

text \<open>
  \<^verbatim>\<open>client_run\<close>.  Connecting to the sites in turn: \<open>conn i\<close> describes the attempts for the site number \<open>i\<close>, whose
  new proxy is named \<open>i\<close>; process objects and their site objects are updated in the process table.
\<close>

definition store_site :: "process_info \<Rightarrow> site_info \<Rightarrow> process_dict \<Rightarrow> process_dict" where
  "store_site pr s infos =
     AList.update (s_process s) (pr \<lparr>p_sites := map (\<lambda>x. if s_id x = s_id s then s else x) (p_sites pr)\<rparr>) infos"

definition connect_site :: "rat \<Rightarrow> (nat \<Rightarrow> nat \<Rightarrow> int \<times> rat) \<Rightarrow> process_dict \<times> nat \<Rightarrow> site_info \<Rightarrow> (process_dict \<times> nat) res" where
  "connect_site timeout conn st s =
     (case st of (infos, i) \<Rightarrow>
        bindE (dict_get infos (s_process s)) (\<lambda>pr.
        bindE (connect_rpc timeout (conn i) i pr s) (\<lambda>(pr, s).
        Inr (store_site pr s infos, i + 1))))"

definition connect_sites :: "rat \<Rightarrow> (nat \<Rightarrow> nat \<Rightarrow> int \<times> rat) \<Rightarrow> int \<Rightarrow> process_dict \<Rightarrow> process_dict res" where
  "connect_sites timeout conn ty infos =
     bindE (foldE (connect_site timeout conn) (infos, 0) (get_sites infos ty)) (\<lambda>(infos, i). Inr infos)"

text \<open>The set of client proxies, as \<^verbatim>\<open>start_client\<close> and \<^verbatim>\<open>benchmark_record\<close> collect it.\<close>

definition client_proxies :: "process_dict \<Rightarrow> nat option list res" where
  "client_proxies infos =
     bindE (mapE (\<lambda>s. bindE (dict_get infos (s_process s)) (\<lambda>pr. Inr (p_client_rpc_proxy pr))) (get_sites infos Client)) (\<lambda>ps.
     Inr (remdups ps))"

text \<open>
  \<open>ready\<close> and \<open>started\<close> are the outcomes of waiting for the clients to be ready and to have started, \<open>names\<close> the answer about
  transaction names, \<open>now\<close> the clock after the start.
\<close>

definition client_run ::
  "(nat \<Rightarrow> nat \<Rightarrow> int \<times> rat) \<Rightarrow> unit res \<Rightarrow> (int \<times> string) list res \<Rightarrow> unit res \<Rightarrow> rat \<Rightarrow>
    (client_res option list \<times> rat) list \<Rightarrow> process_dict \<Rightarrow> ctl \<Rightarrow> (bool \<times> stage_out list \<times> ctl) res" where
  "client_run conn ready names started now inputs infos c =
     bindE (connect_sites 30 conn Client infos) (\<lambda>infos.
     bindE ready (\<lambda>_.
     bindE (py_nth (get_sites infos Client) 0) (\<lambda>_.
     bindE names (\<lambda>res.
     bindE started (\<lambda>_.
     bindE (client_proxies infos) (\<lambda>rpc_proxy.
     benchmark_record inputs
       (c \<lparr>txn_names := foldl (\<lambda>d (k, v). AList.update k v d) (txn_names c) res, start_time := now,
           num_proxies := length rpc_proxy\<rparr>)))))))"

section \<open>The answers reach the statistics\<close>

text \<open>The reports a list of answers holds for one transaction type, in order.\<close>

definition reports_of :: "int \<Rightarrow> client_res option list \<Rightarrow> (txn_res \<times> rat) list" where
  "reports_of k answers =
     concat (map (\<lambda>a. case a of None \<Rightarrow> [] | Some res \<Rightarrow>
       map (\<lambda>(ty, r). (r, period_of res)) (filter (\<lambda>(ty, r). ty = k) (cr_txn_info res))) answers)"

lemma push_all_append: "push_all (xs @ ys) t = push_all ys (push_all xs t)"
  by (simp add: push_all_def)

lemma push_all_single: "push_all [(r, i)] t = push_res r i t"
  by (simp add: push_all_def)

lemma add_txn_known:
  assumes "add_txn p c (ty, r) = Inr c'" "map_of (txn_infos c) k = Some t"
  shows "map_of (txn_infos c') k = Some (if ty = k then push_res r p t else t)"
  using assms by (auto simp: add_txn_def update_conv' elim!: bindE_eq_InrE split: option.splits)

lemma add_txns_known:
  assumes "foldE (add_txn p) c xs = Inr c'" "map_of (txn_infos c) k = Some t"
  shows "map_of (txn_infos c') k = Some (push_all (map (\<lambda>(ty, r). (r, p)) (filter (\<lambda>(ty, r). ty = k) xs)) t)"
  using assms
proof (induction xs arbitrary: c t)
  case (Cons x xs)
  obtain ty r where x: "x = (ty, r)" by force
  from Cons.prems(1) obtain c1 where c1: "add_txn p c (ty, r) = Inr c1" "foldE (add_txn p) c1 xs = Inr c'"
    by (auto simp: x elim: bindE_eq_InrE)
  show ?case
    using Cons.IH [OF c1(2) add_txn_known [OF c1(1) Cons.prems(2)]] by (auto simp: x push_all_def)
qed (simp add: push_all_def)

lemma add_answers_known:
  assumes "foldE add_answer (c, i) answers = Inr (c', j)" "map_of (txn_infos c) k = Some t"
  shows "map_of (txn_infos c') k = Some (push_all (reports_of k answers) t)"
  using assms
proof (induction answers arbitrary: c i t)
  case (Cons a answers)
  from Cons.prems(1) obtain c1 i1 where c1: "add_answer (c, i) a = Inr (c1, i1)" "foldE add_answer (c1, i1) answers = Inr (c', j)"
    by (auto elim!: bindE_eq_InrE)
  then obtain res c2 where res: "a = Some res" "foldE (add_txn (period_of res)) c (cr_txn_info res) = Inr c2" "txn_infos c1 = txn_infos c2"
    by (auto simp: add_answer_def elim!: bindE_eq_InrE split: option.splits)
  have "map_of (txn_infos c1) k = Some (push_all (reports_of k [a]) t)"
    using add_txns_known [OF res(2) Cons.prems(2)] by (simp add: res(1,3) reports_of_def)
  from Cons.IH [OF c1(2) this] show ?case
    by (simp add: reports_of_def push_all_append)
qed (simp add: reports_of_def push_all_def)

lemma map_of_map_snd: "map_of (map (\<lambda>(k, t). (k, f t)) xs) k = map_option f (map_of xs k)"
  by (induction xs) auto

lemma gather_known:
  assumes "gather answers c = Inr c'" "map_of (txn_infos c) k = Some t"
  shows "map_of (txn_infos c') k = Some (push_all (reports_of k answers) (clear t))"
proof -
  from assms(1) obtain c1 i where c1: "foldE add_answer (clear_all c, 0) answers = Inr (c1, i)" "txn_infos c' = txn_infos c1"
    by (auto simp: gather_def elim!: bindE_eq_InrE split: if_splits)
  have "map_of (txn_infos (clear_all c)) k = Some (clear t)" using assms(2) by (simp add: clear_all_def map_of_map_snd)
  from add_answers_known [OF c1(1) this] show ?thesis by (simp add: c1(2))
qed

text \<open>The fields that adding answers does not touch.\<close>

definition frame :: "ctl \<Rightarrow> mid_config \<times> nat \<times> bool \<times> int \<times> rat" where
  "frame c = (config c, num_proxies c, recording_period c, duration c, start_time c)"

lemma add_txn_frame: "add_txn p c x = Inr c' \<Longrightarrow> frame c' = frame c \<and> finish_set c' = finish_set c"
  by (cases x) (auto simp: add_txn_def frame_def elim!: bindE_eq_InrE)

lemma add_txns_frame:
  assumes "foldE (add_txn p) c xs = Inr c'"
  shows "frame c' = frame c \<and> finish_set c' = finish_set c"
  by (rule foldE_invariant [OF assms, where P = "\<lambda>c'. frame c' = frame c \<and> finish_set c' = finish_set c"])
    (auto dest: add_txn_frame)

lemma add_answer_InrE:
  assumes "add_answer (c, i) a = Inr (c', j)"
  obtains res where "a = Some res" "j = i + 1" "frame c' = frame c"
    "finish_set c' = (if cr_is_finish res = 1 \<and> i \<notin> set (finish_set c) then finish_set c @ [i] else finish_set c)"
proof -
  from assms obtain res c1 where r: "a = Some res" "j = i + 1" "foldE (add_txn (period_of res)) c (cr_txn_info res) = Inr c1"
    "frame c' = frame c1"
    "finish_set c' = (if cr_is_finish res = 1 \<and> i \<notin> set (finish_set c1) then finish_set c1 @ [i] else finish_set c1)"
    by (cases a) (auto simp: add_answer_def frame_def elim!: bindE_eq_InrE)
  with add_txns_frame [OF r(3)] show ?thesis by (intro that [OF r(1,2)]) simp_all
qed

lemma gather_frame:
  assumes "gather answers c = Inr c'"
  shows "frame c' = frame c"
proof -
  from assms obtain c1 i where c1: "foldE add_answer (clear_all c, 0) answers = Inr (c1, i)" "frame c' = frame c1"
    by (auto simp: gather_def frame_def elim!: bindE_eq_InrE split: if_splits)
  have "case (c1, i) of (c1, i) \<Rightarrow> frame c1 = frame c"
    by (rule foldE_invariant [OF c1(1), where P = "\<lambda>(c1, i). frame c1 = frame c"])
      (auto simp: clear_all_def frame_def [of "clear_all c"] elim!: add_answer_InrE, simp_all add: frame_def)
  then show ?thesis using c1(2) by simp
qed

lemma map_infos_Inr:
  assumes "map_infos f xs = Inr (as, ys)"
  shows "list_all2 (\<lambda>x (a, y). fst y = fst x \<and> f (snd x) = Inr (a, snd y)) xs (zip as ys)" "length as = length ys"
proof -
  from assms obtain zs where z: "mapE (\<lambda>(k, t). bindE (f t) (\<lambda>(a, t). Inr (a, k, t))) xs = Inr zs" "as = map fst zs" "ys = map snd zs"
    by (auto simp: map_infos_def elim!: bindE_eq_InrE)
  have "zip as ys = zs" by (simp add: z(2,3) zip_map_fst_snd)
  moreover have "list_all2 (\<lambda>x (a, y). fst y = fst x \<and> f (snd x) = Inr (a, snd y)) xs zs"
    using z(1) unfolding mapE_eq_Inr_iff by (rule list_all2_mono) (auto elim!: bindE_eq_InrE)
  ultimately show "list_all2 (\<lambda>x (a, y). fst y = fst x \<and> f (snd x) = Inr (a, snd y)) xs (zip as ys)" by simp
  show "length as = length ys" by (simp add: z(2,3))
qed

lemma map_infos_known:
  assumes "map_infos f xs = Inr (as, ys)" "map_of xs k = Some t"
  shows "\<exists>a t'. f t = Inr (a, t') \<and> map_of ys k = Some t' \<and> a \<in> set as"
proof -
  note z = map_infos_Inr [OF assms(1)]
  have "\<exists>a t'. f t = Inr (a, t') \<and> map_of (map snd zs) k = Some t' \<and> a \<in> set (map fst zs)"
    if "list_all2 (\<lambda>x (a, y). fst y = fst x \<and> f (snd x) = Inr (a, snd y)) xs zs" for zs :: "('a \<times> int \<times> txn_info) list"
    using that assms(2) by (induction xs zs rule: list_all2_induct) (auto split: if_splits)
  from this [OF z(1)] show ?thesis using z(2) by (simp add: map_snd_zip map_fst_zip)
qed

section \<open>A heartbeat of the controller is a beat of every transaction type\<close>

text \<open>What happens to the recording at a given progress, and over a run.\<close>

definition phase_at :: "bool \<Rightarrow> int \<Rightarrow> phase" where
  "phase_at recording p =
     (if \<not> recording then (if 10 \<le> p \<and> p \<le> 90 then Start_Recording else Keep)
      else if 90 \<le> p then Stop_Recording else Keep)"

definition recording_after :: "bool \<Rightarrow> int \<Rightarrow> bool" where
  "recording_after recording p = (case phase_at recording p of Keep \<Rightarrow> recording | Start_Recording \<Rightarrow> True | Stop_Recording \<Rightarrow> False)"

fun phases :: "bool \<Rightarrow> int list \<Rightarrow> phase list" where
  "phases recording [] = []"
| "phases recording (p # ps) = phase_at recording p # phases (recording_after recording p) ps"

lemma stage_phase_at: "stage_phase p c = phase_at (recording_period c) p"
  by (simp add: stage_phase_def phase_at_def)

text \<open>The numbers the tables are computed from, which recording does not change.\<close>

definition stage_numbers :: "ctl \<Rightarrow> rat \<times> rat \<times> int \<times> int" where
  "stage_numbers c = (interval_time c, total_time c, c_commit_txn c, c_commit_txn c - c_pre_commit_txn c)"

lemma stage_record_known:
  assumes "stage_record p c = Inr (reps, c')" "map_of (txn_infos c) k = Some t"
  shows "\<exists>d t'. (case stage_phase p c of
          Keep \<Rightarrow> Inr (None, t)
        | Start_Recording \<Rightarrow> Inr (None, set_mid_status t)
        | Stop_Recording \<Rightarrow> bindE (print_mid (config c) (int (num_proxies c)) t) (\<lambda>(d, t). Inr (Some d, set_mid_status t))) = Inr (d, t') \<and>
      map_of (txn_infos c') k = Some t' \<and> stage_numbers c' = stage_numbers c \<and> (case d of None \<Rightarrow> True | Some rep \<Rightarrow> rep \<in> set reps) \<and>
      frame c' = (config c, num_proxies c, recording_after (recording_period c) p, duration c, start_time c)"
proof (cases "stage_phase p c")
  case Keep
  then show ?thesis
    using assms by (auto simp: stage_record_def stage_phase_at recording_after_def frame_def)
next
  case Start_Recording
  then show ?thesis
    using assms
    by (auto simp: stage_record_def stage_phase_at recording_after_def frame_def map_of_map_snd stage_numbers_def interval_time_def total_time_def)
next
  case Stop_Recording
  with assms(1) obtain infos where i: "map_infos (print_mid (config c) (int (num_proxies c))) (txn_infos c) = Inr (reps, infos)"
    "c' = c \<lparr>recording_period := False, do_sample := 1, txn_infos := map (\<lambda>(k, t). (k, set_mid_status t)) infos\<rparr>"
    by (auto simp: stage_record_def elim!: bindE_eq_InrE)
  from map_infos_known [OF i(1) assms(2)] Stop_Recording show ?thesis
    by (auto simp: i(2) stage_phase_at recording_after_def frame_def map_of_map_snd stage_numbers_def interval_time_def total_time_def)
qed

lemma stage_tables_known:
  assumes "stage_tables c = Inr (tables, c')" "map_of (txn_infos c) k = Some t" "stage_numbers c = (it, tt, ac, ic)"
  shows "\<exists>rows t'. get_res it tt (recording_period c) ac ic t = Inr (rows, t') \<and> map_of (txn_infos c') k = Some t' \<and>
    frame c' = frame c"
proof -
  from assms(1,3) obtain rows infos where i: "map_infos (get_res it tt (recording_period c) ac ic) (txn_infos c) = Inr (rows, infos)"
    "c' = c \<lparr>txn_infos := infos\<rparr>"
    by (auto simp: stage_tables_def Let_def stage_numbers_def elim!: bindE_eq_InrE)
  from map_infos_known [OF i(1) assms(2)] show ?thesis by (auto simp: i(2) frame_def)
qed

lemma heartbeat_known:
  assumes "heartbeat answers now c = Inr (nb, out, c')" "map_of (txn_infos c) k = Some t"
  shows "\<exists>b y t'. batch b = reports_of k answers \<and> act b = phase_at (recording_period c) (o_progress out) \<and>
    txn_beat (config c) (int (num_proxies c)) b t = Inr (y, t') \<and> map_of (txn_infos c') k = Some t' \<and>
    (case fst y of None \<Rightarrow> True | Some rep \<Rightarrow> rep \<in> set (o_reports out)) \<and>
    frame c' = (config c, num_proxies c, recording_after (recording_period c) (o_progress out), duration c, start_time c)"
proof -
  from assms(1) obtain c1 p reps c2 tables c3 where h: "gather answers c = Inr c1" "stage_record p c1 = Inr (reps, c2)"
    "stage_tables c2 = Inr (tables, c3)" "txn_infos c' = txn_infos c3" "frame c' = frame c3" "o_progress out = p" "o_reports out = reps"
    by (auto simp: heartbeat_def print_stage_result_def frame_def elim!: bindE_eq_InrE)
  note g = gather_known [OF h(1) assms(2)]
  have f: "config c1 = config c" "num_proxies c1 = num_proxies c" "recording_period c1 = recording_period c"
    "duration c1 = duration c" "start_time c1 = start_time c"
    using gather_frame [OF h(1)] by (simp_all add: frame_def)
  let ?t = "push_all (reports_of k answers) (clear t)"
  obtain d t2 where r: "(case stage_phase p c1 of
          Keep \<Rightarrow> Inr (None, ?t)
        | Start_Recording \<Rightarrow> Inr (None, set_mid_status ?t)
        | Stop_Recording \<Rightarrow> bindE (print_mid (config c1) (int (num_proxies c1)) ?t) (\<lambda>(d, t). Inr (Some d, set_mid_status t))) = Inr (d, t2)"
      "map_of (txn_infos c2) k = Some t2" "stage_numbers c2 = stage_numbers c1" "case d of None \<Rightarrow> True | Some rep \<Rightarrow> rep \<in> set reps"
      "frame c2 = (config c1, num_proxies c1, recording_after (recording_period c1) p, duration c1, start_time c1)"
    using stage_record_known [OF h(2) g] by blast
  obtain it tt ac ic where n: "stage_numbers c2 = (it, tt, ac, ic)" using prod_cases4 by blast
  obtain rows t3 where s: "get_res it tt (recording_period c2) ac ic t2 = Inr (rows, t3)" "map_of (txn_infos c3) k = Some t3" "frame c3 = frame c2"
    using stage_tables_known [OF h(3) r(2) n] by blast
  let ?b = "\<lparr>batch = reports_of k answers, act = phase_at (recording_period c) p, b_interval_time = it, b_total_time = tt,
    b_set_max = recording_period c2, b_total_commits = ac, b_interval_commits = ic\<rparr>"
  have "txn_beat (config c) (int (num_proxies c)) ?b t = Inr ((d, rows), t3)"
    using r(1) s(1) unfolding txn_beat_def stage_phase_at f Let_def beat.select_convs by simp
  then show ?thesis
    using r(4,5) s(2,3) h(4-7) f by (intro exI [of _ ?b] exI [of _ "(d, rows)"] exI [of _ t3]) (cases d; simp)
qed

lemma benchmark_record_known:
  assumes "benchmark_record inputs c = Inr (left, outs, c')" "map_of (txn_infos c) k = Some t"
  shows "\<exists>bs ys t'. map batch bs = map (\<lambda>(answers, now). reports_of k answers) (take (length outs) inputs) \<and>
    map act bs = phases (recording_period c) (map o_progress outs) \<and>
    txn_beats (config c) (int (num_proxies c)) bs t = Inr (ys, t') \<and> map_of (txn_infos c') k = Some t' \<and>
    list_all2 (\<lambda>y out. case fst y of None \<Rightarrow> True | Some rep \<Rightarrow> rep \<in> set (o_reports out)) ys outs"
  using assms
proof (induction inputs arbitrary: c t left outs)
  case Nil
  then show ?case by (auto simp: benchmark_record.simps [of "[]"] split: if_splits intro!: exI [of _ "[]"])
next
  case (Cons x inputs)
  obtain answers now where x: "x = (answers, now)" by force
  show ?case
  proof (cases "num_proxies c = length (finish_set c)")
    case True
    then show ?thesis using Cons.prems by (auto simp: benchmark_record.simps [of "x # inputs"] intro!: exI [of _ "[]"])
  next
    case False
    with Cons.prems(1) obtain nb out c1 where h: "heartbeat answers now c = Inr (nb, out, c1)" and
      r: "if nb then (left, outs, c') = (True, [out], c1)
          else \<exists>l os. benchmark_record inputs c1 = Inr (l, os, c') \<and> left = l \<and> outs = out # os"
      unfolding x benchmark_record.simps [of "(answers, now) # inputs"] by (auto elim!: bindE_eq_InrE split: if_splits)
    obtain b y t1 where b: "batch b = reports_of k answers" "act b = phase_at (recording_period c) (o_progress out)"
        "txn_beat (config c) (int (num_proxies c)) b t = Inr (y, t1)" "map_of (txn_infos c1) k = Some t1"
        "case fst y of None \<Rightarrow> True | Some rep \<Rightarrow> rep \<in> set (o_reports out)"
        "frame c1 = (config c, num_proxies c, recording_after (recording_period c) (o_progress out), duration c, start_time c)"
      using heartbeat_known [OF h Cons.prems(2)] by blast
    show ?thesis
    proof (cases nb)
      case True
      with r b show ?thesis by (intro exI [of _ "[b]"] exI [of _ "[y]"] exI [of _ t1]) (simp add: x)
    next
      case False
      with r obtain os where os: "benchmark_record inputs c1 = Inr (left, os, c')" "outs = out # os" by auto
      from Cons.IH [OF os(1) b(4)] b(6) obtain bs ys t' where
        "map batch bs = map (\<lambda>(answers, now). reports_of k answers) (take (length os) inputs)"
        "map act bs = phases (recording_after (recording_period c) (o_progress out)) (map o_progress os)"
        "txn_beats (config c) (int (num_proxies c)) bs t1 = Inr (ys, t')" "map_of (txn_infos c') k = Some t'"
        "list_all2 (\<lambda>y out. case fst y of None \<Rightarrow> True | Some rep \<Rightarrow> rep \<in> set (o_reports out)) ys os"
        by (auto simp: frame_def)
      with b os(2) show ?thesis by (intro exI [of _ "b # bs"] exI [of _ "y # ys"] exI [of _ t']) (simp add: x)
    qed
  qed
qed

section \<open>Totals\<close>

definition info_totals :: "(int \<times> txn_info) list \<Rightarrow> int \<times> int \<times> int \<times> int" where
  "info_totals xs =
     (sum_list (map (start_txn \<circ> snd) xs), sum_list (map (total_txn \<circ> snd) xs),
      sum_list (map (total_try \<circ> snd) xs), sum_list (map (commit_txn \<circ> snd) xs))"

definition ctl_totals :: "ctl \<Rightarrow> int \<times> int \<times> int \<times> int" where
  "ctl_totals c = (c_start_txn c, c_total_txn c, c_total_try c, c_commit_txn c)"

lemma sum_list_update:
  "sum_list (map (f \<circ> snd) (AList.update k v xs)) =
     sum_list (map (f \<circ> snd) xs) + f v - (case map_of xs k of Some u \<Rightarrow> f u | None \<Rightarrow> (0 :: int))"
  by (induction xs) auto

lemma push_res_counts:
  "start_txn (push_res r i t) = start_txn t + r_start r" "total_txn (push_res r i t) = total_txn t + r_total r"
  "total_try (push_res r i t) = total_try t + r_try r" "commit_txn (push_res r i t) = commit_txn t + r_commit r"
  by (simp_all add: push_res_def Let_def)

lemma new_counts:
  "start_txn (new_txn_info ty n i) = 0" "total_txn (new_txn_info ty n i) = 0"
  "total_try (new_txn_info ty n i) = 0" "commit_txn (new_txn_info ty n i) = 0"
  by (simp_all add: new_txn_info_def)

lemma add_txn_totals:
  assumes "add_txn p c x = Inr c'" "info_totals (txn_infos c) = ctl_totals c"
  shows "info_totals (txn_infos c') = ctl_totals c'"
  using assms
  by (cases x)
    (auto simp: add_txn_def info_totals_def ctl_totals_def sum_list_update push_res_counts new_counts
      elim!: bindE_eq_InrE split: option.splits)

lemma gather_totals:
  assumes "gather answers c = Inr c'"
  shows "info_totals (txn_infos c') = ctl_totals c'"
proof -
  let ?P = "\<lambda>c. info_totals (txn_infos c) = ctl_totals c"
  have add: "?P c1'" if "foldE (add_txn p) c1 xs = Inr c1'" "?P c1" for c1 c1' p xs
    by (rule foldE_invariant [OF that(1), where P = ?P]) (use that(2) in \<open>auto intro: add_txn_totals\<close>)
  have cl: "start_txn (clear t) = 0" "total_txn (clear t) = 0" "total_try (clear t) = 0" "commit_txn (clear t) = 0" for t
    by (simp_all add: clear_def Let_def)
  have "sum_list (map (f \<circ> snd) (map (\<lambda>(k, t). (k, clear t)) xs)) = 0" if "\<And>t. f (clear t) = (0 :: int)" for f and xs :: "(int \<times> txn_info) list"
    by (induction xs) (auto simp: that)
  then have init: "?P (clear_all c)" by (simp add: clear_all_def info_totals_def ctl_totals_def cl)
  from assms obtain c1 i where c1: "foldE add_answer (clear_all c, 0) answers = Inr (c1, i)"
    "txn_infos c' = txn_infos c1" "ctl_totals c' = ctl_totals c1"
    by (auto simp: gather_def ctl_totals_def elim!: bindE_eq_InrE split: if_splits)
  have "case (c1, i) of (c1, i) \<Rightarrow> ?P c1"
  proof (rule foldE_invariant [OF c1(1), where P = "\<lambda>(c1, i). ?P c1"])
    fix s a s'
    assume s: "case s of (c1, i) \<Rightarrow> ?P c1" "add_answer s a = Inr s'"
    then obtain c i res c1 where c: "s = (c, i)" "a = Some res" "foldE (add_txn (period_of res)) c (cr_txn_info res) = Inr c1"
      "txn_infos (fst s') = txn_infos c1" "ctl_totals (fst s') = ctl_totals c1"
      by (cases s; cases a) (auto simp: add_answer_def ctl_totals_def elim!: bindE_eq_InrE)
    then show "case s' of (c1, i) \<Rightarrow> ?P c1" using add [OF c(3)] s(1) by (cases s') simp
  qed (simp add: init)
  then show ?thesis by (simp add: c1(2,3))
qed

text \<open>Neither recording nor the tables change a count.\<close>

definition counts :: "txn_info \<Rightarrow> int \<times> int \<times> int \<times> int" where
  "counts t = (start_txn t, total_txn t, total_try t, commit_txn t)"

lemma info_totals_counts:
  assumes "map (counts \<circ> snd) xs = map (counts \<circ> snd) ys"
  shows "info_totals xs = info_totals ys"
proof -
  have "length xs = length ys" using assms by (rule map_eq_imp_length_eq)
  then show ?thesis
    using assms by (induction xs ys rule: list_induct2) (simp_all add: info_totals_def counts_def)
qed

lemma print_mid_counts: "print_mid cfg n t = Inr (d, t') \<Longrightarrow> counts t' = counts t"
  unfolding print_mid_def Let_def by (elim bindE_eq_InrE) (auto simp: counts_def elim!: bindE_eq_InrE)

lemma get_res_counts:
  assumes "get_res it tt sm ac ai t = Inr (rows, t')"
  shows "counts t' = counts t"
proof -
  obtain total_ret interval_ret where r: "rows = (total_ret, interval_ret)" by force
  from assms [unfolded r] obtain row t1 t2 tps where
    t: "refresh_max interval_ret t = Inr t1" "choose_max sm tps interval_ret it t1 = Inr t2" "t' = roll_over t2"
    by (rule get_res_InrE)
  have "counts t1 = counts t"
    using t(1) by (auto simp: refresh_max_def counts_def elim!: bindE_eq_InrE split: if_splits)
  moreover have "counts t2 = counts t1"
    using t(2) by (auto simp: choose_max_def counts_def elim!: bindE_eq_InrE split: if_splits)
  ultimately show ?thesis by (simp add: t(3) roll_over_def counts_def)
qed

lemma map_infos_counts:
  assumes "map_infos f xs = Inr (as, ys)" "\<And>t a t'. f t = Inr (a, t') \<Longrightarrow> counts t' = counts t"
  shows "map (counts \<circ> snd) ys = map (counts \<circ> snd) xs"
proof -
  note z = map_infos_Inr [OF assms(1)]
  have "map (counts \<circ> snd) (map snd zs) = map (counts \<circ> snd) xs"
    if "list_all2 (\<lambda>x (a, y). fst y = fst x \<and> f (snd x) = Inr (a, snd y)) xs zs" for zs :: "('a \<times> int \<times> txn_info) list"
    using that by (induction xs zs rule: list_all2_induct) (auto dest: assms(2))
  from this [OF z(1)] show ?thesis using z(2) by (simp add: map_snd_zip)
qed

lemma map_set_mid_counts: "map (counts \<circ> snd) (map (\<lambda>(k, t). (k, set_mid_status t)) xs) = map (counts \<circ> snd) xs"
  by (induction xs) (auto simp: counts_def set_mid_status_def)

lemma stage_record_totals:
  assumes "stage_record p c = Inr (reps, c')"
  shows "info_totals (txn_infos c') = info_totals (txn_infos c) \<and> ctl_totals c' = ctl_totals c"
proof (cases "stage_phase p c")
  case Stop_Recording
  with assms obtain infos where i: "map_infos (print_mid (config c) (int (num_proxies c))) (txn_infos c) = Inr (reps, infos)"
    "c' = c \<lparr>recording_period := False, do_sample := 1, txn_infos := map (\<lambda>(k, t). (k, set_mid_status t)) infos\<rparr>"
    by (auto simp: stage_record_def elim!: bindE_eq_InrE)
  have "map (counts \<circ> snd) (txn_infos c') = map (counts \<circ> snd) (txn_infos c)"
    using map_infos_counts [OF i(1) print_mid_counts] map_set_mid_counts [of infos] by (simp add: i(2))
  then show ?thesis by (intro conjI info_totals_counts) (simp_all add: i(2) ctl_totals_def)
next
  case Start_Recording
  with assms have "c' = c \<lparr>recording_period := True, do_sample := 1, txn_infos := map (\<lambda>(k, t). (k, set_mid_status t)) (txn_infos c)\<rparr>"
    by (simp add: stage_record_def)
  then show ?thesis
    using info_totals_counts [OF map_set_mid_counts [of "txn_infos c"]] by (simp add: ctl_totals_def)
qed (use assms in \<open>simp add: stage_record_def\<close>)

lemma stage_tables_totals:
  assumes "stage_tables c = Inr (tables, c')"
  shows "info_totals (txn_infos c') = info_totals (txn_infos c) \<and> ctl_totals c' = ctl_totals c"
proof -
  from assms obtain it tt ac ic rows infos where i:
    "map_infos (get_res it tt (recording_period c) ac ic) (txn_infos c) = Inr (rows, infos)" "c' = c \<lparr>txn_infos := infos\<rparr>"
    by (auto simp: stage_tables_def Let_def elim!: bindE_eq_InrE)
  have "map (counts \<circ> snd) (txn_infos c') = map (counts \<circ> snd) (txn_infos c)"
    using map_infos_counts [OF i(1) get_res_counts] by (simp add: i(2))
  then show ?thesis by (intro conjI info_totals_counts) (simp_all add: i(2) ctl_totals_def)
qed

section \<open>When a heartbeat succeeds\<close>

lemma map_infos_ok:
  assumes "\<And>x. x \<in> set xs \<Longrightarrow> \<exists>a t'. f (snd x) = Inr (a, t')"
  shows "\<exists>as ys. map_infos f xs = Inr (as, ys)"
proof -
  have "\<exists>zs. mapE (\<lambda>(k, t). bindE (f t) (\<lambda>(a, t). Inr (a, k, t))) xs = Inr zs"
    using assms
  proof (induction xs)
    case (Cons x xs)
    obtain k t where x: "x = (k, t)" by force
    obtain a t' where "f t = Inr (a, t')" using Cons.prems [of x] by (auto simp: x)
    moreover obtain zs where "mapE (\<lambda>(k, t). bindE (f t) (\<lambda>(a, t). Inr (a, k, t))) xs = Inr zs"
      using Cons.IH Cons.prems by auto
    ultimately show ?case by (simp add: x)
  qed simp
  then show ?thesis by (auto simp: map_infos_def)
qed

lemma heartbeat_ok:
  assumes "gather answers c = Inr c1" "\<forall>x \<in> set (txn_infos c1). max_ok (snd x)" "progress c1 = Inr p" "stage_phase p c1 = Keep"
    "interval_time c1 \<noteq> 0" "total_time c1 \<noteq> 0"
  shows "\<exists>nb out c'. heartbeat answers now c = Inr (nb, out, c') \<and> o_progress out = p \<and> finish_set c' = finish_set c1 \<and>
    nb = (fmul (flit (3 / 2)) (float_of (duration c1)) < fsub now (start_time c1))"
proof -
  obtain rows infos where i: "map_infos (get_res (interval_time c1) (total_time c1) (recording_period c1) (c_commit_txn c1)
      (c_commit_txn c1 - c_pre_commit_txn c1)) (txn_infos c1) = Inr (rows, infos)"
    using map_infos_ok [of "txn_infos c1"] get_res_ok assms(2,5,6) by (metis surj_pair)
  have "stage_record p c1 = Inr ([], c1)" using assms(4) by (simp add: stage_record_def)
  then show ?thesis
    using assms(1,3,5,6) i by (simp add: heartbeat_def print_stage_result_def stage_tables_def Let_def rate_ok)
qed

section \<open>Finishing\<close>

lemma add_answers_finish:
  assumes "foldE add_answer (c, i) answers = Inr (c', j)" "distinct (finish_set c)" "set (finish_set c) \<subseteq> {..<n}" "i + length answers \<le> n"
  shows "distinct (finish_set c') \<and> set (finish_set c') \<subseteq> {..<n} \<and> set (finish_set c) \<subseteq> set (finish_set c') \<and>
    (list_all (\<lambda>a. case a of None \<Rightarrow> False | Some res \<Rightarrow> cr_is_finish res = 1) answers \<longrightarrow> {i..<i + length answers} \<subseteq> set (finish_set c'))"
  using assms
proof (induction answers arbitrary: c i)
  case (Cons a answers)
  from Cons.prems(1) obtain c1 i1 where c1: "add_answer (c, i) a = Inr (c1, i1)" "foldE add_answer (c1, i1) answers = Inr (c', j)"
    by (auto elim!: bindE_eq_InrE)
  obtain res where r: "a = Some res" "i1 = i + 1"
    "finish_set c1 = (if cr_is_finish res = 1 \<and> i \<notin> set (finish_set c) then finish_set c @ [i] else finish_set c)"
    by (rule add_answer_InrE [OF c1(1)])
  have "distinct (finish_set c1)" "set (finish_set c1) \<subseteq> {..<n}" "i1 + length answers \<le> n"
    using r Cons.prems(2-4) by auto
  note IH = Cons.IH [OF c1(2) this]
  have "{i..<i + length (a # answers)} = insert i {i1..<i1 + length answers}" using r(2) by auto
  moreover have "set (finish_set c) \<subseteq> set (finish_set c1)" "cr_is_finish res = 1 \<Longrightarrow> i \<in> set (finish_set c1)" using r(3) by auto
  ultimately show ?case using IH r(1) by auto
qed auto

lemma stage_finish: "print_stage_result now c = Inr (nb, out, c') \<Longrightarrow> finish_set c' = finish_set c"
  by (auto simp: print_stage_result_def stage_record_def stage_tables_def Let_def elim!: bindE_eq_InrE split: phase.splits)

lemma gather_finish:
  assumes "gather answers c = Inr c'" "distinct (finish_set c)" "set (finish_set c) \<subseteq> {..<n}" "length answers \<le> n"
  shows "distinct (finish_set c') \<and> set (finish_set c') \<subseteq> {..<n} \<and>
    (list_all (\<lambda>a. case a of None \<Rightarrow> False | Some res \<Rightarrow> cr_is_finish res = 1) answers \<longrightarrow> {..<length answers} \<subseteq> set (finish_set c'))"
proof -
  from assms(1) obtain c1 i where c1: "foldE add_answer (clear_all c, 0) answers = Inr (c1, i)" "finish_set c' = finish_set c1"
    by (auto simp: gather_def elim!: bindE_eq_InrE split: if_splits)
  have "finish_set (clear_all c) = finish_set c" by (simp add: clear_all_def)
  then show ?thesis using add_answers_finish [OF c1(1), of n] assms(2-4) by (simp add: c1(2) atLeast0LessThan)
qed

lemma heartbeat_frame:
  assumes "heartbeat answers now c = Inr (nb, out, c')"
  shows "num_proxies c' = num_proxies c \<and> duration c' = duration c \<and> start_time c' = start_time c \<and>
    nb = (fmul (flit (3 / 2)) (float_of (duration c)) < fsub now (start_time c))"
proof -
  from assms obtain c1 where c1: "gather answers c = Inr c1" "print_stage_result now c1 = Inr (nb, out, c')"
    by (auto simp: heartbeat_def elim!: bindE_eq_InrE)
  have "num_proxies c' = num_proxies c1 \<and> duration c' = duration c1 \<and> start_time c' = start_time c1 \<and>
    nb = (fmul (flit (3 / 2)) (float_of (duration c1)) < fsub now (start_time c1))"
    using c1(2) by (auto simp: print_stage_result_def stage_record_def stage_tables_def Let_def elim!: bindE_eq_InrE split: phase.splits)
  then show ?thesis using gather_frame [OF c1(1)] by (simp add: frame_def)
qed

text \<open>
  Clients are told apart by their position among the calls that could be sent.  If the first of two clients
  could not be called at one heartbeat and the second reports that it is finished, and at the next
  heartbeat both answer, then both count as finished although the first never said so.
\<close>

lemma finish_index_confusion:
  assumes "heartbeat [Some b] now c = Inr (nb, out, c1)" "heartbeat [Some a, Some b] now' c1 = Inr (nb', out', c2)"
    "cr_is_finish a \<noteq> 1" "cr_is_finish b = 1" "finish_set c = []"
  shows "finish_set c2 = [0, 1]"
proof -
  have one: "finish_set c' = (if cr_is_finish r = 1 \<and> i \<notin> set (finish_set c) then finish_set c @ [i] else finish_set c)"
    if "foldE add_answer (c, i) [Some r] = Inr (c', j)" for c c' i j r
    using that by (auto elim!: bindE_eq_InrE add_answer_InrE)
  have two: "finish_set c'' = finish_set c1" if "gather as c = Inr c'" "foldE add_answer (clear_all c, 0) as = Inr (c1, i)"
      "print_stage_result n c' = Inr (nb, out, c'')" for as c c' c'' c1 i n nb out
    using that stage_finish [OF that(3)] by (auto simp: gather_def split: if_splits)
  have cl: "finish_set (clear_all c) = finish_set c" for c by (simp add: clear_all_def)
  from assms(1) obtain d i g where d: "gather [Some b] c = Inr g" "foldE add_answer (clear_all c, 0) [Some b] = Inr (d, i)"
    "print_stage_result now g = Inr (nb, out, c1)"
    by (auto simp: heartbeat_def gather_def elim!: bindE_eq_InrE)
  have f1: "finish_set c1 = [0]" using two [OF d] one [OF d(2)] assms(4,5) by (simp add: cl)
  from assms(2) obtain e j g' where e: "gather [Some a, Some b] c1 = Inr g'" "foldE add_answer (clear_all c1, 0) [Some a, Some b] = Inr (e, j)"
    "print_stage_result now' g' = Inr (nb', out', c2)"
    by (auto simp: heartbeat_def gather_def elim!: bindE_eq_InrE)
  from e(2) obtain e1 j1 where e1: "add_answer (clear_all c1, 0) (Some a) = Inr (e1, j1)" "foldE add_answer (e1, j1) [Some b] = Inr (e, j)"
    by (auto elim!: bindE_eq_InrE)
  have "j1 = 1 \<and> finish_set e1 = [0]"
    by (rule add_answer_InrE [OF e1(1)]) (use f1 assms(3) cl [of c1] in simp)
  then show ?thesis using two [OF e] one [OF e1(2)] assms(4) by simp
qed

section \<open>Transaction types that appear while recording\<close>

text \<open>A statistics object that was not there when the recording started is not told to record: its status and time stay 0.\<close>

definition unrecorded :: "txn_info \<Rightarrow> bool" where
  "unrecorded t \<longleftrightarrow> mid_status t = 0 \<and> mid_time t = 0"

lemma unrecorded_ops:
  "unrecorded (new_txn_info ty name intr)" "unrecorded t \<Longrightarrow> unrecorded (clear t)" "unrecorded t \<Longrightarrow> unrecorded (push_res r i t)"
  by (simp_all add: unrecorded_def op_fields push_res_fields)

lemma get_res_unrecorded: "get_res it tt sm ac ai t = Inr (rows, t') \<Longrightarrow> unrecorded t \<Longrightarrow> unrecorded t'"
  by (drule get_res_mid_view) (simp add: unrecorded_def mid_view_def)

definition late_type :: "int \<Rightarrow> ctl \<Rightarrow> bool" where
  "late_type k c \<longleftrightarrow> (case map_of (txn_infos c) k of None \<Rightarrow> True | Some t \<Rightarrow> unrecorded t)"

lemma add_txn_late:
  assumes "add_txn p c (ty, r) = Inr c'" "late_type k c"
  shows "late_type k c' \<and> (map_of (txn_infos c') k = None \<longleftrightarrow> map_of (txn_infos c) k = None \<and> ty \<noteq> k)"
  using assms
  by (auto simp: add_txn_def late_type_def update_conv' unrecorded_ops elim!: bindE_eq_InrE split: option.splits if_splits)

lemma add_txns_late:
  assumes "foldE (add_txn p) c xs = Inr c'" "late_type k c"
  shows "late_type k c' \<and> (map_of (txn_infos c') k = None \<longleftrightarrow> map_of (txn_infos c) k = None \<and> filter (\<lambda>(ty, r). ty = k) xs = [])"
  using assms
proof (induction xs arbitrary: c)
  case (Cons x xs)
  obtain ty r where x: "x = (ty, r)" by force
  from Cons.prems(1) obtain c1 where c1: "add_txn p c (ty, r) = Inr c1" "foldE (add_txn p) c1 xs = Inr c'"
    by (auto simp: x elim: bindE_eq_InrE)
  show ?case using Cons.IH [OF c1(2)] add_txn_late [OF c1(1) Cons.prems(2)] by (simp add: x)
qed simp

lemma add_answers_late:
  assumes "foldE add_answer (c, i) answers = Inr (c', j)" "late_type k c"
  shows "late_type k c' \<and> (map_of (txn_infos c') k = None \<longleftrightarrow> map_of (txn_infos c) k = None \<and> reports_of k answers = [])"
  using assms
proof (induction answers arbitrary: c i)
  case (Cons a answers)
  from Cons.prems(1) obtain c1 i1 where c1: "add_answer (c, i) a = Inr (c1, i1)" "foldE add_answer (c1, i1) answers = Inr (c', j)"
    by (auto elim!: bindE_eq_InrE)
  then obtain res c2 where res: "a = Some res" "foldE (add_txn (period_of res)) c (cr_txn_info res) = Inr c2" "txn_infos c1 = txn_infos c2"
    by (auto simp: add_answer_def elim!: bindE_eq_InrE split: option.splits)
  have "late_type k c1 \<and> (map_of (txn_infos c1) k = None \<longleftrightarrow> map_of (txn_infos c) k = None \<and> reports_of k [a] = [])"
    using add_txns_late [OF res(2) Cons.prems(2)] by (simp add: late_type_def res(1,3) reports_of_def)
  then show ?case using Cons.IH [OF c1(2)] by (auto simp: reports_of_def)
qed (simp add: reports_of_def)

lemma gather_late:
  assumes "gather answers c = Inr c'" "late_type k c"
  shows "late_type k c' \<and> (map_of (txn_infos c') k = None \<longleftrightarrow> map_of (txn_infos c) k = None \<and> reports_of k answers = [])"
proof -
  from assms(1) obtain c1 i where c1: "foldE add_answer (clear_all c, 0) answers = Inr (c1, i)" "txn_infos c' = txn_infos c1"
    by (auto simp: gather_def elim!: bindE_eq_InrE split: if_splits)
  have "late_type k (clear_all c)" "map_of (txn_infos (clear_all c)) k = None \<longleftrightarrow> map_of (txn_infos c) k = None"
    using assms(2) by (auto simp: late_type_def clear_all_def map_of_map_snd unrecorded_ops split: option.splits)
  then show ?thesis using add_answers_late [OF c1(1)] by (simp add: late_type_def c1(2))
qed

lemma heartbeat_late:
  assumes "heartbeat answers now c = Inr (nb, out, c')" "recording_period c" "late_type k c"
    and "map_of (txn_infos c) k \<noteq> None \<or> reports_of k answers \<noteq> []"
  shows "o_progress out < 90 \<and> o_reports out = [] \<and> recording_period c' \<and> late_type k c' \<and> map_of (txn_infos c') k \<noteq> None"
proof -
  from assms(1) obtain g reps c2 tables c3 where h: "gather answers c = Inr g" "stage_record (o_progress out) g = Inr (reps, c2)"
    "stage_tables c2 = Inr (tables, c3)" "txn_infos c' = txn_infos c3" "frame c' = frame c3" "o_reports out = reps"
    by (auto simp: heartbeat_def print_stage_result_def frame_def elim!: bindE_eq_InrE)
  have rec: "recording_period g" using gather_frame [OF h(1)] assms(2) by (simp add: frame_def)
  obtain t where t: "map_of (txn_infos g) k = Some t" "unrecorded t"
    using gather_late [OF h(1) assms(3)] assms(4) by (auto simp: late_type_def)
  have "\<not> 90 \<le> o_progress out"
  proof
    assume "90 \<le> o_progress out"
    then have "stage_phase (o_progress out) g = Stop_Recording" using rec by (simp add: stage_phase_def)
    moreover have "print_mid (config g) (int (num_proxies g)) t = Inl ZeroDivisionError"
      using t(2) by (intro print_mid_no_time) (simp add: unrecorded_def)
    ultimately show False using stage_record_known [OF h(2) t(1)] by simp
  qed
  then have k: "o_progress out < 90" "reps = []" "c2 = g" using h(2) rec by (simp_all add: stage_record_def stage_phase_def)
  obtain it tt ac ic where n: "stage_numbers g = (it, tt, ac, ic)" using prod_cases4 by blast
  obtain rows t' where
    "get_res it tt (recording_period g) ac ic t = Inr (rows, t')" "map_of (txn_infos c3) k = Some t'" "frame c3 = frame g"
    using stage_tables_known [OF h(3) [unfolded k(3)] t(1) n] by blast
  then show ?thesis using k h(4-6) rec get_res_unrecorded [OF _ t(2)] by (auto simp: late_type_def frame_def)
qed

lemma benchmark_late:
  assumes "benchmark_record inputs c = Inr (left, outs, c')" "recording_period c" "late_type k c" "map_of (txn_infos c) k \<noteq> None"
  shows "list_all (\<lambda>out. o_progress out < 90 \<and> o_reports out = []) outs \<and>
    recording_period c' \<and> late_type k c' \<and> map_of (txn_infos c') k \<noteq> None"
  using assms
proof (induction inputs arbitrary: c outs)
  case Nil
  then show ?case by (auto simp: benchmark_record.simps [of "[]"] split: if_splits)
next
  case (Cons x inputs)
  obtain answers now where x: "x = (answers, now)" by force
  show ?case
  proof (cases "num_proxies c = length (finish_set c)")
    case True
    then show ?thesis using Cons.prems by (simp add: benchmark_record.simps [of "x # inputs"])
  next
    case False
    with Cons.prems(1) obtain nb out c1 where h: "heartbeat answers now c = Inr (nb, out, c1)" and
      r: "if nb then (outs, c') = ([out], c1) else \<exists>os. benchmark_record inputs c1 = Inr (left, os, c') \<and> outs = out # os"
      unfolding x benchmark_record.simps [of "(answers, now) # inputs"] by (auto elim!: bindE_eq_InrE split: if_splits)
    have "o_progress out < 90" "o_reports out = []" "recording_period c1" "late_type k c1" "map_of (txn_infos c1) k \<noteq> None"
      using heartbeat_late [OF h Cons.prems(2,3)] Cons.prems(4) by simp_all
    then show ?thesis using r Cons.IH [of c1] by (auto split: if_splits)
  qed
qed

section \<open>Properties of the controller\<close>

text \<open>
  (C5) The controller implements the statistics of every transaction type it knows: over any run of heartbeats that
  raises nothing, the statistics object of a known type goes through exactly the beats in which it is cleared, fed the
  reports that the answers of that heartbeat hold for the type, recorded when the progress says so, and asked for its rows.
\<close>

theorem run_refines_beats:
  assumes "benchmark_record inputs c = Inr (left, outs, c')" "map_of (txn_infos c) k = Some t"
  shows "\<exists>bs ys t'. map batch bs = map (\<lambda>(answers, now). reports_of k answers) (take (length outs) inputs) \<and>
    map act bs = phases (recording_period c) (map o_progress outs) \<and>
    txn_beats (config c) (int (num_proxies c)) bs t = Inr (ys, t') \<and> map_of (txn_infos c') k = Some t'"
  using benchmark_record_known [OF assms] by blast

text \<open>
  (C13) After every heartbeat the totals of the controller are the sums over the transaction types, and they are what
  the next heartbeat's interval is measured from.
\<close>

theorem heartbeat_totals:
  assumes "heartbeat answers now c = Inr (nb, out, c')"
  shows "ctl_totals c' = info_totals (txn_infos c') \<and>
    (c_pre_start_txn c', c_pre_total_txn c', c_pre_total_try c', c_pre_commit_txn c') = ctl_totals c'"
proof -
  from assms obtain c1 p reps c2 tables c3 where h: "gather answers c = Inr c1" "stage_record p c1 = Inr (reps, c2)"
    "stage_tables c2 = Inr (tables, c3)" "txn_infos c' = txn_infos c3" "ctl_totals c' = ctl_totals c3"
    "(c_pre_start_txn c', c_pre_total_txn c', c_pre_total_try c', c_pre_commit_txn c') = ctl_totals c3"
    by (auto simp: heartbeat_def print_stage_result_def ctl_totals_def elim!: bindE_eq_InrE)
  show ?thesis
    using gather_totals [OF h(1)] stage_record_totals [OF h(2)] stage_tables_totals [OF h(3)] h(4-6) by simp
qed

definition demo_answer :: "int \<Rightarrow> client_res" where
  "demo_answer fin = \<lparr>cr_txn_info = [(0, demo_res 5 4 [1])], cr_run_sec = 1, cr_run_nsec = 0, cr_period_sec = 1, cr_period_nsec = 0,
     cr_n_asking = 0, cr_is_finish = fin\<rparr>"

definition demo_ctl :: ctl where
  "demo_ctl = (new_ctl demo_config 1000 ''w'') \<lparr>num_proxies := 1, txn_infos := [(0, new_txn_info 0 ''w'' True)]\<rparr>"

definition demo_gathered :: ctl where
  "demo_gathered = demo_ctl \<lparr>c_start_txn := 5, c_total_txn := 5, c_total_try := 5, c_commit_txn := 4, run_sec := 1,
     finish_set := [0], txn_infos := [(0, push_res (demo_res 5 4 [1]) 1 (clear (new_txn_info 0 ''w'' True)))]\<rparr>"

lemma demo_gather: "gather [Some (demo_answer 1)] demo_ctl = Inr demo_gathered"
  by (simp add: gather_def clear_all_def add_answer_def add_txn_def demo_answer_def demo_ctl_def new_ctl_def demo_gathered_def
      period_of_def demo_res_def)

lemma demo_times: "interval_time demo_gathered = 1" "total_time demo_gathered = 1"
  by (simp_all add: interval_time_def total_time_def demo_gathered_def demo_ctl_def new_ctl_def)

lemma demo_progress_small: "\<exists>p \<le> 1. progress demo_gathered = Inr p"
proof -
  have d: "duration demo_gathered = 1000" by (simp add: demo_gathered_def demo_ctl_def new_ctl_def)
  have "rnd (1 / 10) \<le> rnd 1" by (rule rnd_mono) simp
  then have "rnd (1 / 10) \<le> (of_int 1 :: rat)" by simp
  then have "py_round (rnd (1 / 10)) \<le> py_round (of_int 1)" by (rule py_round_mono)
  then have "py_round (rnd (1 / 10)) \<le> 1" using py_round_of_int [of 1] by simp
  then show ?thesis by (simp add: progress_def demo_times d rnd_numeral)
qed

lemma demo_progress: "\<exists>p. progress demo_gathered = Inr p \<and> stage_phase p demo_gathered = Keep"
proof -
  obtain p where "p \<le> 1" "progress demo_gathered = Inr p" using demo_progress_small by blast
  moreover have "\<not> recording_period demo_gathered" by (simp add: demo_gathered_def demo_ctl_def new_ctl_def)
  ultimately show ?thesis by (intro exI [of _ p]) (simp add: stage_phase_def)
qed

lemma demo_heartbeat:
  "\<exists>nb out c'. heartbeat [Some (demo_answer 1)] 0 demo_ctl = Inr (nb, out, c') \<and> finish_set c' = [0]"
proof -
  have "\<forall>x \<in> set (txn_infos demo_gathered). max_ok (snd x)" by (simp add: demo_gathered_def max_ok_ops)
  moreover have "finish_set demo_gathered = [0]" by (simp add: demo_gathered_def)
  ultimately show ?thesis
    using heartbeat_ok [OF demo_gather] demo_progress demo_times by (metis zero_neq_one)
qed

theorem run_refines_beats_witness:
  "\<exists>left outs c' bs ys t'. benchmark_record [([Some (demo_answer 1)], 0)] demo_ctl = Inr (left, outs, c') \<and>
    txn_beats demo_config 1 bs (new_txn_info 0 ''w'' True) = Inr (ys, t') \<and> map_of (txn_infos c') 0 = Some t' \<and>
    map batch bs = map (\<lambda>(answers, now). reports_of 0 answers) (take (length outs) [([Some (demo_answer 1)], 0 :: rat)])"
proof -
  obtain nb out c' where h: "heartbeat [Some (demo_answer 1)] 0 demo_ctl = Inr (nb, out, c')" using demo_heartbeat by blast
  have d: "num_proxies demo_ctl = 1" "finish_set demo_ctl = []" "config demo_ctl = demo_config"
    "map_of (txn_infos demo_ctl) 0 = Some (new_txn_info 0 ''w'' True)"
    by (simp_all add: demo_ctl_def new_ctl_def)
  have "\<exists>left outs c''. benchmark_record [([Some (demo_answer 1)], 0)] demo_ctl = Inr (left, outs, c'')"
    using h d(1,2) by (auto simp: benchmark_record.simps)
  then obtain left outs c'' where r: "benchmark_record [([Some (demo_answer 1)], 0)] demo_ctl = Inr (left, outs, c'')" by blast
  from run_refines_beats [OF this d(4)] d(1,3) r show ?thesis by (metis of_nat_1)
qed

theorem heartbeat_totals_witness:
  "\<exists>nb out c'. heartbeat [Some (demo_answer 1)] 0 demo_ctl = Inr (nb, out, c') \<and> ctl_totals c' = info_totals (txn_infos c')"
  using demo_heartbeat heartbeat_totals by blast

text \<open>
  (C19) When every client answers and says that it has finished, the benchmark loop ends with that heartbeat,
  if it does not end before it; nothing is asked of the clients any more.
\<close>

theorem all_finished_ends:
  assumes "benchmark_record ((answers, now) # inputs) c = Inr (left, outs, c')"
    and "length answers = num_proxies c" "list_all (\<lambda>a. case a of None \<Rightarrow> False | Some res \<Rightarrow> cr_is_finish res = 1) answers"
    and "distinct (finish_set c)" "set (finish_set c) \<subseteq> {..<num_proxies c}"
  shows "left \<and> length outs \<le> 1"
proof (cases "num_proxies c = length (finish_set c)")
  case False
  with assms(1) obtain nb out c1 where h: "heartbeat answers now c = Inr (nb, out, c1)" and
    r: "if nb then left \<and> outs = [out] else \<exists>os. benchmark_record inputs c1 = Inr (left, os, c') \<and> outs = out # os"
    unfolding benchmark_record.simps [of "(answers, now) # inputs"] by (auto elim!: bindE_eq_InrE split: if_splits)
  from h obtain g where g: "gather answers c = Inr g" "print_stage_result now g = Inr (nb, out, c1)"
    by (auto simp: heartbeat_def elim!: bindE_eq_InrE)
  have "distinct (finish_set c1)" "set (finish_set c1) = {..<num_proxies c}"
    using gather_finish [OF g(1) assms(4,5)] assms(2,3) stage_finish [OF g(2)] by auto
  then have "num_proxies c1 = length (finish_set c1)"
    using heartbeat_frame [OF h] by (metis card_lessThan distinct_card)
  then have "benchmark_record inputs c1 = Inr (True, [], c1)" by (simp add: benchmark_record.simps)
  then show ?thesis using r by (auto split: if_splits)
qed (use assms(1) in \<open>simp add: benchmark_record.simps\<close>)

theorem all_finished_ends_witness:
  "\<exists>outs c'. benchmark_record [([Some (demo_answer 1)], 0), ([None], 1)] demo_ctl = Inr (True, outs, c') \<and> length outs \<le> 1"
proof -
  obtain nb out c1 where h: "heartbeat [Some (demo_answer 1)] 0 demo_ctl = Inr (nb, out, c1)" "finish_set c1 = [0]"
    using demo_heartbeat by blast
  have d: "num_proxies demo_ctl = 1" "finish_set demo_ctl = []" by (simp_all add: demo_ctl_def new_ctl_def)
  have "num_proxies c1 = length (finish_set c1)" using heartbeat_frame [OF h(1)] h(2) d(1) by simp
  then have r: "benchmark_record [([None], 1)] c1 = Inr (True, [], c1)" by (simp add: benchmark_record.simps)
  have "\<exists>left outs c'. benchmark_record [([Some (demo_answer 1)], 0), ([None], 1)] demo_ctl = Inr (left, outs, c')"
    unfolding benchmark_record.simps [of "[([Some (demo_answer 1)], 0), ([None], 1)]"] using h(1) d r by auto
  then obtain left outs c' where
    o: "benchmark_record [([Some (demo_answer 1)], 0), ([None], 1)] demo_ctl = Inr (left, outs, c')" by blast
  from all_finished_ends [OF this] d have "left \<and> length outs \<le> 1" by (simp add: demo_answer_def)
  with o show ?thesis by auto
qed

text \<open>
  (C20) The loop is left for one of two reasons only: as many clients as there are proxies count as finished, or the clock
  at the last heartbeat is more than one and a half durations after the start.
\<close>

theorem loop_left_reason:
  assumes "benchmark_record inputs c = Inr (True, outs, c')"
  shows "num_proxies c = length (finish_set c') \<or>
    (outs \<noteq> [] \<and> fmul (flit (3 / 2)) (float_of (duration c)) < fsub (snd (inputs ! (length outs - 1))) (start_time c))"
  using assms
proof (induction inputs arbitrary: c outs)
  case (Cons x inputs)
  obtain answers now where x: "x = (answers, now)" by force
  show ?case
  proof (cases "num_proxies c = length (finish_set c)")
    case False
    with Cons.prems obtain nb out c1 where h: "heartbeat answers now c = Inr (nb, out, c1)" and
      r: "if nb then outs = [out] else \<exists>os. benchmark_record inputs c1 = Inr (True, os, c') \<and> outs = out # os"
      unfolding x benchmark_record.simps [of "(answers, now) # inputs"] by (auto elim!: bindE_eq_InrE split: if_splits)
    note f = heartbeat_frame [OF h]
    show ?thesis
    proof (cases nb)
      case False
      with r obtain os where "benchmark_record inputs c1 = Inr (True, os, c')" "outs = out # os" by auto
      with Cons.IH [OF this(1)] f show ?thesis by (auto simp: neq_Nil_conv)
    qed (use f r x in auto)
  qed (use Cons.prems in \<open>simp add: benchmark_record.simps\<close>)
qed (simp add: benchmark_record.simps split: if_splits)

theorem loop_left_reason_witness:
  "\<exists>outs c'. benchmark_record [] (demo_ctl \<lparr>finish_set := [0]\<rparr>) = Inr (True, outs, c') \<and> num_proxies demo_ctl = length (finish_set c')"
proof -
  have r: "benchmark_record [] (demo_ctl \<lparr>finish_set := [0]\<rparr>) = Inr (True, [], demo_ctl \<lparr>finish_set := [0]\<rparr>)"
    by (simp add: benchmark_record.simps demo_ctl_def)
  from loop_left_reason [OF this] r show ?thesis by simp
qed

text \<open>
  (C37) A transaction type that the clients first report while a recording is on is not recorded, and the recording cannot
  be finished any more: every later heartbeat that succeeds is below 90 per cent and gives no report, for any type,
  and a heartbeat at 90 per cent or more raises (the new type has no recorded time to divide by).
\<close>

theorem late_type_fails:
  assumes "recording_period c" "map_of (txn_infos c) k = None" "reports_of k answers \<noteq> []"
    and "heartbeat answers now c = Inr (need_break, out, c1)" "benchmark_record inputs c1 = Inr (left, outs, c')"
  shows "list_all (\<lambda>out. o_progress out < 90 \<and> o_reports out = []) (out # outs) \<and>
    (\<forall>as now' g p. gather as c' = Inr g \<and> progress g = Inr p \<and> 90 \<le> p \<longrightarrow> (\<exists>e. heartbeat as now' c' = Inl e))"
proof -
  have "late_type k c" using assms(2) by (simp add: late_type_def)
  note h = heartbeat_late [OF assms(4,1) this]
  note b = benchmark_late [OF assms(5), of k]
  have c': "recording_period c'" "late_type k c'" "map_of (txn_infos c') k \<noteq> None" using h b assms(3) by simp_all
  have "\<exists>e. heartbeat as now' c' = Inl e" if "gather as c' = Inr g" "progress g = Inr p" "90 \<le> p" for as now' g p
  proof (cases "heartbeat as now' c'")
    case (Inr r)
    obtain nb out c'' where r: "r = (nb, out, c'')" by (cases r)
    have "o_progress out = p"
      using Inr that(1,2) by (auto simp: r heartbeat_def print_stage_result_def elim!: bindE_eq_InrE)
    then show ?thesis using heartbeat_late [OF Inr [unfolded r] c'(1,2)] c'(3) that(3) by simp
  qed simp
  then show ?thesis using h b assms(3) by auto
qed

definition demo_late :: ctl where
  "demo_late = demo_ctl \<lparr>recording_period := True, txn_names := [(0, ''w'')], txn_infos := []\<rparr>"

theorem late_type_fails_witness:
  "\<exists>need_break out c'. heartbeat [Some (demo_answer 0)] 0 demo_late = Inr (need_break, out, c') \<and>
    o_progress out < 90 \<and> o_reports out = []"
proof -
  let ?g = "demo_gathered \<lparr>recording_period := True, txn_names := [(0, ''w'')], finish_set := [],
    txn_infos := [(0, push_res (demo_res 5 4 [1]) 1 (new_txn_info 0 ''w'' True))]\<rparr>"
  have g: "gather [Some (demo_answer 0)] demo_late = Inr ?g"
    by (simp add: gather_def clear_all_def add_answer_def add_txn_def demo_answer_def demo_late_def demo_ctl_def new_ctl_def
        demo_gathered_def period_of_def demo_res_def dict_get_def)
  have t: "interval_time ?g = 1" "total_time ?g = 1" "progress ?g = progress demo_gathered"
    using demo_times by (simp_all add: interval_time_def total_time_def progress_def)
  obtain p where p: "progress ?g = Inr p" "p \<le> 1" using demo_progress_small t(3) by auto
  have "\<forall>x \<in> set (txn_infos ?g). max_ok (snd x)" "stage_phase p ?g = Keep"
    using p(2) by (simp_all add: max_ok_ops stage_phase_def)
  from heartbeat_ok [OF g this(1) p(1) this(2), unfolded t(1,2), OF zero_neq_one [symmetric] zero_neq_one [symmetric]]
  obtain nb out c1 where h: "heartbeat [Some (demo_answer 0)] 0 demo_late = Inr (nb, out, c1)" by blast
  have d: "recording_period demo_late" "map_of (txn_infos demo_late) 0 = None" "reports_of 0 [Some (demo_answer 0)] \<noteq> []"
    by (simp_all add: demo_late_def reports_of_def demo_answer_def)
  have "benchmark_record [] c1 = Inr (num_proxies c1 = length (finish_set c1), [], c1)" by (simp add: benchmark_record.simps)
  from late_type_fails [OF d h this] h show ?thesis by auto
qed

end
