(* ===== verification/Py_Yaml.thy ===== *)
theory Py_Yaml
  imports Py_Args Complex_Main
begin

text \<open>
  Values of YAML documents as the scripts use them: what \<^verbatim>\<open>yaml.load\<close> returns and \<^verbatim>\<open>yaml.dump\<close> takes, with strings
  as the keys of mappings, and the dictionary operations on them.  The text of a document does not occur:
  a file system maps a path to the value its text stands for.  \<^verbatim>\<open>d.update(x)\<close> by anything but a mapping is an
  error here, although Python would also take a list of pairs.
\<close>

datatype yaml =
    YNone
  | YBool bool
  | YInt int
  | YFloat rat
  | YStr string
  | YSeq "yaml list"
  | YMap "(string \<times> yaml) list"

type_synonym ydict = "(string \<times> yaml) list"

definition y_map :: "yaml \<Rightarrow> ydict res" where
  "y_map v = (case v of YMap d \<Rightarrow> Inr d | _ \<Rightarrow> Inl TypeError)"

definition y_str :: "yaml \<Rightarrow> string res" where
  "y_str v = (case v of YStr s \<Rightarrow> Inr s | _ \<Rightarrow> Inl TypeError)"

definition y_seq :: "yaml \<Rightarrow> yaml list res" where
  "y_seq v = (case v of YSeq xs \<Rightarrow> Inr xs | _ \<Rightarrow> Inl TypeError)"

text \<open>\<^verbatim>\<open>v[k]\<close>, \<^verbatim>\<open>v[k] = x\<close>, \<^verbatim>\<open>k in v\<close> for a string \<open>k\<close>.\<close>

definition y_get :: "yaml \<Rightarrow> string \<Rightarrow> yaml res" where
  "y_get v k = bindE (y_map v) (\<lambda>d. dict_get d k)"

definition y_set :: "yaml \<Rightarrow> string \<Rightarrow> yaml \<Rightarrow> yaml res" where
  "y_set v k x = bindE (y_map v) (\<lambda>d. Inr (YMap (AList.update k x d)))"

definition y_in :: "string \<Rightarrow> yaml \<Rightarrow> bool res" where
  "y_in k v =
     (case v of
        YMap d \<Rightarrow> Inr (k \<in> fst ` set d)
      | YSeq xs \<Rightarrow> Inr (YStr k \<in> set xs)
      | YStr s \<Rightarrow> Inr (str_in k s)
      | _ \<Rightarrow> Inl TypeError)"

definition dict_update :: "('k \<times> 'v) list \<Rightarrow> ('k \<times> 'v) list \<Rightarrow> ('k \<times> 'v) list" where
  "dict_update d e = foldl (\<lambda>d (k, v). AList.update k v d) d e"

definition y_strs :: "yaml \<Rightarrow> string list res" where
  "y_strs v = bindE (y_seq v) (mapE y_str)"

definition y_str_dict :: "yaml \<Rightarrow> (string \<times> string) list res" where
  "y_str_dict v = bindE (y_map v) (mapE (\<lambda>(k, x). bindE (y_str x) (\<lambda>s. Inr (k, s))))"

lemma map_of_dict_update: "distinct (map fst e) \<Longrightarrow> map_of (dict_update d e) = map_of d ++ map_of e"
proof (induction e arbitrary: d)
  case Nil
  then show ?case by (simp add: dict_update_def)
next
  case (Cons x e)
  obtain k v where x: "x = (k, v)" by force
  have "map_of (dict_update d (x # e)) = map_of (dict_update (AList.update k v d) e)"
    by (simp add: dict_update_def x)
  also have "\<dots> = map_of (AList.update k v d) ++ map_of e"
    using Cons by simp
  also have "\<dots> = map_of d ++ map_of (x # e)"
    using Cons.prems by (auto simp: x update_conv' fun_eq_iff map_add_def split: option.splits dest: map_of_SomeD
        intro: rev_image_eqI)
  finally show ?case .
qed

lemma update_fst: "fst ` set (AList.update k v d) = insert k (fst ` set d)"
  by (induction d) auto

lemma dict_update_keys: "fst ` set (dict_update d e) = fst ` set d \<union> fst ` set e"
proof (induction e arbitrary: d)
  case (Cons x e)
  then show ?case by (cases x) (simp add: dict_update_def update_fst Un_commute)
qed (simp add: dict_update_def)

lemma dict_update_distinct: "distinct (map fst d) \<Longrightarrow> distinct (map fst (dict_update d e))"
  by (induction e arbitrary: d) (auto simp: dict_update_def distinct_update)

lemma dict_update_append: "dict_update d (e @ f) = dict_update (dict_update d e) f"
  by (simp add: dict_update_def)

lemma dict_update_new:
  assumes "distinct (map fst e)" and "fst ` set d \<inter> fst ` set e = {}"
  shows "dict_update d e = d @ e"
  using assms
proof (induction e arbitrary: d)
  case Nil
  then show ?case by (simp add: dict_update_def)
next
  case (Cons x e)
  obtain k v where x: "x = (k, v)" by force
  have "dict_update d (x # e) = dict_update (AList.update k v d) e"
    by (simp add: dict_update_def x)
  also have "AList.update k v d = d @ [(k, v)]"
    using Cons.prems by (intro update_new) (auto simp: x)
  also have "dict_update \<dots> e = (d @ [(k, v)]) @ e"
    using Cons.prems by (intro Cons.IH) (auto simp: x)
  finally show ?case by (simp add: x)
qed

lemma dict_update_from:
  assumes "map_of (dict_update d e) h = Some n"
  shows "map_of d h = Some n \<or> (h, n) \<in> set e"
  using assms
proof (induction e arbitrary: d)
  case (Cons x e)
  obtain k v where x: "x = (k, v)" by force
  from Cons.prems have "map_of (dict_update (AList.update k v d) e) h = Some n"
    by (simp add: dict_update_def x)
  from Cons.IH [OF this] show ?case
    by (auto simp: update_conv' x split: if_splits)
qed (simp add: dict_update_def)

end
