(* ===== verification/Run_Server.thy ===== *)
theory Run_Server
  imports Run_Client Py_Yaml
begin

text \<open>
  Class \<^verbatim>\<open>ServerController\<close> of \<^verbatim>\<open>run.py\<close> but for its heartbeat (see \<open>Run_Heartbeat\<close>), the remote commands of
  \<^verbatim>\<open>pylib/ps.py\<close>, \<^verbatim>\<open>build_config\<close> and \<^verbatim>\<open>main\<close>.  What the controller does to other machines is the sequence of command
  lines it runs, each a list of words.
\<close>

section \<open>ServerResponse\<close>

record value_times =
  vt_value :: int
  vt_times :: int

definition new_server_response :: "value_times \<Rightarrow> value_times" where
  "new_server_response p = \<lparr>vt_value = vt_value p, vt_times = vt_times p\<rparr>"

definition add_one :: "value_times \<Rightarrow> value_times \<Rightarrow> value_times" where
  "add_one p r = r \<lparr>vt_value := vt_value r + vt_value p, vt_times := vt_times r + vt_times p\<rparr>"

definition get_ave :: "value_times \<Rightarrow> rat res" where
  "get_ave r = (if vt_times r = 0 then Inr 0 else fdiv (fmul 1 (of_int (vt_value r))) (of_int (vt_times r)))"

lemma add_one_sums:
  "vt_value (foldl (\<lambda>r p. add_one p r) r ps) = vt_value r + sum_list (map vt_value ps)"
  "vt_times (foldl (\<lambda>r p. add_one p r) r ps) = vt_times r + sum_list (map vt_times ps)"
  by (induction ps arbitrary: r) (simp_all add: add_one_def)

section \<open>Remote commands\<close>

definition ps_cmd :: "string \<Rightarrow> string \<Rightarrow> string list" where
  "ps_cmd grep_filter host =
     [''ssh'', host, ''/bin/bash'', ''-c'',
      [CHR 0x27] @ ''ps -eLF | grep '' @ [CHR 0x22] @ grep_filter @ [CHR 0x22, CHR 0x27]]"

text \<open>One line of \<^verbatim>\<open>ps\<close>'s report; a failed command ends its thread before it puts anything into the queue.\<close>

definition ps_work :: "string \<Rightarrow> string res \<Rightarrow> string option" where
  "ps_work host outcome =
     (case outcome of
        Inl _ \<Rightarrow> None
      | Inr out \<Rightarrow> Some (''----------'' @ [CHR 0x0A] @ ''Server: '' @ host @ [CHR 0x0A] @ ''-------------'' @ [CHR 0x0A] @ out))"

text \<open>The report of \<^verbatim>\<open>ps\<close>, from what the queue gave within the time limit, host after host.\<close>

definition ps_report :: "string option list \<Rightarrow> string" where
  "ps_report arrivals = py_join [CHR 0x0A] (List.map_filter id arrivals)"

definition killall_cmd :: "string \<Rightarrow> string \<Rightarrow> string \<Rightarrow> string list" where
  "killall_cmd proc param host = [''ssh'', host, ''killall'', ''-q'', param, proc]"

text \<open>A set of hosts is a list without duplicates; its threads run at the same time, in any order.\<close>

definition host_set :: "process_dict \<Rightarrow> string list" where
  "host_set infos = remdups (map (\<lambda>(_, pr). p_host_address pr) infos)"

definition server_kill :: "process_dict \<Rightarrow> string list list" where
  "server_kill infos =
     map (ps_cmd ''deptran_server'') (host_set infos) @
     map (killall_cmd ''deptran_server'' ''-9'') (host_set infos) @
     map (ps_cmd ''deptran_server'') (host_set infos)"

section \<open>The controller\<close>

record server_ctl =
  sv_config :: site_config
  sv_timeout :: argval
  sv_log_dir :: argval
  sv_taskset :: argval
  sv_recording_path :: argval
  sv_infos :: process_dict

definition new_server_ctl :: "site_config \<Rightarrow> process_dict \<Rightarrow> server_ctl res" where
  "new_server_ctl cfg infos =
     bindE (arg_get (c_args cfg) ''s_timeout'') (\<lambda>timeout.
     bindE (arg_get (c_args cfg) ''log_dir'') (\<lambda>log_dir.
     bindE (arg_get (c_args cfg) ''s_taskset'') (\<lambda>taskset.
     bindE (arg_get (c_args cfg) ''recording_path'') (\<lambda>recording_path.
     Inr \<lparr>sv_config = cfg, sv_timeout = timeout, sv_log_dir = log_dir, sv_taskset = taskset,
          sv_recording_path = recording_path, sv_infos = infos\<rparr>))))"

text \<open>\<^verbatim>\<open>v == i\<close> for an integer \<open>i\<close>.\<close>

definition arg_eq_int :: "argval \<Rightarrow> int \<Rightarrow> bool" where
  "arg_eq_int v i = (case v of AInt j \<Rightarrow> j = i | ABool b \<Rightarrow> (if b then 1 else 0) = i | _ \<Rightarrow> False)"

definition taskset_func :: "argval \<Rightarrow> int \<Rightarrow> string" where
  "taskset_func taskset x =
     (if arg_eq_int taskset 1 then ''taskset -ac '' @ str_of_int (2 * x + 16)
      else if arg_eq_int taskset 2 then ''taskset -ac '' @ str_of_int (2 * x + 1)
      else if arg_eq_int taskset 3 then ''taskset -ac '' @ str_of_int (2 * x)
      else '''')"

text \<open>A value used as a string.\<close>

definition arg_text :: "argval \<Rightarrow> string res" where
  "arg_text v = (case v of AStr s \<Rightarrow> Inr s | _ \<Rightarrow> Inl TypeError)"

definition quote :: "string \<Rightarrow> string" where
  "quote s = CHR 0x27 # s @ [CHR 0x27]"

definition file_opts :: "argval \<Rightarrow> string res" where
  "file_opts v =
     (case v of
        AList fs \<Rightarrow> bindE (mapE arg_text fs) (\<lambda>names. Inr (concat (map (\<lambda>f. ''-f '' @ quote f @ '' '') names)))
      | _ \<Rightarrow> Inl TypeError)"

text \<open>The command for a process when \<open>n\<close> processes of its host have been counted before.\<close>

definition process_cmd :: "string \<Rightarrow> server_ctl \<Rightarrow> process_info \<Rightarrow> int \<Rightarrow> string res" where
  "process_cmd deptran_home sc process n =
     bindE (arg_text (sv_log_dir sc)) (\<lambda>log_dir.
     bindE (arg_text (sv_recording_path sc)) (\<lambda>rpath.
     bindE (arg_get (c_args (sv_config sc)) ''c_duration'') (\<lambda>duration.
     bindE (bindE (arg_get (c_args (sv_config sc)) ''config_files'') file_opts) (\<lambda>fopts.
     bindE (bindE (arg_get (c_args (sv_config sc)) ''rpc_port'') (\<lambda>p. add_id p (p_id process))) (\<lambda>port.
     bindE (arg_get (c_args (sv_config sc)) ''s_timeout'') (\<lambda>timeout.
     bindE (bindE (arg_get (c_args (sv_config sc)) ''log_dir'') arg_text) (\<lambda>args_log_dir.
     let recording = (if rpath \<noteq> [] then '' -r '' @ quote (rpath @ ''/deptran_server_'' @ p_name process) @ '' '' else '''');
         s = ''nohup '' @ taskset_func (sv_taskset sc) n @ '' ./build/deptran_server '' @ ''-b '' @
             ''-d '' @ py_str duration @ '' '' @ fopts @
             ''-P '' @ quote (p_name process) @ '' '' @
             ''-p '' @ str_of_int port @ '' '' @ ''-t '' @ py_str timeout @ '' '' @
             ''-r '' @ quote args_log_dir @ '' '' @ recording @
             ''1>'' @ quote (log_dir @ ''/proc-'' @ p_name process @ ''.log'') @ '' '' @
             ''2>'' @ quote (log_dir @ ''/proc-'' @ p_name process @ ''.err'') @ '' '' @ ''&''
     in Inr (py_join '' ''
         ([''cd '' @ deptran_home @ ''; '', ''mkdir -p '' @ log_dir @ ''; ''] @
          (if rpath \<noteq> [] then [''mkdir -p '' @ rpath @ ''; ''] else []) @ [s])))))))))"

type_synonym host_counts = "(string \<times> int) list"

definition gen_process_cmd :: "string \<Rightarrow> server_ctl \<Rightarrow> process_info \<Rightarrow> host_counts \<Rightarrow> (string \<times> host_counts) res" where
  "gen_process_cmd deptran_home sc process hcounts =
     bindE (dict_get hcounts (p_host_address process)) (\<lambda>n.
     bindE (process_cmd deptran_home sc process n) (\<lambda>cmd.
     bindE (dict_get hcounts (p_host_address process)) (\<lambda>m.
     Inr (cmd, AList.update (p_host_address process) (m + 1) hcounts))))"

definition zero_counts :: "server_ctl \<Rightarrow> host_counts" where
  "zero_counts sc = dict_update [] (map (\<lambda>(_, address). (address, 0)) (c_host (sv_config sc)))"

text \<open>
  \<^verbatim>\<open>start\<close> when each thread is done before the next begins: the \<^verbatim>\<open>ssh\<close> commands it runs.  A thread that raises
  runs none, and \<^verbatim>\<open>start\<close> goes on.
\<close>

fun start_threads :: "string \<Rightarrow> server_ctl \<Rightarrow> host_counts \<Rightarrow> process_dict \<Rightarrow> string list list" where
  "start_threads deptran_home sc hcounts [] = []"
| "start_threads deptran_home sc hcounts ((_, process) # rest) =
     (case gen_process_cmd deptran_home sc process hcounts of
        Inl _ \<Rightarrow> start_threads deptran_home sc hcounts rest
      | Inr (cmd, hcounts) \<Rightarrow> [''ssh'', ''-f'', p_host_address process, cmd] # start_threads deptran_home sc hcounts rest)"

definition start :: "string \<Rightarrow> server_ctl \<Rightarrow> string list list" where
  "start deptran_home sc = start_threads deptran_home sc (zero_counts sc) (sv_infos sc)"

text \<open>
  Stopping clients and sites.  \<open>call\<close> is the remote call for a site; its errors are logged and the loop goes on,
  so what is left of a run is the list of logged errors.
\<close>

definition client_kill :: "process_dict \<Rightarrow> string list list res" where
  "client_kill infos =
     bindE (mapE (\<lambda>s. bindE (dict_get infos (s_process s)) (\<lambda>pr. Inr (p_host_address pr))) (get_sites infos Client)) (\<lambda>hosts.
     Inr (map (killall_cmd ''deptran_server'' ''-9'') (remdups hosts)))"

fun shutdown_sites :: "(site_info \<Rightarrow> unit res) \<Rightarrow> site_info list \<Rightarrow> pyerr list" where
  "shutdown_sites call [] = []"
| "shutdown_sites call (s # ss) =
     (case call s of Inl e \<Rightarrow> e # shutdown_sites call ss | Inr _ \<Rightarrow> shutdown_sites call ss)"

definition client_shutdown :: "(site_info \<Rightarrow> unit res) \<Rightarrow> process_dict \<Rightarrow> pyerr list" where
  "client_shutdown call infos = shutdown_sites call (get_sites infos Client)"

section \<open>build\_config and main\<close>

text \<open>
  The configuration: the options under the key \<^verbatim>\<open>args\<close>, until a file with that key replaces them, and the
  contents of the files.
\<close>

record py_config =
  cf_args :: "namespace option"
  cf_items :: ydict

definition add_config :: "(string \<Rightarrow> yaml res) \<Rightarrow> py_config \<Rightarrow> argval \<Rightarrow> py_config res" where
  "add_config load cfg c =
     bindE (arg_text c) (\<lambda>path.
     bindE (load path) (\<lambda>yml.
     bindE (y_map yml) (\<lambda>d.
     Inr \<lparr>cf_args = (if ''args'' \<in> fst ` set d then None else cf_args cfg),
          cf_items = dict_update (cf_items cfg) d\<rparr>)))"

definition build_config :: "(string \<Rightarrow> yaml res) \<Rightarrow> namespace \<Rightarrow> py_config res" where
  "build_config load options =
     bindE (arg_get options ''config_files'') (\<lambda>fs.
     case fs of
       AList cs \<Rightarrow> foldE (add_config load) \<lparr>cf_args = Some options, cf_items = []\<rparr> cs
     | _ \<Rightarrow> Inl TypeError)"

definition config_args :: "py_config \<Rightarrow> namespace res" where
  "config_args cfg = (case cf_args cfg of Some ns \<Rightarrow> Inr ns | None \<Rightarrow> Inl AttributeError)"

text \<open>The log file \<^verbatim>\<open>setup_experiment\<close> opens, if any.\<close>

definition setup_experiment :: "py_config \<Rightarrow> string option res" where
  "setup_experiment cfg =
     bindE (config_args cfg) (\<lambda>args.
     bindE (arg_get args ''experiment_name'') (\<lambda>name.
     if name = ANone then Inr None
     else
       bindE (bindE (arg_get args ''log_dir'') arg_text) (\<lambda>dir.
       bindE (arg_text name) (\<lambda>n. Inr (Some (path_join dir (n @ ''.log'')))))))"

text \<open>The parts of the configuration that \<^verbatim>\<open>get_process_info\<close> reads; names and addresses are strings.\<close>

definition site_config_of :: "py_config \<Rightarrow> site_config res" where
  "site_config_of cfg =
     bindE (bindE (dict_get (cf_items cfg) ''host'') y_str_dict) (\<lambda>hosts.
     bindE (bindE (dict_get (cf_items cfg) ''process'') y_str_dict) (\<lambda>processes.
     bindE (bindE (dict_get (cf_items cfg) ''site'') y_map) (\<lambda>site.
     bindE (mapE (\<lambda>(k, v). bindE (y_seq v) (\<lambda>rows. bindE (mapE y_strs rows) (\<lambda>rs. Inr (k, rs)))) site) (\<lambda>sites.
     bindE (config_args cfg) (\<lambda>args.
     Inr \<lparr>c_args = args, c_host = hosts, c_process = processes, c_site = sites\<rparr>)))))"

text \<open>
  The environment of a run: loading a YAML file, opening the log, and what becomes of \<^verbatim>\<open>setup_heartbeat\<close> and of waiting
  for its process.
\<close>

record run_env =
  e_load :: "string \<Rightarrow> yaml res"
  e_home :: string
  e_open_log :: "string option \<Rightarrow> unit res"
  e_heartbeat :: "server_ctl \<Rightarrow> unit res"

definition main_config :: "run_env \<Rightarrow> (string \<times> string list) list \<Rightarrow> py_config res" where
  "main_config env line =
     bindE (parse_args (run_parser (e_home env @ ''/log'')) line) (\<lambda>options.
     bindE (build_config (e_load env) options) (\<lambda>cfg.
     bindE (setup_experiment cfg) (\<lambda>log_path.
     bindE (e_open_log env log_path) (\<lambda>_. Inr cfg))))"

definition main_server :: "run_env \<Rightarrow> (string \<times> string list) list \<Rightarrow> (py_config \<times> server_ctl) res" where
  "main_server env line =
     bindE (main_config env line) (\<lambda>cfg.
     bindE (site_config_of cfg) (\<lambda>sites.
     bindE (get_process_info sites new_counters) (\<lambda>(infos, _).
     bindE (new_server_ctl sites infos) (\<lambda>sc. Inr (cfg, sc)))))"

text \<open>
  From the client controller on.  \<^verbatim>\<open>raw_input\<close> does not exist in Python 3.
\<close>

definition main_run :: "run_env \<Rightarrow> py_config \<Rightarrow> server_ctl \<Rightarrow> unit res" where
  "main_run env cfg sc =
     bindE (bindE (dict_get (cf_items cfg) ''bench'') (\<lambda>b. y_get b ''workload'')) (\<lambda>_.
     bindE (bindE (config_args cfg) (\<lambda>args. arg_get args ''wait'')) (\<lambda>w.
     if w = ABool True then Inl (GenericException ''NameError'') else e_heartbeat env sc))"

text \<open>
  The end of \<^verbatim>\<open>main\<close>: an exception makes the status 1, but for \<^verbatim>\<open>sys.exit\<close>, which keeps its own; the kill runs in any
  case, unless the process has died or never comes back.
\<close>

definition main_end :: "string list list \<Rightarrow> unit res \<Rightarrow> int res \<times> string list list" where
  "main_end kill r =
     (case r of
        Inr _ \<Rightarrow> (Inr 0, kill)
      | Inl e \<Rightarrow>
          (case e of
             Hang \<Rightarrow> (Inl Hang, [])
           | Abort \<Rightarrow> (Inl Abort, [])
           | Undefined \<Rightarrow> (Inl Undefined, [])
           | SystemExit n \<Rightarrow> (Inr n, kill)
           | _ \<Rightarrow> (Inr 1, kill)))"

definition run_main :: "run_env \<Rightarrow> (string \<times> string list) list \<Rightarrow> int res \<times> string list list" where
  "run_main env line =
     (case main_server env line of
        Inl e \<Rightarrow> main_end [] (Inl e)
      | Inr (cfg, sc) \<Rightarrow>
          let before = server_kill (sv_infos sc) @ start (e_home env) sc;
              (status, after) = main_end (server_kill (sv_infos sc)) (main_run env cfg sc)
          in (status, before @ after))"

section \<open>The threads of start\<close>

text \<open>
  \<^verbatim>\<open>run_one_server\<close> as threads: reading the count of the host, building the command, and the two halves of the
  increment are separate steps, and the threads interleave freely.  The states carry the count that went into the
  command.
\<close>

datatype starter = T_New | T_Read int | T_Loaded int int | T_Done int | T_Failed int

record start_state =
  st_counts :: host_counts
  st_threads :: "starter list"

definition host_at :: "server_ctl \<Rightarrow> nat \<Rightarrow> string" where
  "host_at sc i = p_host_address (snd (sv_infos sc ! i))"

definition start_init :: "server_ctl \<Rightarrow> start_state" where
  "start_init sc = \<lparr>st_counts = zero_counts sc, st_threads = replicate (length (sv_infos sc)) T_New\<rparr>"

inductive start_step :: "string \<Rightarrow> server_ctl \<Rightarrow> start_state \<Rightarrow> start_state \<Rightarrow> bool" for deptran_home sc where
  Read:
    "i < length (st_threads s) \<Longrightarrow> st_threads s ! i = T_New \<Longrightarrow> dict_get (st_counts s) (host_at sc i) = Inr n \<Longrightarrow>
     start_step deptran_home sc s (s \<lparr>st_threads := (st_threads s)[i := T_Read n]\<rparr>)"
| Load:
    "i < length (st_threads s) \<Longrightarrow> st_threads s ! i = T_Read n \<Longrightarrow>
     process_cmd deptran_home sc (snd (sv_infos sc ! i)) n = Inr cmd \<Longrightarrow>
     dict_get (st_counts s) (host_at sc i) = Inr m \<Longrightarrow>
     start_step deptran_home sc s (s \<lparr>st_threads := (st_threads s)[i := T_Loaded n m]\<rparr>)"
| Save:
    "i < length (st_threads s) \<Longrightarrow> st_threads s ! i = T_Loaded n m \<Longrightarrow>
     start_step deptran_home sc s
       (s \<lparr>st_counts := AList.update (host_at sc i) (m + 1) (st_counts s), st_threads := (st_threads s)[i := T_Done n]\<rparr>)"
| Fail:
    "i < length (st_threads s) \<Longrightarrow> st_threads s ! i = T_Read n \<Longrightarrow>
     process_cmd deptran_home sc (snd (sv_infos sc ! i)) n = Inl e \<Longrightarrow>
     start_step deptran_home sc s (s \<lparr>st_threads := (st_threads s)[i := T_Failed n]\<rparr>)"

definition on_host :: "server_ctl \<Rightarrow> string \<Rightarrow> nat set" where
  "on_host sc h = {j. j < length (sv_infos sc) \<and> host_at sc j = h}"

fun done_thread :: "starter \<Rightarrow> bool" where
  "done_thread (T_Done n) = True"
| "done_thread _ = False"

definition done_on :: "server_ctl \<Rightarrow> starter list \<Rightarrow> string \<Rightarrow> nat set" where
  "done_on sc ts h = {j. j < length ts \<and> host_at sc j = h \<and> done_thread (ts ! j)}"

text \<open>What a thread of a host with \<open>d\<close> finished threads out of \<open>t\<close> may hold.\<close>

fun starter_ok :: "int \<Rightarrow> int \<Rightarrow> starter \<Rightarrow> bool" where
  "starter_ok d t T_New = True"
| "starter_ok d t (T_Read n) = (0 \<le> n \<and> n \<le> d)"
| "starter_ok d t (T_Loaded n m) = (0 \<le> n \<and> n \<le> d \<and> 0 \<le> m \<and> m \<le> d)"
| "starter_ok d t (T_Done n) = (0 \<le> n \<and> n < t)"
| "starter_ok d t (T_Failed n) = (0 \<le> n \<and> n < t)"

lemma starter_ok_mono: "starter_ok d t x \<Longrightarrow> d \<le> d' \<Longrightarrow> starter_ok d' t x"
  by (cases x) auto

definition start_inv :: "server_ctl \<Rightarrow> start_state \<Rightarrow> bool" where
  "start_inv sc s \<longleftrightarrow>
     length (st_threads s) = length (sv_infos sc) \<and>
     (\<forall>h n. map_of (st_counts s) h = Some n \<longrightarrow> 0 \<le> n \<and> n \<le> int (card (done_on sc (st_threads s) h))) \<and>
     (\<forall>i < length (sv_infos sc).
        starter_ok (card (done_on sc (st_threads s) (host_at sc i))) (card (on_host sc (host_at sc i))) (st_threads s ! i))"

lemma start_invD:
  assumes "start_inv sc s"
  shows "length (st_threads s) = length (sv_infos sc)"
    and "map_of (st_counts s) h = Some n \<Longrightarrow> 0 \<le> n \<and> n \<le> int (card (done_on sc (st_threads s) h))"
    and "i < length (sv_infos sc) \<Longrightarrow>
      starter_ok (card (done_on sc (st_threads s) (host_at sc i))) (card (on_host sc (host_at sc i))) (st_threads s ! i)"
  using assms by (auto simp: start_inv_def)

lemma finite_done_on [simp]: "finite (done_on sc ts h)"
  by (simp add: done_on_def)

lemma finite_on_host [simp]: "finite (on_host sc h)"
  by (simp add: on_host_def)

lemma done_on_update:
  assumes "i < length ts" and "\<not> done_thread (ts ! i)"
  shows "done_on sc (ts[i := x]) h = (if done_thread x \<and> host_at sc i = h then insert i (done_on sc ts h) else done_on sc ts h)"
  using assms by (auto simp: done_on_def nth_list_update split: if_splits)

lemma undone_card:
  assumes "i < length ts" and "\<not> done_thread (ts ! i)" and "length ts = length (sv_infos sc)"
  shows "card (done_on sc ts (host_at sc i)) < card (on_host sc (host_at sc i))"
proof (rule psubset_card_mono)
  show "done_on sc ts (host_at sc i) \<subset> on_host sc (host_at sc i)"
    using assms by (auto simp: done_on_def on_host_def)
qed simp

lemma start_inv_move:
  assumes inv: "start_inv sc s" and i: "i < length (st_threads s)" "\<not> done_thread (st_threads s ! i)" "\<not> done_thread x"
    and ok: "starter_ok (card (done_on sc (st_threads s) (host_at sc i))) (card (on_host sc (host_at sc i))) x"
  shows "start_inv sc (s \<lparr>st_threads := (st_threads s)[i := x]\<rparr>)"
  unfolding start_inv_def
  using start_invD [OF inv] i ok by (simp add: done_on_update nth_list_update)

lemma start_inv_save:
  assumes inv: "start_inv sc s" and i: "i < length (st_threads s)" and th: "st_threads s ! i = T_Loaded n m"
  shows "start_inv sc
    (s \<lparr>st_counts := AList.update (host_at sc i) (m + 1) (st_counts s), st_threads := (st_threads s)[i := T_Done n]\<rparr>)"
proof -
  have len: "length (st_threads s) = length (sv_infos sc)" and cnt: "\<And>h n. map_of (st_counts s) h = Some n \<Longrightarrow>
      0 \<le> n \<and> n \<le> int (card (done_on sc (st_threads s) h))" and ths: "\<And>j. j < length (sv_infos sc) \<Longrightarrow>
      starter_ok (card (done_on sc (st_threads s) (host_at sc j))) (card (on_host sc (host_at sc j))) (st_threads s ! j)"
    using start_invD [OF inv] by blast+
  have undone: "\<not> done_thread (st_threads s ! i)"
    by (simp add: th)
  have fresh: "i \<notin> done_on sc (st_threads s) h" for h
    using undone by (simp add: done_on_def)
  have upd: "card (done_on sc ((st_threads s)[i := T_Done n]) h) = card (done_on sc (st_threads s) h) + (if host_at sc i = h then 1 else 0)" for h
    using i undone fresh by (simp add: done_on_update)
  have nm: "0 \<le> n" "n \<le> int (card (done_on sc (st_threads s) (host_at sc i)))" "0 \<le> m" "m \<le> int (card (done_on sc (st_threads s) (host_at sc i)))"
    using ths [of i] i len by (simp_all add: th)
  have lt: "card (done_on sc (st_threads s) (host_at sc i)) < card (on_host sc (host_at sc i))"
    using undone_card [OF i undone len] .
  have "0 \<le> k \<and> k \<le> int (card (done_on sc ((st_threads s)[i := T_Done n]) h))"
    if "map_of (AList.update (host_at sc i) (m + 1) (st_counts s)) h = Some k" for h k
    using that nm cnt [of h k] by (auto simp: upd update_conv' split: if_splits)
  moreover have "starter_ok (card (done_on sc ((st_threads s)[i := T_Done n]) (host_at sc j))) (card (on_host sc (host_at sc j)))
      ((st_threads s)[i := T_Done n] ! j)" if "j < length (sv_infos sc)" for j
  proof (cases "j = i")
    case True
    then show ?thesis using nm lt i by simp
  next
    case False
    then show ?thesis using starter_ok_mono [OF ths [OF that]] by (simp add: upd)
  qed
  ultimately show ?thesis
    by (simp add: start_inv_def len)
qed

lemma start_inv_step:
  assumes "start_step deptran_home sc s s'" and inv: "start_inv sc s"
  shows "start_inv sc s'"
  using assms(1)
proof cases
  case (Read i n)
  then show ?thesis
    using start_invD(2) [OF inv] by (auto intro!: start_inv_move [OF inv] simp: dict_get_Inr_iff)
next
  case (Load i n cmd m)
  then show ?thesis
    using start_invD(2) [OF inv, of "host_at sc i" m] start_invD(3) [OF inv, of i] start_invD(1) [OF inv]
    by (auto intro!: start_inv_move [OF inv] simp: dict_get_Inr_iff)
next
  case (Save i n m)
  then show ?thesis
    using start_inv_save [OF inv] by simp
next
  case (Fail i n e)
  then show ?thesis
    using undone_card [of i "st_threads s" sc] start_invD(3) [OF inv, of i] start_invD(1) [OF inv]
    by (auto intro!: start_inv_move [OF inv])
qed

lemma zero_counts_zero: "map_of (zero_counts sc) h = Some n \<Longrightarrow> n = 0"
  by (auto simp: zero_counts_def dest!: dict_update_from)

lemma start_inv_init: "start_inv sc (start_init sc)"
  by (auto simp: start_inv_def start_init_def dest: zero_counts_zero)

lemma start_inv_reach: "(start_step deptran_home sc)\<^sup>*\<^sup>* (start_init sc) s \<Longrightarrow> start_inv sc s"
  by (induction rule: rtranclp_induct) (auto intro: start_inv_init start_inv_step)

section \<open>Properties\<close>

fun count_used :: "starter \<Rightarrow> int option" where
  "count_used T_New = None"
| "count_used (T_Read n) = Some n"
| "count_used (T_Loaded n m) = Some n"
| "count_used (T_Done n) = Some n"
| "count_used (T_Failed n) = Some n"

text \<open>
  (C17) However the starting threads interleave, the count a thread puts into its command, which selects the
  CPU core of the server, lies between zero and the number of processes on the same host.
\<close>

theorem core_number_bound:
  assumes "(start_step deptran_home sc)\<^sup>*\<^sup>* (start_init sc) s" and "i < length (sv_infos sc)"
    and "count_used (st_threads s ! i) = Some n"
  shows "0 \<le> n \<and> n < int (card (on_host sc (host_at sc i)))"
proof -
  have inv: "start_inv sc s"
    using start_inv_reach [OF assms(1)] .
  have len: "length (st_threads s) = length (sv_infos sc)"
    using start_invD(1) [OF inv] .
  show ?thesis
    using start_invD(3) [OF inv assms(2)] undone_card [of i "st_threads s" sc] assms(2,3) len
    by (cases "st_threads s ! i") auto
qed

definition demo_process :: "string \<Rightarrow> int \<Rightarrow> process_info" where
  "demo_process nm i = \<lparr>p_id = i, p_name = nm, p_host_address = ''10.0.0.1'', p_rpc_port = 5555 + i, p_client_rpc_proxy = None,
     p_sites = []\<rparr>"

definition demo_options :: namespace where
  "demo_options = defaults (run_parser ''/log'')"

definition demo_server :: server_ctl where
  "demo_server =
     \<lparr>sv_config = \<lparr>c_args = demo_options, c_host = [(''a'', ''10.0.0.1''), (''b'', ''10.0.0.1'')], c_process = [], c_site = []\<rparr>,
      sv_timeout = AInt 10, sv_log_dir = AStr ''/log'', sv_taskset = AInt 2, sv_recording_path = AStr '''',
      sv_infos = [(''a'', demo_process ''a'' 0), (''b'', demo_process ''b'' 1)]\<rparr>"

lemma demo_cmd: "\<exists>cmd. process_cmd home demo_server (demo_process nm i) n = Inr cmd"
  by (simp add: process_cmd_def demo_server_def demo_options_def run_parser_def defaults_def arg_get_def arg_text_def
      file_opts_def add_id_def demo_process_def Let_def)

abbreviation demo_state :: "int \<Rightarrow> starter \<Rightarrow> starter \<Rightarrow> start_state" where
  "demo_state n x y \<equiv> \<lparr>st_counts = [(''10.0.0.1'', n)], st_threads = [x, y]\<rparr>"

lemma demo_start_init: "start_init demo_server = demo_state 0 T_New T_New"
  by (simp add: start_init_def demo_server_def zero_counts_def dict_update_def eval_nat_numeral)

lemma demo_hosts: "host_at demo_server 0 = ''10.0.0.1''" "host_at demo_server (Suc 0) = ''10.0.0.1''"
  by (simp_all add: host_at_def demo_server_def demo_process_def)

lemma demo_processes: "snd (sv_infos demo_server ! 0) = demo_process ''a'' 0" "snd (sv_infos demo_server ! Suc 0) = demo_process ''b'' 1"
  by (simp_all add: demo_server_def)

lemma demo_read:
  "start_step home demo_server (demo_state k T_New y) (demo_state k (T_Read k) y)"
  "start_step home demo_server (demo_state k x T_New) (demo_state k x (T_Read k))"
  using start_step.Read [of 0 "demo_state k T_New y" demo_server k home] start_step.Read [of 1 "demo_state k x T_New" demo_server k home]
  by (simp_all add: demo_hosts dict_get_def)

lemma demo_load:
  "start_step home demo_server (demo_state k (T_Read n) y) (demo_state k (T_Loaded n k) y)"
  "start_step home demo_server (demo_state k x (T_Read n)) (demo_state k x (T_Loaded n k))"
proof -
  obtain cmd cmd' where "process_cmd home demo_server (demo_process ''a'' 0) n = Inr cmd"
    "process_cmd home demo_server (demo_process ''b'' 1) n = Inr cmd'"
    using demo_cmd by blast
  then show "start_step home demo_server (demo_state k (T_Read n) y) (demo_state k (T_Loaded n k) y)"
    "start_step home demo_server (demo_state k x (T_Read n)) (demo_state k x (T_Loaded n k))"
    using start_step.Load [of 0 "demo_state k (T_Read n) y" n home demo_server cmd k]
      start_step.Load [of 1 "demo_state k x (T_Read n)" n home demo_server cmd' k]
    by (simp_all add: demo_hosts demo_processes dict_get_def)
qed

lemma demo_save:
  "j = m + 1 \<Longrightarrow> start_step home demo_server (demo_state k (T_Loaded n m) y) (demo_state j (T_Done n) y)"
  "j = m + 1 \<Longrightarrow> start_step home demo_server (demo_state k x (T_Loaded n m)) (demo_state j x (T_Done n))"
  using start_step.Save [of 0 "demo_state k (T_Loaded n m) y" n m home demo_server]
    start_step.Save [of 1 "demo_state k x (T_Loaded n m)" n m home demo_server]
  by (simp_all add: demo_hosts)

lemma demo_start_run: "(start_step home demo_server)\<^sup>*\<^sup>* (start_init demo_server) (demo_state 1 (T_Done 0) (T_Read 1))"
proof -
  have "(start_step home demo_server)\<^sup>*\<^sup>* (start_init demo_server) (demo_state 0 T_New T_New)"
    by (simp add: demo_start_init)
  then have "(start_step home demo_server)\<^sup>*\<^sup>* (start_init demo_server) (demo_state 0 (T_Read 0) T_New)"
    by (rule rtranclp.rtrancl_into_rtrancl) (rule demo_read(1))
  then have "(start_step home demo_server)\<^sup>*\<^sup>* (start_init demo_server) (demo_state 0 (T_Loaded 0 0) T_New)"
    by (rule rtranclp.rtrancl_into_rtrancl) (rule demo_load(1))
  then have "(start_step home demo_server)\<^sup>*\<^sup>* (start_init demo_server) (demo_state 1 (T_Done 0) T_New)"
    by (rule rtranclp.rtrancl_into_rtrancl) (rule demo_save(1), simp)
  then show ?thesis
    by (rule rtranclp.rtrancl_into_rtrancl) (rule demo_read(2))
qed

theorem core_number_bound_witness:
  "(start_step ''/home'' demo_server)\<^sup>*\<^sup>* (start_init demo_server) (demo_state 1 (T_Done 0) (T_Read 1)) \<and>
   (1 :: int) < int (card (on_host demo_server ''10.0.0.1''))"
proof -
  have "1 < length (sv_infos demo_server)"
    by (simp add: demo_server_def)
  from core_number_bound [OF demo_start_run this, of 1] show ?thesis
    using demo_start_run by (simp add: demo_hosts)
qed

text \<open>The counts are not protected: two processes of one host can be given the same core.\<close>

lemma core_number_collision: "(start_step home demo_server)\<^sup>*\<^sup>* (start_init demo_server) (demo_state 1 (T_Done 0) (T_Done 0))"
proof -
  have "(start_step home demo_server)\<^sup>*\<^sup>* (start_init demo_server) (demo_state 0 T_New T_New)"
    by (simp add: demo_start_init)
  then have "(start_step home demo_server)\<^sup>*\<^sup>* (start_init demo_server) (demo_state 0 (T_Read 0) T_New)"
    by (rule rtranclp.rtrancl_into_rtrancl) (rule demo_read(1))
  then have "(start_step home demo_server)\<^sup>*\<^sup>* (start_init demo_server) (demo_state 0 (T_Read 0) (T_Read 0))"
    by (rule rtranclp.rtrancl_into_rtrancl) (rule demo_read(2))
  then have "(start_step home demo_server)\<^sup>*\<^sup>* (start_init demo_server) (demo_state 0 (T_Loaded 0 0) (T_Read 0))"
    by (rule rtranclp.rtrancl_into_rtrancl) (rule demo_load(1))
  then have "(start_step home demo_server)\<^sup>*\<^sup>* (start_init demo_server) (demo_state 0 (T_Loaded 0 0) (T_Loaded 0 0))"
    by (rule rtranclp.rtrancl_into_rtrancl) (rule demo_load(2))
  then have "(start_step home demo_server)\<^sup>*\<^sup>* (start_init demo_server) (demo_state 1 (T_Done 0) (T_Loaded 0 0))"
    by (rule rtranclp.rtrancl_into_rtrancl) (rule demo_save(1), simp)
  then show ?thesis
    by (rule rtranclp.rtrancl_into_rtrancl) (rule demo_save(2), simp)
qed

text \<open>A taskset schema given on the command line is a string and selects nothing.\<close>

lemma taskset_option_ignored:
  assumes "parse_args (run_parser log_dir) (line @ [(''-T'', [v])]) = Inr ns" and "arg_get ns ''s_taskset'' = Inr taskset"
  shows "taskset_func taskset n = []"
proof -
  from assms(1) obtain ns0 where "parse_one (run_parser log_dir) ns0 (''-T'', [v]) = Inr ns"
    by (auto simp: parse_args_def foldE_append usage_error_def elim!: bindE_eq_InrE split: if_splits)
  then have "arg_get ns ''s_taskset'' = Inr (AStr v)"
    by (auto simp: parse_one_def find_spec_def run_parser_def arg_value_def arg_get_def update_conv' bindE_eq_Inr_iff)
  then show ?thesis
    using assms(2) by (simp add: taskset_func_def arg_eq_int_def)
qed

text \<open>
  (C10) Whatever goes wrong after the servers have been started, as long as the controller comes to an end,
  every host on which it started one has its server processes killed afterwards.
\<close>

theorem main_kills_servers:
  assumes "run_main env line = (Inr status, calls)" and "[''ssh'', ''-f'', host, cmd] \<in> set calls"
  shows "\<exists>before after. calls = before @ after \<and> [''ssh'', ''-f'', host, cmd] \<in> set before \<and>
     [''ssh'', host, ''killall'', ''-q'', ''-9'', ''deptran_server''] \<in> set after"
proof -
  have not_kill: "[''ssh'', ''-f'', host, cmd] \<notin> set (server_kill infos)" for infos
    by (auto simp: server_kill_def ps_cmd_def killall_cmd_def)
  have end_calls: "main_end kill r = (Inr status, after) \<Longrightarrow> after = kill" for kill r after
    by (auto simp: main_end_def split: sum.splits pyerr.splits)
  have hosts: "[''ssh'', ''-f'', host, cmd] \<in> set (start_threads home sc cs ps) \<Longrightarrow> host \<in> set (host_set ps)" for home sc cs ps
    by (induction home sc cs ps rule: start_threads.induct) (auto simp: host_set_def split: sum.splits)
  have "main_server env line \<noteq> Inl e" for e
    using assms end_calls [of "[]" "Inl e" calls] by (auto simp: run_main_def)
  then obtain cfg sc where sc: "main_server env line = Inr (cfg, sc)"
    by (cases "main_server env line") auto
  obtain after where after: "main_end (server_kill (sv_infos sc)) (main_run env cfg sc) = (Inr status, after)"
    and calls: "calls = (server_kill (sv_infos sc) @ start (e_home env) sc) @ after"
    using assms(1) by (auto simp: run_main_def sc Let_def split: prod.splits)
  have kill: "after = server_kill (sv_infos sc)"
    using end_calls [OF after] .
  have started: "[''ssh'', ''-f'', host, cmd] \<in> set (start (e_home env) sc)"
    using assms(2) not_kill by (auto simp: calls kill)
  then have "host \<in> set (host_set (sv_infos sc))"
    using hosts by (simp add: start_def)
  then have "[''ssh'', host, ''killall'', ''-q'', ''-9'', ''deptran_server''] \<in> set after"
    by (auto simp: kill server_kill_def killall_cmd_def)
  moreover have "[''ssh'', ''-f'', host, cmd] \<in> set (server_kill (sv_infos sc) @ start (e_home env) sc)"
    using started by simp
  ultimately show ?thesis
    using calls by blast
qed

text \<open>A configuration without a workload: the client controller cannot be made, after the servers have been started.\<close>

definition demo_env :: run_env where
  "demo_env =
     \<lparr>e_load = (\<lambda>_. Inr (YMap [(''host'', YMap [(''h1'', YStr ''10.0.0.1'')]), (''process'', YMap [(''s1'', YStr ''h1'')]),
        (''site'', YMap [(''server'', YSeq [YSeq [YStr ''s1:8100'']]), (''client'', YSeq [])])])),
      e_home = ''/d'', e_open_log = (\<lambda>_. Inr ()), e_heartbeat = (\<lambda>_. Inr ())\<rparr>"

definition demo_line :: "(string \<times> string list) list" where
  "demo_line = [(''-f'', [''x.yml''])]"

definition demo_started :: server_ctl where
  "demo_started =
     (let args = AList.update ''config_files'' (AList [AStr ''x.yml'']) (defaults (run_parser ''/d/log''));
          site = \<lparr>s_id = 0, s_process = ''h1'', s_name = ''s1'', s_type = Server, s_port = 8100, s_rpc_port = 18100, s_rpc_proxy = None\<rparr>
      in \<lparr>sv_config = \<lparr>c_args = args, c_host = [(''h1'', ''10.0.0.1'')], c_process = [(''s1'', ''h1'')],
            c_site = [(''server'', [[''s1:8100'']]), (''client'', [])]\<rparr>,
          sv_timeout = AInt 10, sv_log_dir = AStr ''/d/log'', sv_taskset = AInt 2, sv_recording_path = AStr [],
          sv_infos = [(''h1'', \<lparr>p_id = 0, p_name = ''h1'', p_host_address = ''10.0.0.1'', p_rpc_port = 5555,
            p_client_rpc_proxy = None, p_sites = [site]\<rparr>)]\<rparr>)"

lemma demo_server_made:
  "case main_server demo_env demo_line of Inl _ \<Rightarrow> False | Inr (cfg, sc) \<Rightarrow> sc = demo_started \<and> main_run demo_env cfg sc = Inl KeyError"
  by code_simp

lemma demo_start: "\<exists>cmd. start home demo_started = [[''ssh'', ''-f'', ''10.0.0.1'', cmd]]"
  by (simp add: start_def demo_started_def gen_process_cmd_def zero_counts_def dict_update_def dict_get_def process_cmd_def
      run_parser_def defaults_def arg_get_def arg_text_def file_opts_def add_id_def Let_def)

lemma demo_main:
  "\<exists>cmd after. run_main demo_env demo_line =
     (Inr 1, server_kill (sv_infos demo_started) @ [''ssh'', ''-f'', ''10.0.0.1'', cmd] # after)"
proof -
  obtain cfg where "main_server demo_env demo_line = Inr (cfg, demo_started)" "main_run demo_env cfg demo_started = Inl KeyError"
    using demo_server_made by (auto split: sum.splits)
  moreover obtain cmd where "start (e_home demo_env) demo_started = [[''ssh'', ''-f'', ''10.0.0.1'', cmd]]"
    using demo_start by blast
  ultimately show ?thesis
    by (simp add: run_main_def main_end_def)
qed

theorem main_kills_servers_witness:
  "\<exists>before after cmd. run_main demo_env demo_line = (Inr 1, before @ after) \<and>
     [''ssh'', ''-f'', ''10.0.0.1'', cmd] \<in> set before \<and>
     [''ssh'', ''10.0.0.1'', ''killall'', ''-q'', ''-9'', ''deptran_server''] \<in> set after"
proof -
  obtain cmd after where run: "run_main demo_env demo_line =
      (Inr 1, server_kill (sv_infos demo_started) @ [''ssh'', ''-f'', ''10.0.0.1'', cmd] # after)" (is "_ = (Inr 1, ?calls)")
    using demo_main by blast
  have "[''ssh'', ''-f'', ''10.0.0.1'', cmd] \<in> set ?calls"
    by simp
  from main_kills_servers [OF run this] show ?thesis
    unfolding run by fastforce
qed

end
