(* ===== verification/Run_Heartbeat.thy ===== *)
theory Run_Heartbeat
  imports Run_Server
begin

text \<open>
  The two processes of a run: \<^verbatim>\<open>setup_heartbeat\<close> and the rest of \<^verbatim>\<open>main\<close> in the parent, \<^verbatim>\<open>server_heart_beat\<close> in the child it
  starts.  They share the condition variable \<^verbatim>\<open>cond\<close> with its lock and the integer \<^verbatim>\<open>s_init_finish\<close>.  The processes
  are given by their program counters, one step per statement that reads or writes what they share; a remote
  call may return, or raise, and the answer of a server may be that it is not ready yet.  The interpreter waits
  for the child before it exits, because \<^verbatim>\<open>daemon\<close> is false.  Signals are not modelled, so \<^verbatim>\<open>g_exit\<close> is as at the start.
\<close>

section \<open>The processes\<close>

datatype who = Parent | Child

datatype parent_pc =
    P_Acquire               \<comment> \<open>697\<close>
  | P_While                 \<comment> \<open>698\<close>
  | P_Waiting               \<comment> \<open>in \<^verbatim>\<open>cond.wait\<close>\<close>
  | P_Woken                 \<comment> \<open>notified, before it has the lock again\<close>
  | P_Test                  \<comment> \<open>700\<close>
  | P_Release               \<comment> \<open>703\<close>
  | P_Client                \<comment> \<open>707\<close>
  | P_Acquire2
  | P_Clear                 \<comment> \<open>709\<close>
  | P_Release2
  | P_Join                  \<comment> \<open>1204\<close>
  | P_Finally int           \<comment> \<open>1209, with \<^verbatim>\<open>ret\<close>\<close>
  | P_Exit int              \<comment> \<open>the interpreter waits for the child\<close>
  | P_Ended int

datatype child_pc =
    C_Connect "site_info list"    \<comment> \<open>728, with the sites left\<close>
  | C_Ready "site_info list"      \<comment> \<open>732\<close>
  | C_Set                         \<comment> \<open>741\<close>
  | C_Notify
  | C_Release
  | C_Loop                        \<comment> \<open>749\<close>
  | C_Test                        \<comment> \<open>818\<close>
  | C_Release_Break               \<comment> \<open>819\<close>
  | C_Release_Go                  \<comment> \<open>821\<close>
  | C_Sleep
  | C_Report                      \<comment> \<open>824\<close>
  | C_Except                      \<comment> \<open>836\<close>
  | C_Set_Fail                    \<comment> \<open>838\<close>
  | C_Notify_Fail
  | C_Release_Fail
  | C_Done

text \<open>What the log file shows.\<close>

datatype hb_event =
    Connected site_info | Site_Ready site_info | Init_Failed | Init_Done | Clients_Done | Clients_Failed | Success

record hb_state =
  parent :: parent_pc
  child :: child_pc
  owner :: "who option"
  s_init_finish :: int
  hb_log :: "hb_event list"

record hb_setup =
  h_sites :: "site_info list"
  h_timeout :: int
  h_exit :: bool

definition hb_init :: "hb_setup \<Rightarrow> hb_state" where
  "hb_init u = \<lparr>parent = P_Acquire, child = C_Connect (h_sites u), owner = None, s_init_finish = 0, hb_log = []\<rparr>"

definition log_event :: "hb_event \<Rightarrow> hb_state \<Rightarrow> hb_state" where
  "log_event e s = s \<lparr>hb_log := hb_log s @ [e]\<rparr>"

text \<open>\<^verbatim>\<open>cond.notify\<close> wakes the parent if it waits.\<close>

definition notify :: "hb_state \<Rightarrow> hb_state" where
  "notify s = s \<lparr>parent := (if parent s = P_Waiting then P_Woken else parent s)\<rparr>"

inductive child_step :: "hb_setup \<Rightarrow> hb_state \<Rightarrow> hb_state \<Rightarrow> bool" for u where
  Connect_One: "child s = C_Connect (x # xs) \<Longrightarrow> child_step u s (log_event (Connected x) (s \<lparr>child := C_Connect xs\<rparr>))"
| Connect_Fail: "child s = C_Connect (x # xs) \<Longrightarrow> child_step u s (s \<lparr>child := C_Except\<rparr>)"
| Connect_End: "child s = C_Connect [] \<Longrightarrow> child_step u s (s \<lparr>child := C_Ready (h_sites u)\<rparr>)"
| Not_Ready: "child s = C_Ready (x # xs) \<Longrightarrow> child_step u s s"
| Ready_One: "child s = C_Ready (x # xs) \<Longrightarrow> child_step u s (log_event (Site_Ready x) (s \<lparr>child := C_Ready xs\<rparr>))"
| Ready_Fail: "child s = C_Ready (x # xs) \<Longrightarrow> child_step u s (s \<lparr>child := C_Except\<rparr>)"
| Ready_End: "child s = C_Ready [] \<Longrightarrow> owner s = None \<Longrightarrow> child_step u s (s \<lparr>child := C_Set, owner := Some Child\<rparr>)"
| Set_One: "child s = C_Set \<Longrightarrow> child_step u s (s \<lparr>child := C_Notify, s_init_finish := 1\<rparr>)"
| Notify: "child s = C_Notify \<Longrightarrow> child_step u s (notify (s \<lparr>child := C_Release\<rparr>))"
| Release: "child s = C_Release \<Longrightarrow> child_step u s (s \<lparr>child := C_Loop, owner := None\<rparr>)"
| Loop: "child s = C_Loop \<Longrightarrow> \<not> h_exit u \<Longrightarrow> owner s = None \<Longrightarrow> child_step u s (s \<lparr>child := C_Test, owner := Some Child\<rparr>)"
| Loop_Exit: "child s = C_Loop \<Longrightarrow> h_exit u \<Longrightarrow> child_step u s (s \<lparr>child := C_Report\<rparr>)"
| Test_Zero: "child s = C_Test \<Longrightarrow> s_init_finish s = 0 \<Longrightarrow> child_step u s (s \<lparr>child := C_Release_Break\<rparr>)"
| Test_Other: "child s = C_Test \<Longrightarrow> s_init_finish s \<noteq> 0 \<Longrightarrow> child_step u s (s \<lparr>child := C_Release_Go\<rparr>)"
| Break: "child s = C_Release_Break \<Longrightarrow> child_step u s (s \<lparr>child := C_Report, owner := None\<rparr>)"
| Go: "child s = C_Release_Go \<Longrightarrow> child_step u s (s \<lparr>child := C_Sleep, owner := None\<rparr>)"
| Sleep: "child s = C_Sleep \<Longrightarrow> 0 \<le> h_timeout u \<Longrightarrow> child_step u s (s \<lparr>child := C_Loop\<rparr>)"
| Sleep_Fail: "child s = C_Sleep \<Longrightarrow> h_timeout u < 0 \<Longrightarrow> child_step u s (s \<lparr>child := C_Except\<rparr>)"
| Report: "child s = C_Report \<Longrightarrow> child_step u s (log_event Success (s \<lparr>child := C_Done\<rparr>))"
| Except: "child s = C_Except \<Longrightarrow> owner s = None \<Longrightarrow> child_step u s (s \<lparr>child := C_Set_Fail, owner := Some Child\<rparr>)"
| Set_Five: "child s = C_Set_Fail \<Longrightarrow> child_step u s (s \<lparr>child := C_Notify_Fail, s_init_finish := 5\<rparr>)"
| Notify_Fail: "child s = C_Notify_Fail \<Longrightarrow> child_step u s (notify (s \<lparr>child := C_Release_Fail\<rparr>))"
| Release_Fail: "child s = C_Release_Fail \<Longrightarrow> child_step u s (s \<lparr>child := C_Done, owner := None\<rparr>)"

inductive parent_step :: "hb_state \<Rightarrow> hb_state \<Rightarrow> bool" where
  Acquire: "parent s = P_Acquire \<Longrightarrow> owner s = None \<Longrightarrow> parent_step s (s \<lparr>parent := P_While, owner := Some Parent\<rparr>)"
| Wait: "parent s = P_While \<Longrightarrow> s_init_finish s = 0 \<Longrightarrow> parent_step s (s \<lparr>parent := P_Waiting, owner := None\<rparr>)"
| Wake: "parent s = P_Woken \<Longrightarrow> owner s = None \<Longrightarrow> parent_step s (s \<lparr>parent := P_While, owner := Some Parent\<rparr>)"
| Leave: "parent s = P_While \<Longrightarrow> s_init_finish s \<noteq> 0 \<Longrightarrow> parent_step s (s \<lparr>parent := P_Test\<rparr>)"
| Init_Fail: "parent s = P_Test \<Longrightarrow> s_init_finish s = 5 \<Longrightarrow> parent_step s (log_event Init_Failed (s \<lparr>parent := P_Finally 1\<rparr>))"
| Init_Ok: "parent s = P_Test \<Longrightarrow> s_init_finish s \<noteq> 5 \<Longrightarrow> parent_step s (s \<lparr>parent := P_Release\<rparr>)"
| Start_Clients: "parent s = P_Release \<Longrightarrow> parent_step s (log_event Init_Done (s \<lparr>parent := P_Client, owner := None\<rparr>))"
| Client_Return: "parent s = P_Client \<Longrightarrow> parent_step s (log_event Clients_Done (s \<lparr>parent := P_Acquire2\<rparr>))"
| Client_Raise: "parent s = P_Client \<Longrightarrow> parent_step s (log_event Clients_Failed (s \<lparr>parent := P_Finally 1\<rparr>))"
| Acquire2: "parent s = P_Acquire2 \<Longrightarrow> owner s = None \<Longrightarrow> parent_step s (s \<lparr>parent := P_Clear, owner := Some Parent\<rparr>)"
| Clear: "parent s = P_Clear \<Longrightarrow> parent_step s (s \<lparr>parent := P_Release2, s_init_finish := 0\<rparr>)"
| Release2: "parent s = P_Release2 \<Longrightarrow> parent_step s (s \<lparr>parent := P_Join, owner := None\<rparr>)"
| Join: "parent s = P_Join \<Longrightarrow> child s = C_Done \<Longrightarrow> parent_step s (s \<lparr>parent := P_Finally 0\<rparr>)"
| Kill: "parent s = P_Finally r \<Longrightarrow> parent_step s (s \<lparr>parent := P_Exit r\<rparr>)"
| End: "parent s = P_Exit r \<Longrightarrow> child s = C_Done \<Longrightarrow> parent_step s (s \<lparr>parent := P_Ended r\<rparr>)"

definition hb_step :: "hb_setup \<Rightarrow> hb_state \<Rightarrow> hb_state \<Rightarrow> bool" where
  "hb_step u s t \<longleftrightarrow> child_step u s t \<or> parent_step s t"

section \<open>The invariant\<close>

definition child_holds :: "child_pc set" where
  "child_holds = {C_Set, C_Notify, C_Release, C_Test, C_Release_Break, C_Release_Go, C_Set_Fail, C_Notify_Fail, C_Release_Fail}"

definition parent_holds :: "parent_pc set" where
  "parent_holds = {P_While, P_Test, P_Release, P_Clear, P_Release2}"

fun child_early :: "child_pc \<Rightarrow> bool" where
  "child_early (C_Connect xs) = True"
| "child_early (C_Ready xs) = True"
| "child_early C_Set = True"
| "child_early _ = False"

fun sites_left :: "hb_setup \<Rightarrow> child_pc \<Rightarrow> site_info set" where
  "sites_left u (C_Connect xs) = set (h_sites u)"
| "sites_left u (C_Ready xs) = set xs"
| "sites_left u _ = {}"

definition all_ready :: "hb_setup \<Rightarrow> hb_state \<Rightarrow> bool" where
  "all_ready u s \<longleftrightarrow> (\<forall>x \<in> set (h_sites u). Site_Ready x \<in> set (hb_log s))"

text \<open>Who holds the lock.  After a failed initialization the parent never gives it back.\<close>

definition lock_inv :: "hb_state \<Rightarrow> bool" where
  "lock_inv s \<longleftrightarrow>
     (owner s = Some Child \<longleftrightarrow> child s \<in> child_holds) \<and>
     (owner s = Some Parent \<longleftrightarrow> parent s \<in> parent_holds \<or> Init_Failed \<in> set (hb_log s))"

text \<open>What the log says about the parent.\<close>

definition phase_inv :: "hb_state \<Rightarrow> bool" where
  "phase_inv s \<longleftrightarrow>
     (Init_Failed \<in> set (hb_log s) \<longrightarrow> parent s \<in> {P_Finally 1, P_Exit 1, P_Ended 1} \<and> child s = C_Done) \<and>
     (Clients_Done \<in> set (hb_log s) \<longleftrightarrow>
        parent s \<in> {P_Acquire2, P_Clear, P_Release2, P_Join, P_Finally 0, P_Exit 0, P_Ended 0}) \<and>
     (Clients_Failed \<in> set (hb_log s) \<longrightarrow> parent s \<in> {P_Finally 1, P_Exit 1, P_Ended 1}) \<and>
     (\<forall>r. parent s = P_Ended r \<longrightarrow> child s = C_Done)"

text \<open>The values of \<^verbatim>\<open>s_init_finish\<close>.\<close>

definition value_inv :: "hb_state \<Rightarrow> bool" where
  "value_inv s \<longleftrightarrow>
     s_init_finish s \<in> {0, 1, 5} \<and>
     (child_early (child s) \<longrightarrow> s_init_finish s = 0 \<and> parent s \<in> {P_Acquire, P_While, P_Waiting}) \<and>
     (s_init_finish s = 5 \<longrightarrow> child s \<in> {C_Notify_Fail, C_Release_Fail, C_Done}) \<and>
     (s_init_finish s = 0 \<longrightarrow> child_early (child s) \<or> child s \<in> {C_Except, C_Set_Fail} \<or> Clients_Done \<in> set (hb_log s)) \<and>
     (parent s = P_Waiting \<longrightarrow> s_init_finish s = 0 \<or> child s \<in> {C_Notify, C_Notify_Fail}) \<and>
     (parent s \<in> {P_Test, P_Release, P_Client} \<longrightarrow> s_init_finish s \<noteq> 0)"

text \<open>The servers are ready before the clients start.\<close>

definition ready_inv :: "hb_setup \<Rightarrow> hb_state \<Rightarrow> bool" where
  "ready_inv u s \<longleftrightarrow>
     (child_early (child s) \<longrightarrow> (\<forall>x \<in> set (h_sites u). x \<in> sites_left u (child s) \<or> Site_Ready x \<in> set (hb_log s))) \<and>
     (s_init_finish s = 1 \<or> parent s = P_Release \<or> Init_Done \<in> set (hb_log s) \<longrightarrow> all_ready u s)"

text \<open>With a timeout that can be slept, the child runs until the parent tells it to stop.\<close>

definition loop_inv :: "hb_setup \<Rightarrow> hb_state \<Rightarrow> bool" where
  "loop_inv u s \<longleftrightarrow>
     (child s \<in> {C_Release_Break, C_Report} \<or> Success \<in> set (hb_log s) \<longrightarrow> Clients_Done \<in> set (hb_log s)) \<and>
     (0 \<le> h_timeout u \<longrightarrow>
        (s_init_finish s = 1 \<longrightarrow> child s \<in> {C_Notify, C_Release, C_Loop, C_Test, C_Release_Go, C_Sleep}) \<and>
        (parent s \<in> {P_Release, P_Client} \<or> Clients_Failed \<in> set (hb_log s) \<longrightarrow> s_init_finish s = 1))"

lemmas update_defs = log_event_def notify_def

lemma lock_parent: "parent_step s t \<Longrightarrow> lock_inv s \<Longrightarrow> phase_inv s \<Longrightarrow> lock_inv t"
  by (erule parent_step.cases) (auto simp: lock_inv_def phase_inv_def parent_holds_def update_defs)

lemma waiting_holds: "P_Waiting \<notin> parent_holds" "P_Woken \<notin> parent_holds"
  by (simp_all add: parent_holds_def)

lemma lock_child: "child_step u s t \<Longrightarrow> lock_inv s \<Longrightarrow> lock_inv t"
  by (erule child_step.cases) (auto simp: lock_inv_def child_holds_def update_defs waiting_holds split: if_splits)

lemma phase_parent: "parent_step s t \<Longrightarrow> lock_inv s \<Longrightarrow> phase_inv s \<Longrightarrow> value_inv s \<Longrightarrow> phase_inv t"
  by (erule parent_step.cases)
    (auto simp: lock_inv_def phase_inv_def value_inv_def parent_holds_def child_holds_def update_defs)

lemma phase_child: "child_step u s t \<Longrightarrow> phase_inv s \<Longrightarrow> phase_inv t"
  by (erule child_step.cases) (auto simp: phase_inv_def update_defs)

lemma value_parent: "parent_step s t \<Longrightarrow> lock_inv s \<Longrightarrow> phase_inv s \<Longrightarrow> value_inv s \<Longrightarrow> value_inv t"
  by (erule parent_step.cases)
    (auto simp: lock_inv_def phase_inv_def value_inv_def parent_holds_def child_holds_def update_defs)

lemma value_child: "child_step u s t \<Longrightarrow> lock_inv s \<Longrightarrow> phase_inv s \<Longrightarrow> value_inv s \<Longrightarrow> value_inv t"
  by (erule child_step.cases)
    (auto simp: lock_inv_def phase_inv_def value_inv_def parent_holds_def child_holds_def update_defs)

lemma ready_parent: "parent_step s t \<Longrightarrow> value_inv s \<Longrightarrow> ready_inv u s \<Longrightarrow> ready_inv u t"
  by (erule parent_step.cases) (auto simp: value_inv_def ready_inv_def all_ready_def update_defs)

lemma ready_child: "child_step u s t \<Longrightarrow> value_inv s \<Longrightarrow> ready_inv u s \<Longrightarrow> ready_inv u t"
  by (erule child_step.cases) (auto simp: value_inv_def ready_inv_def all_ready_def update_defs)

lemma loop_parent: "parent_step s t \<Longrightarrow> phase_inv s \<Longrightarrow> value_inv s \<Longrightarrow> loop_inv u s \<Longrightarrow> loop_inv u t"
  by (erule parent_step.cases) (auto simp: phase_inv_def value_inv_def loop_inv_def update_defs)

lemma loop_child: "child_step u s t \<Longrightarrow> \<not> h_exit u \<Longrightarrow> value_inv s \<Longrightarrow> loop_inv u s \<Longrightarrow> loop_inv u t"
  by (erule child_step.cases) (auto simp: value_inv_def loop_inv_def update_defs)

definition hb_inv :: "hb_setup \<Rightarrow> hb_state \<Rightarrow> bool" where
  "hb_inv u s \<longleftrightarrow> lock_inv s \<and> phase_inv s \<and> value_inv s \<and> ready_inv u s"

lemma hb_inv_init: "hb_inv u (hb_init u)"
  by (simp add: hb_inv_def hb_init_def lock_inv_def phase_inv_def value_inv_def ready_inv_def child_holds_def parent_holds_def)

lemma hb_inv_step: "hb_step u s t \<Longrightarrow> hb_inv u s \<Longrightarrow> hb_inv u t"
  using lock_parent lock_child phase_parent phase_child value_parent value_child ready_parent ready_child
  unfolding hb_inv_def hb_step_def by metis

lemma hb_inv_reach: "(hb_step u)\<^sup>*\<^sup>* (hb_init u) s \<Longrightarrow> hb_inv u s"
  by (induction rule: rtranclp_induct) (auto intro: hb_inv_init hb_inv_step)

lemma loop_inv_reach:
  assumes "(hb_step u)\<^sup>*\<^sup>* (hb_init u) s" and "\<not> h_exit u"
  shows "loop_inv u s"
  using assms(1)
proof (induction rule: rtranclp_induct)
  case base
  then show ?case by (simp add: loop_inv_def hb_init_def)
next
  case (step s t)
  have "hb_inv u s"
    using hb_inv_reach [OF step(1)] .
  then show ?case
    using step(2,3) loop_parent loop_child assms(2) unfolding hb_inv_def hb_step_def by metis
qed

section \<open>Progress\<close>

lemma owner_cases: "owner s = None \<or> owner s = Some Parent \<or> owner s = Some Child"
  by (metis option.exhaust who.exhaust)

text \<open>A step of the child that moves it, for every place but the end, if the lock can be had.\<close>

lemma moved: "child_step u s t \<Longrightarrow> child t \<noteq> child s \<Longrightarrow> \<exists>t. child_step u s t \<and> child t \<noteq> child s"
  by blast

lemmas child_moved =
  moved [OF Set_One] moved [OF Notify] moved [OF Release] moved [OF Break] moved [OF Go] moved [OF Report]
  moved [OF Set_Five] moved [OF Notify_Fail] moved [OF Release_Fail]

lemma child_moves:
  assumes "child s \<noteq> C_Done" and "child s \<notin> child_holds \<Longrightarrow> owner s = None"
  shows "\<exists>t. child_step u s t \<and> child t \<noteq> child s"
proof (cases "child s")
  case (C_Connect xs)
  then show ?thesis
  proof (cases xs)
    case Nil
    then show ?thesis using C_Connect by (intro moved [OF Connect_End]) simp_all
  next
    case (Cons x ys)
    then show ?thesis using C_Connect by (intro moved [OF Connect_Fail, of s x ys]) simp_all
  qed
next
  case (C_Ready xs)
  then show ?thesis
  proof (cases xs)
    case Nil
    then show ?thesis using C_Ready assms(2) by (intro moved [OF Ready_End]) (simp_all add: child_holds_def)
  next
    case (Cons x ys)
    then show ?thesis using C_Ready by (intro moved [OF Ready_Fail, of s x ys]) simp_all
  qed
next
  case C_Loop
  then show ?thesis
    using assms(2) moved [OF Loop_Exit, of s u] by (cases "h_exit u") (simp, intro moved [OF Loop], simp_all add: child_holds_def)
next
  case C_Test
  then show ?thesis
    using moved [OF Test_Zero, of s u] by (cases "s_init_finish s = 0") (simp, intro moved [OF Test_Other], simp_all)
next
  case C_Sleep
  then show ?thesis
    using moved [OF Sleep, of s u] by (cases "0 \<le> h_timeout u") (simp, intro moved [OF Sleep_Fail], simp_all)
next
  case C_Except
  then show ?thesis
    using assms(2) by (intro moved [OF Except]) (simp_all add: child_holds_def)
next
  case C_Done
  then show ?thesis using assms(1) by simp
qed (rule child_moved, (simp add: update_defs; fail)+)+

lemma child_can_step:
  assumes "child s \<noteq> C_Done" and "owner s \<noteq> Some Parent" and "lock_inv s"
  shows "\<exists>t. child_step u s t \<and> child t \<noteq> child s"
proof (rule child_moves [OF assms(1)])
  show "owner s = None" if "child s \<notin> child_holds"
    using owner_cases [of s] assms(2,3) that by (simp add: lock_inv_def)
qed

lemma parent_free:
  assumes "lock_inv s" and "phase_inv s" and "child s \<noteq> C_Done \<or> Init_Failed \<notin> set (hb_log s)" and "parent s \<notin> parent_holds"
  shows "owner s \<noteq> Some Parent"
  using assms by (auto simp: lock_inv_def phase_inv_def)

lemma parent_can_step:
  assumes "parent s \<in> {P_Acquire, P_Woken, P_Acquire2} \<Longrightarrow> owner s = None" and "parent s = P_Join \<Longrightarrow> child s = C_Done"
    and "\<And>r. parent s = P_Exit r \<Longrightarrow> child s = C_Done" and "parent s \<noteq> P_Waiting" and "\<And>r. parent s \<noteq> P_Ended r"
  shows "\<exists>t. parent_step s t \<and> parent t \<noteq> parent s"
proof (cases "parent s")
  case P_While
  then show ?thesis
    by (cases "s_init_finish s = 0") (force intro: parent_step.intros)+
next
  case P_Test
  then show ?thesis
    by (cases "s_init_finish s = 5") (force simp: log_event_def intro: parent_step.intros)+
next
  case P_Client
  then show ?thesis
    by (force simp: log_event_def intro: parent_step.Client_Return)
qed (use assms in \<open>force simp: log_event_def intro: parent_step.intros\<close>)+

lemma waiting_child:
  assumes "value_inv s" and "phase_inv s" and w: "parent s = P_Waiting"
  shows "child s \<noteq> C_Done"
proof
  assume d: "child s = C_Done"
  then have "s_init_finish s = 0"
    using assms(1) by (simp add: value_inv_def w)
  then have "Clients_Done \<in> set (hb_log s)"
    using assms(1) d by (simp add: value_inv_def)
  then show False
    using assms(2) by (simp add: phase_inv_def w)
qed

lemma lock_free:
  assumes "lock_inv s" and "phase_inv s" and c: "child s = C_Done" and p: "parent s \<in> {P_Acquire, P_Woken, P_Acquire2}"
  shows "owner s = None"
proof -
  have "owner s \<noteq> Some Child"
    using assms(1) c by (simp add: lock_inv_def child_holds_def)
  moreover have "parent s \<notin> parent_holds"
    using p by (elim insertE) (simp_all add: parent_holds_def)
  moreover have "Init_Failed \<notin> set (hb_log s)"
    using assms(2) p by (elim insertE) (simp_all add: phase_inv_def)
  ultimately show ?thesis
    using owner_cases [of s] assms(1) by (simp add: lock_inv_def)
qed

section \<open>A run\<close>

definition demo_site :: site_info where
  "demo_site = \<lparr>s_id = 0, s_process = ''h1'', s_name = ''s1'', s_type = Server, s_port = 8100, s_rpc_port = 18100, s_rpc_proxy = None\<rparr>"

definition demo_setup :: hb_setup where
  "demo_setup = \<lparr>h_sites = [demo_site], h_timeout = 10, h_exit = False\<rparr>"

abbreviation hb_at :: "parent_pc \<Rightarrow> child_pc \<Rightarrow> who option \<Rightarrow> int \<Rightarrow> hb_event list \<Rightarrow> hb_state" where
  "hb_at p c w n l \<equiv> \<lparr>parent = p, child = c, owner = w, s_init_finish = n, hb_log = l\<rparr>"

abbreviation demo_log :: "hb_event list" where
  "demo_log \<equiv> [Connected demo_site, Site_Ready demo_site]"

abbreviation demo_reach :: "hb_state \<Rightarrow> bool" where
  "demo_reach s \<equiv> (hb_step demo_setup)\<^sup>*\<^sup>* (hb_init demo_setup) s"

lemma demo_by_child: "demo_reach s \<Longrightarrow> child_step demo_setup s t \<Longrightarrow> t = t' \<Longrightarrow> demo_reach t'"
  by (metis hb_step_def rtranclp.rtrancl_into_rtrancl)

lemma demo_by_parent: "demo_reach s \<Longrightarrow> parent_step s t \<Longrightarrow> t = t' \<Longrightarrow> demo_reach t'"
  by (metis hb_step_def rtranclp.rtrancl_into_rtrancl)

lemma demo_child_starts: "demo_reach (hb_at P_Acquire C_Loop None 1 demo_log)"
proof -
  have "demo_reach (hb_at P_Acquire (C_Connect [demo_site]) None 0 [])"
    by (simp add: hb_init_def demo_setup_def)
  then have "demo_reach (hb_at P_Acquire (C_Connect []) None 0 [Connected demo_site])"
    by (rule demo_by_child [OF _ Connect_One]) (simp_all add: log_event_def)
  then have "demo_reach (hb_at P_Acquire (C_Ready [demo_site]) None 0 [Connected demo_site])"
    by (rule demo_by_child [OF _ Connect_End]) (simp_all add: demo_setup_def)
  then have "demo_reach (hb_at P_Acquire (C_Ready []) None 0 demo_log)"
    by (rule demo_by_child [OF _ Ready_One]) (simp_all add: log_event_def)
  then have "demo_reach (hb_at P_Acquire C_Set (Some Child) 0 demo_log)"
    by (rule demo_by_child [OF _ Ready_End]) simp_all
  then have "demo_reach (hb_at P_Acquire C_Notify (Some Child) 1 demo_log)"
    by (rule demo_by_child [OF _ Set_One]) simp_all
  then have "demo_reach (hb_at P_Acquire C_Release (Some Child) 1 demo_log)"
    by (rule demo_by_child [OF _ Notify]) (simp_all add: notify_def)
  then show ?thesis
    by (rule demo_by_child [OF _ Release]) simp_all
qed

lemma demo_clients_start: "demo_reach (hb_at P_Client C_Loop None 1 (demo_log @ [Init_Done]))"
proof -
  have "demo_reach (hb_at P_While C_Loop (Some Parent) 1 demo_log)"
    using demo_child_starts by (rule demo_by_parent [OF _ Acquire]) simp_all
  then have "demo_reach (hb_at P_Test C_Loop (Some Parent) 1 demo_log)"
    by (rule demo_by_parent [OF _ Leave]) simp_all
  then have "demo_reach (hb_at P_Release C_Loop (Some Parent) 1 demo_log)"
    by (rule demo_by_parent [OF _ Init_Ok]) simp_all
  then show ?thesis
    by (rule demo_by_parent [OF _ Start_Clients]) (simp_all add: log_event_def)
qed

lemma demo_clients_fail: "demo_reach (hb_at (P_Finally 1) C_Loop None 1 (demo_log @ [Init_Done, Clients_Failed]))"
  using demo_clients_start by (rule demo_by_parent [OF _ Client_Raise]) (simp_all add: log_event_def)

section \<open>Properties\<close>

text \<open>
  (C4) The clients are started only after every server site has answered that it is ready, and the success of the
  benchmark is logged only after the clients have returned.
\<close>

theorem heartbeat_handshake:
  assumes "(hb_step u)\<^sup>*\<^sup>* (hb_init u) s" and "\<not> h_exit u"
  shows "(Init_Done \<in> set (hb_log s) \<longrightarrow> (\<forall>x \<in> set (h_sites u). Site_Ready x \<in> set (hb_log s))) \<and>
    (Success \<in> set (hb_log s) \<longrightarrow> Clients_Done \<in> set (hb_log s))"
  using hb_inv_reach [OF assms(1)] loop_inv_reach [OF assms]
  by (auto simp: hb_inv_def ready_inv_def all_ready_def loop_inv_def)

theorem heartbeat_handshake_witness:
  "demo_reach (hb_at P_Client C_Loop None 1 (demo_log @ [Init_Done])) \<and> Site_Ready demo_site \<in> set (demo_log @ [Init_Done])"
  using heartbeat_handshake [OF demo_clients_start] demo_clients_start by (simp add: demo_setup_def)

text \<open>
  (C6) No notification is lost and nobody waits for a lock for good: as long as the program has not ended, one of
  the two processes can go on.
\<close>

theorem heartbeat_not_stuck:
  assumes "(hb_step u)\<^sup>*\<^sup>* (hb_init u) s" and "\<forall>r. parent s \<noteq> P_Ended r"
  shows "\<exists>t. hb_step u s t \<and> t \<noteq> s"
proof -
  have inv: "lock_inv s" "phase_inv s" "value_inv s"
    using hb_inv_reach [OF assms(1)] by (simp_all add: hb_inv_def)
  have "(\<exists>t. child_step u s t \<and> child t \<noteq> child s) \<or> (\<exists>t. parent_step s t \<and> parent t \<noteq> parent s)"
  proof (cases "child s = C_Done \<or> parent s \<in> parent_holds")
    case True
    have "parent s \<noteq> P_Waiting"
      using True waiting_child [OF inv(3,2)] waiting_holds by metis
    moreover have "owner s = None" if p: "parent s \<in> {P_Acquire, P_Woken, P_Acquire2}"
    proof (rule lock_free [OF inv(1,2) _ p])
      show "child s = C_Done"
        using True p by (elim insertE) (simp_all add: parent_holds_def)
    qed
    moreover have "child s = C_Done" if "parent s = P_Join \<or> parent s = P_Exit r" for r
      using True that by (elim disjE) (simp_all add: parent_holds_def)
    ultimately have "\<exists>t. parent_step s t \<and> parent t \<noteq> parent s"
      using assms(2) by (intro parent_can_step) simp_all
    then show ?thesis ..
  next
    case False
    then have "owner s \<noteq> Some Parent"
      using parent_free [OF inv(1,2)] by simp
    with False child_can_step [OF _ _ inv(1)] show ?thesis by simp
  qed
  then obtain t where "child_step u s t \<or> parent_step s t" and ne: "child t \<noteq> child s \<or> parent t \<noteq> parent s"
    by blast
  then have "hb_step u s t" by (simp add: hb_step_def)
  moreover have "t \<noteq> s" using ne by auto
  ultimately show ?thesis by (intro exI [of _ t] conjI)
qed

theorem heartbeat_not_stuck_witness: "\<exists>t. hb_step demo_setup (hb_at P_Client C_Loop None 1 (demo_log @ [Init_Done])) t"
  using heartbeat_not_stuck [OF demo_clients_start] by auto

text \<open>
  (C18) When running the clients raises an exception, \<^verbatim>\<open>s_init_finish\<close> stays 1 and the heartbeat process goes on for ever,
  so the controller never ends: no reachable state with that failure in its log is a final one.
\<close>

theorem client_failure_hangs:
  assumes "(hb_step u)\<^sup>*\<^sup>* (hb_init u) s" and "\<not> h_exit u" and "0 \<le> h_timeout u" and "Clients_Failed \<in> set (hb_log s)"
  shows "child s \<noteq> C_Done \<and> parent s \<noteq> P_Ended r"
proof -
  have "child s \<noteq> C_Done"
    using loop_inv_reach [OF assms(1,2)] assms(3,4) by (auto simp: loop_inv_def)
  then show ?thesis
    using hb_inv_reach [OF assms(1)] by (auto simp: hb_inv_def phase_inv_def)
qed

theorem client_failure_hangs_witness:
  "demo_reach (hb_at (P_Finally 1) C_Loop None 1 (demo_log @ [Init_Done, Clients_Failed])) \<and> P_Finally 1 \<noteq> P_Ended 1"
  using client_failure_hangs [OF demo_clients_fail, of 1] demo_clients_fail by (simp add: demo_setup_def)

end
