(* ===== verification/Placement.thy ===== *)
theory Placement
  imports Py_Yaml Py_Float Run_Sites
begin

text \<open>
  \<^verbatim>\<open>pylib/placement_strategy.py\<close>: which machine of a cluster each server and client runs on, and the site
  table, as \<^verbatim>\<open>run_all.py\<close> generates them for \<^verbatim>\<open>run.py\<close>.  The iteration order of a Python set is not specified, so it
  is an argument \<open>order\<close> here.  The result is shown to keep clients away from server machines, and to be a
  configuration from which \<^verbatim>\<open>get_process_info\<close> of \<^verbatim>\<open>run.py\<close> builds its process table.
\<close>

section \<open>The strategies\<close>

datatype placement = With_Leader | Balanced

record place_args =
  pa_data_centers :: "string list"
  pa_cpu_count :: int
  pa_overlap :: bool

type_synonym dc_hosts = "(string \<times> string list) list"

text \<open>The data center of a host: the first one whose name is a prefix of the host's.\<close>

definition host_dc :: "string list \<Rightarrow> string \<Rightarrow> string option" where
  "host_dc data_centers h = find (\<lambda>dc. startswith h dc) data_centers"

definition add_host :: "string list \<Rightarrow> dc_hosts \<Rightarrow> string \<Rightarrow> dc_hosts" where
  "add_host data_centers result h =
     (case host_dc data_centers h of
        None \<Rightarrow> result
      | Some dc \<Rightarrow>
          (case map_of result dc of
             None \<Rightarrow> result
           | Some hs \<Rightarrow> AList.update dc (hs @ [h]) result))"

definition hosts_by_datacenter :: "string list \<Rightarrow> string list \<Rightarrow> dc_hosts" where
  "hosts_by_datacenter hosts data_centers =
     (if data_centers = [] then [([], sort hosts)]
      else
        map (\<lambda>(dc, hs). (dc, sort hs))
          (foldl (add_host data_centers) (dict_update [] (map (\<lambda>dc. (dc, [])) data_centers)) hosts))"

text \<open>\<^verbatim>\<open>itertools.cycle\<close>: the list and the position of the next element.\<close>

type_synonym cycle = "string list \<times> nat"

definition stop_iteration :: "'a res" where
  "stop_iteration = Inl (GenericException ''StopIteration'')"

definition next_cycle :: "cycle \<Rightarrow> (string \<times> cycle) res" where
  "next_cycle it =
     (case it of (xs, p) \<Rightarrow> if xs = [] then stop_iteration else Inr (xs ! p, (xs, Suc p mod length xs)))"

record dealing =
  d_datacenter_it :: cycle
  d_hosts_it :: "(string \<times> cycle) list"
  d_process :: "(string \<times> string) list"

definition deal :: "dealing \<Rightarrow> string \<Rightarrow> dealing res" where
  "deal d name =
     bindE (next_cycle (d_datacenter_it d)) (\<lambda>(dc, dc_it).
     bindE (dict_get (d_hosts_it d) dc) (\<lambda>it.
     bindE (next_cycle it) (\<lambda>(host, it).
     Inr \<lparr>d_datacenter_it = dc_it, d_hosts_it = AList.update dc it (d_hosts_it d),
          d_process = AList.update name host (d_process d)\<rparr>)))"

definition deal_all :: "dc_hosts \<Rightarrow> string list \<Rightarrow> (string \<times> string) list \<Rightarrow> (string \<times> string) list res" where
  "deal_all machines names process =
     bindE (foldE deal
       \<lparr>d_datacenter_it = (map fst machines, 0), d_hosts_it = map (\<lambda>(dc, hs). (dc, (hs, 0))) machines, d_process = process\<rparr>
       names) (\<lambda>d. Inr (d_process d))"

text \<open>\<^verbatim>\<open>int(math.ceil(float(a) / float(b)))\<close> and \<^verbatim>\<open>xs[:n]\<close>.\<close>

definition ceil_div :: "int \<Rightarrow> int \<Rightarrow> int res" where
  "ceil_div a b = bindE (fdiv (float_of a) (float_of b)) (\<lambda>q. Inr \<lceil>q\<rceil>)"

definition py_upto :: "int \<Rightarrow> 'a list \<Rightarrow> 'a list" where
  "py_upto n xs = (if 0 \<le> n then take (nat n) xs else take (length xs - nat (- n)) xs)"

definition server_machines :: "int \<Rightarrow> dc_hosts \<Rightarrow> dc_hosts" where
  "server_machines n hosts = map (\<lambda>(dc, hs). (dc, py_upto n hs)) hosts"

definition client_machines :: "(string list \<Rightarrow> string list) \<Rightarrow> int \<Rightarrow> dc_hosts \<Rightarrow> dc_hosts" where
  "client_machines order n hosts =
     map (\<lambda>(dc, hs). (dc, order (filter (\<lambda>h. h \<notin> set (py_upto n hs)) (remdups hs)))) hosts"

definition generate_process ::
  "(string list \<Rightarrow> string list) \<Rightarrow> place_args \<Rightarrow> dc_hosts \<Rightarrow> string list \<Rightarrow> string list \<Rightarrow> (string \<times> string) list res" where
  "generate_process order args hosts server_names client_names =
     bindE (ceil_div (int (length server_names)) (pa_cpu_count args)) (\<lambda>num_servers.
     bindE (ceil_div num_servers (int (length hosts))) (\<lambda>per_datacenter.
     bindE (deal_all (server_machines per_datacenter hosts) server_names []) (\<lambda>process.
     let clients = client_machines order per_datacenter hosts in
     bindE (if sum_list (map (\<lambda>(_, hs). length hs) clients) = 0
            then (if pa_overlap args then Inr (server_machines per_datacenter hosts) else Inl (SystemExit 1))
            else Inr clients) (\<lambda>machines.
     deal_all machines client_names process))))"

definition py_range :: "int \<Rightarrow> int list" where
  "py_range n = [0..n - 1]"

definition server_cell :: "int \<Rightarrow> string list \<Rightarrow> int \<Rightarrow> string list \<times> int \<Rightarrow> int \<Rightarrow> (string list \<times> int) res" where
  "server_cell num_replicas names sid st repid =
     (case st of (row, port) \<Rightarrow>
        bindE (py_nth names (num_replicas * sid + repid)) (\<lambda>nm.
        Inr (row @ [nm @ '':'' @ str_of_int port], port + 1)))"

definition server_row :: "int \<Rightarrow> string list \<Rightarrow> string list list \<times> int \<Rightarrow> int \<Rightarrow> (string list list \<times> int) res" where
  "server_row num_replicas names st sid =
     (case st of (rows, port) \<Rightarrow>
        bindE (foldE (server_cell num_replicas names sid) ([], port) (py_range num_replicas)) (\<lambda>(row, port).
        Inr (rows @ [row], port)))"

definition generate_site_server :: "int \<Rightarrow> int \<Rightarrow> string list \<Rightarrow> string list list res" where
  "generate_site_server num_s num_replicas names =
     bindE (foldE (server_row num_replicas names) ([], 10000) (py_range num_s)) (\<lambda>(rows, port). Inr rows)"

definition client_row_step ::
  "int \<Rightarrow> string list \<Rightarrow> string list list \<times> string list \<Rightarrow> int \<Rightarrow> (string list list \<times> string list) res" where
  "client_row_step num_replicas names st cid =
     (case st of (rows, row) \<Rightarrow>
        bindE (py_nth names cid) (\<lambda>nm.
        let row = row @ [nm] in
        if num_replicas = 0 then Inl ZeroDivisionError
        else if int (length row) mod num_replicas = 0 \<and> 0 < length row then Inr (rows @ [row], [])
        else Inr (rows, row)))"

definition generate_site_client :: "placement \<Rightarrow> int \<Rightarrow> int \<Rightarrow> string list \<Rightarrow> string list list res" where
  "generate_site_client strategy num_c num_replicas names =
     (case strategy of
        Balanced \<Rightarrow>
          bindE (foldE (client_row_step num_replicas names) ([], []) (py_range num_c)) (\<lambda>(rows, row).
          Inr (if 0 < length row then rows @ [row] else rows))
      | With_Leader \<Rightarrow> Inr (map (\<lambda>nm. [nm]) names))"

record layout =
  l_site :: "(string \<times> string list list) list"
  l_process :: "(string \<times> string) list"

definition server_names :: "int \<Rightarrow> string list" where
  "server_names n = map (\<lambda>i. ''s'' @ str_of_int i) (py_range n)"

definition client_names :: "int \<Rightarrow> string list" where
  "client_names n = map (\<lambda>i. ''c'' @ str_of_int i) (py_range n)"

definition generate_layout ::
  "placement \<Rightarrow> (string list \<Rightarrow> string list) \<Rightarrow> place_args \<Rightarrow> int \<Rightarrow> int \<Rightarrow> int \<Rightarrow> string list \<Rightarrow> layout res" where
  "generate_layout strategy order args num_c num_s num_replicas hosts =
     bindE (generate_process order args (hosts_by_datacenter hosts (pa_data_centers args))
        (server_names (num_s * num_replicas)) (client_names num_c)) (\<lambda>process.
     bindE (generate_site_server num_s num_replicas (server_names (num_s * num_replicas))) (\<lambda>servers.
     bindE (generate_site_client strategy num_c num_replicas (client_names num_c)) (\<lambda>clients.
     Inr \<lparr>l_site = [(''server'', servers), (''client'', clients)], l_process = process\<rparr>)))"

section \<open>Dealing names to machines\<close>

definition machines_of :: "dc_hosts \<Rightarrow> string set" where
  "machines_of m = {h. \<exists>dc hs. (dc, hs) \<in> set m \<and> h \<in> set hs}"

lemma machines_ofI: "(dc, hs) \<in> set m \<Longrightarrow> h \<in> set hs \<Longrightarrow> h \<in> machines_of m"
  by (auto simp: machines_of_def)

lemma machines_ofE:
  assumes "h \<in> machines_of m"
  obtains dc hs where "(dc, hs) \<in> set m" "h \<in> set hs"
  using assms by (auto simp: machines_of_def)

lemma next_cycle_Inr: "next_cycle (xs, p) = Inr (x, it) \<Longrightarrow> p < length xs \<Longrightarrow> x \<in> set xs \<and> fst it = xs \<and> snd it < length xs"
  by (auto simp: next_cycle_def stop_iteration_def split: if_splits)

definition cycles_ok :: "string set \<Rightarrow> dealing \<Rightarrow> bool" where
  "cycles_ok ms d \<longleftrightarrow>
     (\<forall>dc xs p. map_of (d_hosts_it d) dc = Some (xs, p) \<longrightarrow> (xs = [] \<or> p < length xs) \<and> set xs \<subseteq> ms)"

lemma deal_step:
  assumes "deal d name = Inr d'" and ok: "cycles_ok ms d"
  shows "cycles_ok ms d' \<and> (\<exists>h \<in> ms. d_process d' = AList.update name h (d_process d))"
proof -
  obtain dc dcit xs p h it where get: "map_of (d_hosts_it d) dc = Some (xs, p)" and nx: "next_cycle (xs, p) = Inr (h, it)"
    and d': "d' = \<lparr>d_datacenter_it = dcit, d_hosts_it = AList.update dc it (d_hosts_it d), d_process = AList.update name h (d_process d)\<rparr>"
    using assms(1) by (auto simp: deal_def dict_get_Inr_iff elim!: bindE_eq_InrE)
  have "xs \<noteq> []"
    using nx by (auto simp: next_cycle_def stop_iteration_def)
  then have lt: "p < length xs" and sub: "set xs \<subseteq> ms"
    using ok get by (auto simp: cycles_ok_def)
  from next_cycle_Inr [OF nx lt] have it: "h \<in> set xs" "fst it = xs" "snd it < length xs"
    by simp_all
  have "cycles_ok ms d'"
    using ok it(2,3) sub by (auto simp: cycles_ok_def d' update_conv' split: if_splits)
  then show ?thesis
    using it(1) sub by (auto simp: d')
qed

lemma deal_fold:
  assumes "foldE deal d names = Inr d'" and "cycles_ok ms d"
  shows "\<exists>hs. length hs = length names \<and> set hs \<subseteq> ms \<and> d_process d' = dict_update (d_process d) (zip names hs)"
  using assms
proof (induction names arbitrary: d)
  case Nil
  then show ?case by (simp add: dict_update_def)
next
  case (Cons name names)
  then obtain d1 where d1: "deal d name = Inr d1" and rest: "foldE deal d1 names = Inr d'"
    by (auto elim!: bindE_eq_InrE)
  from deal_step [OF d1 Cons.prems(2)] obtain h where "cycles_ok ms d1" "h \<in> ms" "d_process d1 = AList.update name h (d_process d)"
    by blast
  moreover from Cons.IH [OF rest this(1)] obtain hs where
    "length hs = length names" "set hs \<subseteq> ms" "d_process d' = dict_update (d_process d1) (zip names hs)"
    by blast
  ultimately show ?case
    by (intro exI [of _ "h # hs"]) (simp add: dict_update_def)
qed

lemma deal_all_Inr:
  assumes "deal_all machines names process = Inr process'"
  shows "\<exists>hs. length hs = length names \<and> set hs \<subseteq> machines_of machines \<and> process' = dict_update process (zip names hs)"
proof -
  let ?d = "\<lparr>d_datacenter_it = (map fst machines, 0), d_hosts_it = map (\<lambda>(dc, hs). (dc, (hs, 0))) machines, d_process = process\<rparr>"
  have ok: "cycles_ok (machines_of machines) ?d"
    by (auto simp: cycles_ok_def map_of_map dest!: map_of_SomeD intro: machines_ofI)
  from assms obtain d' where d': "foldE deal ?d names = Inr d'" "process' = d_process d'"
    by (auto simp: deal_all_def elim!: bindE_eq_InrE)
  from deal_fold [OF d'(1) ok] show ?thesis
    by (simp add: d'(2))
qed

section \<open>Machines\<close>

lemma py_upto_set: "set (py_upto n xs) \<subseteq> set xs"
  by (auto simp: py_upto_def dest: in_set_takeD)

lemma add_host_entries:
  assumes "\<forall>(dc, hs) \<in> set d. \<forall>h \<in> set hs. host_dc dcs h = Some dc" and "(dc, hs) \<in> set (add_host dcs d x)" and "h \<in> set hs"
    and "distinct (map fst d)"
  shows "host_dc dcs h = Some dc"
proof (cases "(dc, hs) \<in> set d")
  case True
  then show ?thesis using assms(1,3) by blast
next
  case False
  then obtain hs0 where x: "host_dc dcs x = Some dc" "map_of d dc = Some hs0" "hs = hs0 @ [x]"
    using assms(2) update_set by (fastforce simp: add_host_def split: option.splits)
  then show ?thesis
    using assms(1,3) map_of_SomeD [OF x(2)] by auto
qed

lemma add_host_keys: "map fst (add_host dcs d x) = map fst d"
  by (auto simp: add_host_def update_keys split: option.splits dest: map_of_SomeD intro!: update_keys)
    (metis fst_conv image_eqI map_of_SomeD update_keys)

lemma add_hosts_entries:
  assumes "\<forall>(dc, hs) \<in> set d. \<forall>h \<in> set hs. host_dc dcs h = Some dc" and "distinct (map fst d)"
  shows "(\<forall>(dc, hs) \<in> set (foldl (add_host dcs) d xs). \<forall>h \<in> set hs. host_dc dcs h = Some dc) \<and>
    distinct (map fst (foldl (add_host dcs) d xs))"
  using assms
proof (induction xs arbitrary: d)
  case (Cons x xs)
  have "\<forall>(dc, hs) \<in> set (add_host dcs d x). \<forall>h \<in> set hs. host_dc dcs h = Some dc"
    using add_host_entries [OF Cons.prems(1) _ _ Cons.prems(2)] by blast
  then show ?case
    using Cons.IH [of "add_host dcs d x"] Cons.prems(2) by (simp add: add_host_keys)
qed simp

lemma dict_update_set: "set (dict_update d e) \<subseteq> set d \<union> set e"
proof (induction e arbitrary: d)
  case (Cons x e)
  obtain k v where x: "x = (k, v)" by force
  have "set (dict_update d (x # e)) \<subseteq> set (AList.update k v d) \<union> set e"
    using Cons [of "AList.update k v d"] by (simp add: dict_update_def x)
  then show ?case
    using update_set [of k v d] by (auto simp: x)
qed (simp add: dict_update_def)

text \<open>A host belongs to one data center only.\<close>

lemma one_datacenter:
  assumes "(dc, hs) \<in> set (hosts_by_datacenter hosts dcs)" "(dc', hs') \<in> set (hosts_by_datacenter hosts dcs)" "h \<in> set hs" "h \<in> set hs'"
  shows "hs = hs'"
proof (cases "dcs = []")
  case True
  then show ?thesis using assms by (simp add: hosts_by_datacenter_def)
next
  case False
  let ?e = "dict_update [] (map (\<lambda>dc. (dc, [])) dcs) :: dc_hosts"
  let ?d = "foldl (add_host dcs) ?e hosts"
  have "hs = []" if "(dc, hs) \<in> set ?e" for dc hs
    using subsetD [OF dict_update_set that] by auto
  then have none: "\<forall>(dc, hs) \<in> set ?e. \<forall>h \<in> set hs. host_dc dcs h = Some dc"
    by fastforce
  have all: "\<forall>(dc, hs) \<in> set ?d. \<forall>h \<in> set hs. host_dc dcs h = Some dc" and dist: "distinct (map fst ?d)"
    using add_hosts_entries [OF none dict_update_distinct, of hosts] by simp_all
  obtain k k' where k: "(dc, k) \<in> set ?d" "hs = sort k" "(dc', k') \<in> set ?d" "hs' = sort k'"
    using assms(1,2) False by (auto simp: hosts_by_datacenter_def)
  have "host_dc dcs h = Some dc" "host_dc dcs h = Some dc'"
    using all k assms(3,4) by auto
  then have "dc = dc'" by simp
  then show ?thesis
    using k dist by (metis eq_key_imp_eq_value)
qed

text \<open>No client machine is a server machine.\<close>

lemma machines_apart:
  assumes order: "\<forall>xs. set (order xs) = set xs"
    and c: "h \<in> machines_of (client_machines order n (hosts_by_datacenter hosts dcs))"
    and v: "h \<in> machines_of (server_machines n (hosts_by_datacenter hosts dcs))"
  shows False
proof -
  obtain dc hs where hs: "h \<in> set hs" "h \<notin> set (py_upto n hs)" "(dc, hs) \<in> set (hosts_by_datacenter hosts dcs)"
    using c order by (auto simp: client_machines_def elim!: machines_ofE)
  obtain dc' hs' where hs': "h \<in> set (py_upto n hs')" "(dc', hs') \<in> set (hosts_by_datacenter hosts dcs)"
    using v by (auto simp: server_machines_def elim!: machines_ofE)
  show False
    using one_datacenter [OF hs(3) hs'(2) hs(1) subsetD [OF py_upto_set hs'(1)]] hs(2) hs'(1) by simp
qed

section \<open>The process table\<close>

lemma names_distinct: "distinct (server_names n @ client_names m)"
  by (auto simp: server_names_def client_names_def py_range_def distinct_map inj_on_def str_of_int_inj)

lemma machines_server: "machines_of (server_machines n H) \<subseteq> machines_of H"
  by (force simp: server_machines_def machines_of_def dest: subsetD [OF py_upto_set])

lemma machines_client: "\<forall>xs. set (order xs) = set xs \<Longrightarrow> machines_of (client_machines order n H) \<subseteq> machines_of H"
  by (fastforce simp: client_machines_def machines_of_def)

lemma add_host_hosts: "machines_of (add_host dcs d x) \<subseteq> insert x (machines_of d)"
proof
  fix h
  assume "h \<in> machines_of (add_host dcs d x)"
  then obtain dc hs where hs: "(dc, hs) \<in> set (add_host dcs d x)" "h \<in> set hs"
    by (rule machines_ofE)
  show "h \<in> insert x (machines_of d)"
  proof (cases "(dc, hs) \<in> set d")
    case True
    then show ?thesis using hs(2) by (auto intro: machines_ofI)
  next
    case False
    then obtain hs0 where "(dc, hs0) \<in> set d" "hs = hs0 @ [x]"
      using hs(1) update_set by (fastforce simp: add_host_def split: option.splits dest: map_of_SomeD)
    then show ?thesis using hs(2) by (auto intro: machines_ofI)
  qed
qed

lemma add_hosts_hosts: "machines_of (foldl (add_host dcs) d xs) \<subseteq> set xs \<union> machines_of d"
proof (induction xs arbitrary: d)
  case (Cons x xs)
  show ?case using Cons [of "add_host dcs d x"] add_host_hosts [of dcs d x] by auto
qed simp

lemma machines_hosts: "machines_of (hosts_by_datacenter hosts dcs) \<subseteq> set hosts"
proof -
  have empty: "machines_of (dict_update [] (map (\<lambda>dc. (dc, [])) dcs)) = {}"
    using dict_update_set [of "[]" "map (\<lambda>dc. (dc, [])) dcs"] by (fastforce elim!: machines_ofE)
  have sorted: "machines_of (map (\<lambda>(dc, hs). (dc, sort hs)) d) = machines_of d" for d
    by (force simp: machines_of_def)
  show ?thesis
    using add_hosts_hosts [of dcs "dict_update [] (map (\<lambda>dc. (dc, [])) dcs)" hosts] empty
    by (simp add: hosts_by_datacenter_def sorted) (simp add: machines_of_def)
qed

lemma generate_process_Inr:
  assumes "generate_process order args H snames cnames = Inr process" and "distinct (snames @ cnames)"
  obtains n hs hc machines where "process = zip snames hs @ zip cnames hc" "length hs = length snames" "length hc = length cnames"
    "set hs \<subseteq> machines_of (server_machines n H)" "set hc \<subseteq> machines_of machines"
    "machines = client_machines order n H \<or> pa_overlap args \<and> machines = server_machines n H"
proof -
  obtain n p machines where p: "deal_all (server_machines n H) snames [] = Inr p" and process: "deal_all machines cnames p = Inr process"
    and m: "machines = client_machines order n H \<or> pa_overlap args \<and> machines = server_machines n H"
    using assms(1) by (auto simp: generate_process_def Let_def elim!: bindE_eq_InrE split: if_splits)
  from deal_all_Inr [OF p] obtain hs where hs: "length hs = length snames" "set hs \<subseteq> machines_of (server_machines n H)"
    "p = dict_update [] (zip snames hs)"
    by blast
  from deal_all_Inr [OF process] obtain hc where hc: "length hc = length cnames" "set hc \<subseteq> machines_of machines"
    "process = dict_update p (zip cnames hc)"
    by blast
  have "p = zip snames hs"
    using hs(1,3) assms(2) by (simp add: dict_update_new)
  then have "process = zip snames hs @ zip cnames hc"
    using hs(1) hc(1,3) assms(2) by (simp add: dict_update_new image_set del: set_map)
  with hs hc m that show ?thesis by blast
qed

lemma process_names:
  assumes "generate_process order args H snames cnames = Inr process" and "distinct (snames @ cnames)"
  shows "map fst process = snames @ cnames"
  using assms by (auto elim!: generate_process_Inr)

lemma process_hosts:
  assumes p: "generate_process order args (hosts_by_datacenter hosts dcs) snames cnames = Inr process"
    and order: "\<forall>xs. set (order xs) = set xs" and d: "distinct (snames @ cnames)"
  shows "snd ` set process \<subseteq> set hosts"
proof -
  let ?H = "hosts_by_datacenter hosts dcs"
  obtain n hs hc machines where process: "process = zip snames hs @ zip cnames hc"
    and hs: "set hs \<subseteq> machines_of (server_machines n ?H)" and hc: "set hc \<subseteq> machines_of machines"
    and m: "machines = client_machines order n ?H \<or> pa_overlap args \<and> machines = server_machines n ?H"
    by (rule generate_process_Inr [OF p d])
  have s: "machines_of (server_machines n ?H) \<subseteq> set hosts" and c: "machines_of (client_machines order n ?H) \<subseteq> set hosts"
    using machines_server [of n ?H] machines_client [OF order, of n ?H] machines_hosts [of hosts dcs] by (meson subset_trans)+
  have "machines_of machines \<subseteq> set hosts"
    using m s c by auto
  then have "set hs \<subseteq> set hosts" "set hc \<subseteq> set hosts"
    using hs hc s by (meson subset_trans)+
  then show ?thesis
    by (auto simp: process dest!: set_zip_rightD)
qed

text \<open>
  (C9) Unless clients may share machines with servers, no client of a generated layout is placed on a machine that
  runs a server; every server and client is placed, on a host of the configuration.
\<close>

theorem clients_apart_from_servers:
  assumes "generate_layout strategy order args num_c num_s num_replicas hosts = Inr layout"
    and order: "\<forall>xs. set (order xs) = set xs" and overlap: "\<not> pa_overlap args"
  shows "map fst (l_process layout) = server_names (num_s * num_replicas) @ client_names num_c \<and>
    snd ` set (l_process layout) \<subseteq> set hosts \<and>
    (\<forall>a b h h'. (a, h) \<in> set (l_process layout) \<and> a \<in> set (server_names (num_s * num_replicas)) \<and>
       (b, h') \<in> set (l_process layout) \<and> b \<in> set (client_names num_c) \<longrightarrow> h \<noteq> h')"
proof -
  let ?S = "server_names (num_s * num_replicas)" and ?C = "client_names num_c"
  let ?H = "hosts_by_datacenter hosts (pa_data_centers args)"
  have p: "generate_process order args ?H ?S ?C = Inr (l_process layout)"
    using assms(1) by (auto simp: generate_layout_def elim!: bindE_eq_InrE)
  obtain n hs hc machines where
    process: "l_process layout = zip ?S hs @ zip ?C hc"
    and hs: "set hs \<subseteq> machines_of (server_machines n ?H)" and hm: "set hc \<subseteq> machines_of machines"
    and m: "machines = client_machines order n ?H \<or> pa_overlap args \<and> machines = server_machines n ?H"
    by (rule generate_process_Inr [OF p names_distinct])
  have hc: "set hc \<subseteq> machines_of (client_machines order n ?H)"
    using overlap hm m by simp
  have "h \<noteq> h'" if "(a, h) \<in> set (l_process layout)" "a \<in> set ?S" "(b, h') \<in> set (l_process layout)" "b \<in> set ?C" for a b h h'
  proof -
    have "a \<notin> set ?C" "b \<notin> set ?S"
      using that(2,4) names_distinct [of "num_s * num_replicas" num_c] by auto
    then have "(a, h) \<in> set (zip ?S hs)" "(b, h') \<in> set (zip ?C hc)"
      using that(1,3) set_zip_leftD by (fastforce simp: process)+
    then have "h \<in> set hs" "h' \<in> set hc"
      by (simp_all add: set_zip_rightD)
    then show ?thesis
      using machines_apart [OF order, of h' n hosts "pa_data_centers args"] subsetD [OF hs] subsetD [OF hc] by metis
  qed
  then show ?thesis
    using process_names [OF p names_distinct] process_hosts [OF p order names_distinct] by blast
qed

section \<open>Layouts are configurations\<close>

text \<open>When \<^verbatim>\<open>get_process_info\<close> accepts a configuration.\<close>

definition site_ok :: "site_config \<Rightarrow> string \<Rightarrow> bool" where
  "site_ok cfg site \<longleftrightarrow>
     (\<exists>nm port i. site_and_port cfg site = Inr (nm, port) \<and> arg_to_int port = Inr i \<and> nm \<in> fst ` set (c_process cfg))"

lemma add_process_ok:
  assumes "arg_get (c_args cfg) ''rpc_port'' = Inr (AInt p)" and "pn \<in> fst ` set (c_host cfg)"
  shows "\<exists>st'. add_process cfg st (s, pn) = Inr st' \<and> fst ` set (fst st') = insert pn (fst ` set (fst st))"
proof -
  obtain a where "dict_get (c_host cfg) pn = Inr a"
    using assms(2) by (metis dict_get_Inr_iff map_of_eq_None_iff not_None_eq)
  then show ?thesis
    using assms(1)
    by (cases st) (auto simp: add_process_def new_process_def add_id_def update_fst Let_def insert_absorb split: prod.splits)
qed

lemma add_processes_ok:
  assumes "arg_get (c_args cfg) ''rpc_port'' = Inr (AInt p)" and "snd ` set xs \<subseteq> fst ` set (c_host cfg)"
  shows "\<exists>st'. foldE (add_process cfg) st xs = Inr st' \<and> fst ` set (fst st') = fst ` set (fst st) \<union> snd ` set xs"
  using assms(2)
proof (induction xs arbitrary: st)
  case (Cons x xs)
  obtain s pn where x: "x = (s, pn)" by force
  obtain st1 where st1: "add_process cfg st x = Inr st1" "fst ` set (fst st1) = insert pn (fst ` set (fst st))"
    using add_process_ok [OF assms(1), of pn st s] Cons.prems by (auto simp: x)
  then show ?case
    using Cons.IH [of st1] Cons.prems by (simp add: x)
qed simp

lemma place_site_ok:
  assumes "site_ok cfg site" and "snd ` set (c_process cfg) \<subseteq> fst ` set (fst st)"
  shows "\<exists>st'. place_site cfg ty st site = Inr st' \<and> fst ` set (fst st') = fst ` set (fst st)"
proof -
  obtain infos k where st: "st = (infos, k)" by force
  obtain nm port i where nm: "site_and_port cfg site = Inr (nm, port)" "arg_to_int port = Inr i" "nm \<in> fst ` set (c_process cfg)"
    using assms(1) by (auto simp: site_ok_def)
  obtain pn where pn: "dict_get (c_process cfg) nm = Inr pn"
    using nm(3) by (metis dict_get_Inr_iff map_of_eq_None_iff not_None_eq)
  then have "(nm, pn) \<in> set (c_process cfg)"
    by (simp add: dict_get_Inr_iff map_of_SomeD)
  then have key: "pn \<in> fst ` set infos"
    using assms(2) by (force simp: st)
  then obtain pr where pr: "dict_get infos pn = Inr pr"
    by (metis dict_get_Inr_iff map_of_eq_None_iff not_None_eq)
  have "port \<noteq> ANone"
    using nm(2) by (auto simp: arg_to_int_def)
  then obtain pr' k' where "add_site nm ty port (pr, k) = Inr (pr', k')"
    by (cases "ty = ''client''") (simp_all add: add_site_def new_site_def next_site_id_def Let_def nm(2))
  then have "place_site cfg ty st site = Inr (AList.update pn pr' infos, k')"
    by (simp add: place_site_def st nm(1) pn pr)
  then show ?thesis
    using key by (simp add: st update_fst insert_absorb)
qed

lemma place_sites_ok:
  assumes "dict_get (c_site cfg) ty = Inr rows" and "\<forall>site \<in> set (concat rows). site_ok cfg site"
    and "snd ` set (c_process cfg) \<subseteq> fst ` set (fst st)"
  shows "\<exists>st'. place_sites cfg st ty = Inr st' \<and> fst ` set (fst st') = fst ` set (fst st)"
proof -
  have "\<exists>st'. foldE (place_site cfg ty) st xs = Inr st' \<and> fst ` set (fst st') = fst ` set (fst st)"
    if "\<forall>site \<in> set xs. site_ok cfg site" "snd ` set (c_process cfg) \<subseteq> fst ` set (fst st)" for xs st
    using that
  proof (induction xs arbitrary: st)
    case (Cons x xs)
    obtain st1 where st1: "place_site cfg ty st x = Inr st1" "fst ` set (fst st1) = fst ` set (fst st)"
      using place_site_ok [of cfg x st ty] Cons.prems by auto
    then show ?case
      using Cons.IH [of st1] Cons.prems by simp
  qed simp
  from this [OF assms(2,3)] show ?thesis
    by (simp add: place_sites_def assms(1))
qed

lemma get_process_info_ok:
  assumes port: "arg_get (c_args cfg) ''rpc_port'' = Inr (AInt p)" and hosts: "snd ` set (c_process cfg) \<subseteq> fst ` set (c_host cfg)"
    and sites: "dict_get (c_site cfg) ''server'' = Inr servers" "dict_get (c_site cfg) ''client'' = Inr clients"
    and ok: "\<forall>site \<in> set (concat servers). site_ok cfg site" "\<forall>site \<in> set (concat clients). site_ok cfg site"
  shows "\<exists>st. get_process_info cfg k = Inr st"
proof -
  obtain st where st: "foldE (add_process cfg) ([], k) (sort_key fst (c_process cfg)) = Inr st"
    "fst ` set (fst st) = snd ` set (c_process cfg)"
    using add_processes_ok [OF port, of "sort_key fst (c_process cfg)" "([], k)"] hosts by auto
  obtain st1 where st1: "place_sites cfg st ''server'' = Inr st1" "fst ` set (fst st1) = fst ` set (fst st)"
    using place_sites_ok [OF sites(1) ok(1), of st] st(2) by auto
  obtain st2 where "place_sites cfg st1 ''client'' = Inr st2"
    using place_sites_ok [OF sites(2) ok(2), of st1] st(2) st1(2) by auto
  then show ?thesis
    by (simp add: get_process_info_def st(1) st1(1))
qed

lemma colon_str_of_int: "CHR '':'' \<notin> set (str_of_int i)"
proof -
  have "char_digit CHR '':'' = None"
    by (simp add: char_digit_def)
  then have "CHR '':'' \<notin> set (str_of_nat n)" for n
    using char_digit_str by metis
  then show ?thesis
    by (simp add: str_of_int_def)
qed

lemma colon_names: "nm \<in> set (server_names n) \<union> set (client_names m) \<Longrightarrow> CHR '':'' \<notin> set nm"
  by (auto simp: server_names_def client_names_def colon_str_of_int)

definition named_site :: "string list \<Rightarrow> string \<Rightarrow> bool" where
  "named_site names site \<longleftrightarrow> (\<exists>nm port. site = nm @ '':'' @ str_of_int port \<and> nm \<in> set names)"

lemma server_cell_named:
  assumes "server_cell num_replicas names sid (row, p) repid = Inr (row', p')" and "\<forall>x \<in> set row. named_site names x"
  shows "\<forall>x \<in> set row'. named_site names x"
proof -
  obtain nm where "py_nth names (num_replicas * sid + repid) = Inr nm" "row' = row @ [nm @ '':'' @ str_of_int p]"
    using assms(1) by (auto simp: server_cell_def elim!: bindE_eq_InrE)
  moreover from this(1) have "named_site names (nm @ '':'' @ str_of_int p)"
    unfolding named_site_def by (blast dest: py_nth_mem)
  ultimately show ?thesis
    using assms(2) by simp
qed

lemma server_row_named:
  assumes "server_row num_replicas names (rows, p) sid = Inr (rows', p')" and "\<forall>x \<in> set (concat rows). named_site names x"
  shows "\<forall>x \<in> set (concat rows'). named_site names x"
proof -
  obtain row where row: "foldE (server_cell num_replicas names sid) ([], p) (py_range num_replicas) = Inr (row, p')"
    "rows' = rows @ [row]"
    using assms(1) by (auto simp: server_row_def elim!: bindE_eq_InrE)
  have "case (row, p') of (row, p) \<Rightarrow> \<forall>x \<in> set row. named_site names x"
    by (rule foldE_invariant [OF row(1)]) (auto dest: server_cell_named)
  then show ?thesis
    using assms(2) row(2) by auto
qed

lemma server_sites_named:
  assumes "generate_site_server num_s num_replicas names = Inr rows"
  shows "\<forall>x \<in> set (concat rows). named_site names x"
proof -
  obtain port where rows: "foldE (server_row num_replicas names) ([], 10000) (py_range num_s) = Inr (rows, port)"
    using assms(1) by (auto simp: generate_site_server_def elim!: bindE_eq_InrE)
  have "\<forall>x \<in> set (concat (fst (rows, port))). named_site names x"
  proof (rule foldE_invariant [OF rows])
    show "\<forall>x \<in> set (concat (fst t)). named_site names x"
      if "\<forall>x \<in> set (concat (fst s)). named_site names x" "server_row num_replicas names s sid = Inr t" for s sid t
      using server_row_named [of num_replicas names "fst s" "snd s" sid "fst t" "snd t"] that by simp
  qed simp
  then show ?thesis by simp
qed

lemma client_row_step_named:
  assumes "client_row_step num_replicas names (rows, row) cid = Inr (rows', row')" and "set (concat rows) \<union> set row \<subseteq> set names"
  shows "set (concat rows') \<union> set row' \<subseteq> set names"
proof -
  obtain nm where nm: "py_nth names cid = Inr nm" and "rows' = rows @ [row @ [nm]] \<and> row' = [] \<or> rows' = rows \<and> row' = row @ [nm]"
    using assms(1) by (auto simp: client_row_step_def Let_def elim!: bindE_eq_InrE split: if_splits)
  then show ?thesis
    using assms(2) py_nth_mem [OF nm] by (elim disjE conjE) simp_all
qed

lemma client_sites_named:
  assumes "generate_site_client strategy num_c num_replicas names = Inr rows"
  shows "set (concat rows) \<subseteq> set names"
proof (cases strategy)
  case With_Leader
  then show ?thesis using assms by (auto simp: generate_site_client_def)
next
  case Balanced
  then obtain rs row where rs: "foldE (client_row_step num_replicas names) ([], []) (py_range num_c) = Inr (rs, row)"
    and rows: "rows = (if 0 < length row then rs @ [row] else rs)"
    using assms(1) by (auto simp: generate_site_client_def elim!: bindE_eq_InrE)
  have "set (concat (fst (rs, row))) \<union> set (snd (rs, row)) \<subseteq> set names"
  proof (rule foldE_invariant [OF rs])
    show "set (concat (fst t)) \<union> set (snd t) \<subseteq> set names"
      if "set (concat (fst s)) \<union> set (snd s) \<subseteq> set names" "client_row_step num_replicas names s cid = Inr t" for s cid t
      using client_row_step_named [of num_replicas names "fst s" "snd s" cid "fst t" "snd t"] that by simp
  qed simp
  then show ?thesis by (simp add: rows)
qed

lemma server_site_ok:
  assumes "nm \<in> fst ` set (c_process cfg)" and "CHR '':'' \<notin> set nm"
  shows "site_ok cfg (nm @ '':'' @ str_of_int q)"
proof -
  have "split_char CHR '':'' (nm @ '':'' @ str_of_int q) = [nm, str_of_int q]"
    using split_char_append [OF assms(2), of "str_of_int q"] split_char_none [OF colon_str_of_int, of q] by simp
  then have "site_and_port cfg (nm @ '':'' @ str_of_int q) = Inr (nm, AStr (str_of_int q))"
    by (simp add: site_and_port_def)
  moreover have "arg_to_int (AStr (str_of_int q)) = Inr q"
    by (simp add: arg_to_int_def py_int_str_of_int)
  ultimately show ?thesis
    using assms(1) unfolding site_ok_def by blast
qed

lemma client_site_ok:
  assumes "nm \<in> fst ` set (c_process cfg)" and "CHR '':'' \<notin> set nm" and "arg_get (c_args cfg) ''rpc_port'' = Inr (AInt p)"
  shows "site_ok cfg nm"
  using assms by (simp add: site_ok_def site_and_port_def int_opt_def arg_to_int_def)

text \<open>
  A generated layout, put together with the hosts it was generated for and an integer port, is a
  configuration that \<^verbatim>\<open>get_process_info\<close> of \<^verbatim>\<open>run.py\<close> accepts: no process, host or port is missing or malformed.
\<close>

lemma layout_accepted:
  assumes layout: "generate_layout strategy order args num_c num_s num_replicas (map fst hosts) = Inr layout"
    and order: "\<forall>xs. set (order xs) = set xs" and port: "arg_get ns ''rpc_port'' = Inr (AInt p)"
  shows "\<exists>infos k'. get_process_info
    \<lparr>c_args = ns, c_host = hosts, c_process = l_process layout, c_site = l_site layout\<rparr> k = Inr (infos, k')"
proof -
  let ?S = "server_names (num_s * num_replicas)" and ?C = "client_names num_c"
  let ?H = "hosts_by_datacenter (map fst hosts) (pa_data_centers args)"
  let ?cfg = "\<lparr>c_args = ns, c_host = hosts, c_process = l_process layout, c_site = l_site layout\<rparr>"
  obtain servers clients where p: "generate_process order args ?H ?S ?C = Inr (l_process layout)"
    and s: "generate_site_server num_s num_replicas ?S = Inr servers"
    and c: "generate_site_client strategy num_c num_replicas ?C = Inr clients"
    and l: "l_site layout = [(''server'', servers), (''client'', clients)]"
    using layout by (auto simp: generate_layout_def elim!: bindE_eq_InrE)
  note known = process_hosts [OF p order names_distinct] and keys = process_names [OF p names_distinct]
  have 1: "site_ok ?cfg site" if x: "site \<in> set (concat servers)" for site
  proof -
    obtain nm q where site: "site = nm @ '':'' @ str_of_int q" "nm \<in> set ?S"
      using bspec [OF server_sites_named [OF s] x] unfolding named_site_def by (elim exE conjE)
    have "nm \<in> set (map fst (l_process layout))"
      using site(2) keys by simp
    then show ?thesis
      unfolding site(1) using colon_names [of nm "num_s * num_replicas" num_c] site(2) by (intro server_site_ok) simp_all
  qed
  have 2: "site_ok ?cfg site" if "site \<in> set (concat clients)" for site
  proof -
    have site: "site \<in> set ?C"
      using subsetD [OF client_sites_named [OF c] that] .
    then have "site \<in> set (map fst (l_process layout))"
      using keys by simp
    then show ?thesis
      using colon_names [of site 0 num_c] site port by (intro client_site_ok) simp_all
  qed
  have "\<exists>st. get_process_info ?cfg k = Inr st"
  proof (rule get_process_info_ok)
    show "arg_get (c_args ?cfg) ''rpc_port'' = Inr (AInt p)" "snd ` set (c_process ?cfg) \<subseteq> fst ` set (c_host ?cfg)"
      using port known by simp_all
    show "dict_get (c_site ?cfg) ''server'' = Inr servers" "dict_get (c_site ?cfg) ''client'' = Inr clients"
      by (simp_all add: l dict_get_def)
    show "\<forall>site \<in> set (concat servers). site_ok ?cfg site" "\<forall>site \<in> set (concat clients). site_ok ?cfg site"
      by (intro ballI 1 2; assumption)+
  qed
  then show ?thesis by auto
qed

section \<open>An example\<close>

definition demo_args :: place_args where
  "demo_args = \<lparr>pa_data_centers = [], pa_cpu_count = 1, pa_overlap = False\<rparr>"

definition demo_hosts3 :: "(string \<times> string) list" where
  "demo_hosts3 = [(''h1'', ''10.0.0.1''), (''h2'', ''10.0.0.2''), (''h3'', ''10.0.0.3'')]"

definition demo_layout :: layout where
  "demo_layout = \<lparr>l_site = [(''server'', [[''s0:10000'', ''s1:10001'']]), (''client'', [[''c0'']])],
     l_process = [(''s0'', ''h1''), (''s1'', ''h2''), (''c0'', ''h3'')]\<rparr>"

lemma ceil_div_one: "\<bar>a\<bar> < 2 ^ 53 \<Longrightarrow> ceil_div a 1 = Inr a"
  using rnd_of_int [of a] rnd_of_int [of 1] by (simp add: ceil_div_def)

lemma demo_places: "hosts_by_datacenter [''h1'', ''h2'', ''h3''] [] = [([], [''h1'', ''h2'', ''h3''])]"
  by code_simp

lemma demo_names: "server_names 2 = [''s0'', ''s1'']" "client_names 1 = [''c0'']"
  by code_simp+

lemma demo_generate:
  "deal_all (server_machines 2 [([], [''h1'', ''h2'', ''h3''])]) [''s0'', ''s1''] [] = Inr [(''s0'', ''h1''), (''s1'', ''h2'')]"
  "client_machines (\<lambda>xs. xs) 2 [([], [''h1'', ''h2'', ''h3''])] = [([], [''h3''])]"
  "deal_all [([], [''h3''])] [''c0''] [(''s0'', ''h1''), (''s1'', ''h2'')] = Inr [(''s0'', ''h1''), (''s1'', ''h2''), (''c0'', ''h3'')]"
  "generate_site_client Balanced 1 2 [''c0''] = Inr [[''c0'']]"
  by code_simp+

lemma digit_chars: "digit_char 0 = CHR ''0''" "digit_char (Suc 0) = CHR ''1''"
  by code_simp+

lemma demo_ports: "str_of_int 10000 = ''10000''" "str_of_int 10001 = ''10001''"
  by (simp_all add: str_of_int_def str_of_nat.simps digit_chars)

lemma demo_server_sites: "generate_site_server 1 2 [''s0'', ''s1''] = Inr [[''s0:10000'', ''s1:10001'']]"
proof -
  have "py_range 1 = [0]" "py_range 2 = [0, 1]"
    by (simp_all add: py_range_def upto.simps)
  moreover have "py_nth [''s0'', ''s1''] 0 = Inr ''s0''" "py_nth [''s0'', ''s1''] 1 = Inr ''s1''"
    by code_simp+
  ultimately show ?thesis
    by (simp add: generate_site_server_def server_row_def server_cell_def demo_ports)
qed

lemma demo_layout_made: "generate_layout Balanced (\<lambda>xs. xs) demo_args 1 1 2 (map fst demo_hosts3) = Inr demo_layout"
  by (simp add: generate_layout_def demo_args_def demo_hosts3_def demo_layout_def demo_places demo_names generate_process_def
      ceil_div_one demo_generate demo_server_sites Let_def)

theorem clients_apart_from_servers_witness:
  "generate_layout Balanced (\<lambda>xs. xs) demo_args 1 1 2 (map fst demo_hosts3) = Inr demo_layout \<and>
   (''s0'', ''h1'') \<in> set (l_process demo_layout) \<and> (''c0'', ''h3'') \<in> set (l_process demo_layout) \<and> ''h1'' \<noteq> ''h3''"
proof -
  have o: "\<forall>xs. set ((\<lambda>xs :: string list. xs) xs) = set xs" and n: "\<not> pa_overlap demo_args"
    by (simp_all add: demo_args_def)
  have names: "''s0'' \<in> set (server_names (1 * 2))" "''c0'' \<in> set (client_names 1)"
    by (simp_all add: demo_names)
  have placed: "(''s0'', ''h1'') \<in> set (l_process demo_layout)" "(''c0'', ''h3'') \<in> set (l_process demo_layout)"
    by (simp_all add: demo_layout_def)
  note apart = clients_apart_from_servers [OF demo_layout_made o n, THEN conjunct2, THEN conjunct2, rule_format]
  have "''h1'' \<noteq> ''h3''"
    by (rule apart [OF conjI [OF placed(1) conjI [OF names(1) conjI [OF placed(2) names(2)]]]])
  with placed show ?thesis
    using demo_layout_made by (intro conjI)
qed

lemma demo_layout_accepted:
  "\<exists>infos k'. get_process_info \<lparr>c_args = [(''rpc_port'', AInt 5555)], c_host = demo_hosts3,
     c_process = l_process demo_layout, c_site = l_site demo_layout\<rparr> new_counters = Inr (infos, k')"
  using layout_accepted [OF demo_layout_made, of "[(''rpc_port'', AInt 5555)]" 5555 new_counters] by (simp add: arg_get_def)

end
