(* ===== verification/Run_All.thy ===== *)
theory Run_All
  imports Placement Run_Server
begin

text \<open>
  \<^verbatim>\<open>scripts/run_all.py\<close>, which runs \<^verbatim>\<open>run.py\<close> for every combination of parameters: its command line, the
  configurations it generates and the commands it runs.  YAML files are a dictionary from paths to values, in
  which a temporary file is a new entry; \<open>tmp\<close> gives the name of a temporary file from its prefix and the number of
  files made before, \<open>call\<close> the status of a command, and \<open>to_float\<close> is Python's \<^verbatim>\<open>float\<close> of a string.
\<close>

section \<open>The command line\<close>

definition run_all_parser :: "arg_spec list" where
  "run_all_parser =
     [\<lparr>a_flags = [''experiment_name''], a_dest = ''experiment_name'', a_kind = Store, a_default = ANone, a_required = True\<rparr>,
      opt [''-e'', ''--executable''] ''executable'' Store (AStr ''./run.py''),
      opt [''-c'', ''--client-count''] ''client_counts'' Append_Str (AList []),
      opt [''-cl'', ''--client-load''] ''client_loads'' Many_Int (AList [AInt (- 1)]),
      opt [''-st'', ''--server-timeout''] ''s_timeout'' Store (AStr ''30''),
      opt [''-s'', ''--server-count''] ''server_counts'' Append_Str (AList []),
      opt [''-z'', ''--zipf''] ''zipf'' Many_Str (AList [ANone]),
      opt [''-d'', ''--duration''] ''duration'' Store_Int (AInt 30),
      opt [''-r'', ''--replicas''] ''num_replicas'' Store_Int (AInt 1),
      opt [''-b'', ''--benchmarks''] ''benchmarks'' Append_Str (AList []),
      opt [''-m'', ''--modes''] ''modes'' Append_Str (AList []),
      \<lparr>a_flags = [''-hh'', ''--hosts''], a_dest = ''hosts_file'', a_kind = Store, a_default = AStr ''config/hosts.yml'', a_required = True\<rparr>,
      opt [''-cc'', ''--config''] ''other_config'' Append_Str (AList []),
      opt [''-g'', ''--generate-graphs''] ''generate_graph'' Store_True (ABool False),
      opt [''-cp'', ''--client-placement''] ''client_placement'' (Choice [''balanced'', ''with_leader'']) (AStr ''balanced''),
      opt [''-u'', ''--cpu-count''] ''cpu_count'' Store_Int (AInt 1),
      opt [''-dc'', ''--data-centers''] ''data_centers'' Many_Str (AList []),
      opt [''--allow-client-overlap''] ''allow_client_overlap'' Store_True (ABool False)]"

definition append_defaults :: namespace where
  "append_defaults =
     [(''client_counts'', AList [AStr ''1:2'']),
      (''server_counts'', AList [AStr ''1:2'']),
      (''benchmarks'', AList [AStr ''rw'', AStr ''tpccd'']),
      (''modes'', AList [AStr ''tpl_ww:multi_paxos'', AStr ''occ:multi_paxos'', AStr ''tapir:tapir'', AStr ''brq:brq''])]"

definition parse_commandline :: "(string \<times> string list) list \<Rightarrow> namespace res" where
  "parse_commandline line =
     bindE (parse_args run_all_parser line) (\<lambda>ns.
     Inr (map (\<lambda>(k, v). (k, case map_of append_defaults k of Some d \<Rightarrow> if v = AList [] then d else v | None \<Rightarrow> v)) ns))"

definition gen_experiment_suffix :: "string \<Rightarrow> string \<Rightarrow> int \<Rightarrow> int \<Rightarrow> string option \<Rightarrow> int \<Rightarrow> string" where
  "gen_experiment_suffix b m c s z cl =
     (let m = py_replace '':'' ''-'' m in
      case z of
        Some z \<Rightarrow> py_join ''_'' [b, m, str_of_int c, str_of_int s, z, str_of_int cl]
      | None \<Rightarrow> py_join ''_'' [b, m, str_of_int c, str_of_int s, str_of_int cl])"

text \<open>\<^verbatim>\<open>range\<close> with one to three arguments.\<close>

definition range_step :: "int \<Rightarrow> int \<Rightarrow> int \<Rightarrow> int list res" where
  "range_step a b d =
     (if d = 0 then Inl ValueError
      else if 0 < d then Inr (filter (\<lambda>i. (i - a) mod d = 0) [a..b - 1])
      else Inr (rev (filter (\<lambda>i. (a - i) mod (- d) = 0) [b + 1..a])))"

definition get_range :: "string \<Rightarrow> int list res" where
  "get_range r =
     bindE (mapE py_int (split_char CHR '':'' r)) (\<lambda>a.
     case a of
       [x] \<Rightarrow> Inr [x]
     | [x, y] \<Rightarrow> Inr [x..y - 1]
     | [x, y, d] \<Rightarrow> range_step x y d
     | _ \<Rightarrow> Inl TypeError)"

section \<open>Files\<close>

record world =
  w_files :: "(string \<times> yaml) list"
  w_tmp :: nat

definition load_config :: "world \<Rightarrow> string \<Rightarrow> yaml res" where
  "load_config w fn = (case map_of (w_files w) fn of Some v \<Rightarrow> Inr v | None \<Rightarrow> Inl IOError)"

definition new_temp :: "(string \<Rightarrow> nat \<Rightarrow> string) \<Rightarrow> string \<Rightarrow> yaml \<Rightarrow> world \<Rightarrow> string \<times> world" where
  "new_temp tmp pre v w =
     (let fn = tmp pre (w_tmp w) in (fn, w \<lparr>w_files := AList.update fn v (w_files w), w_tmp := Suc (w_tmp w)\<rparr>))"

record run_all_args =
  ra_name :: string
  ra_executable :: string
  ra_s_timeout :: string
  ra_duration :: int
  ra_replicas :: int
  ra_hosts_file :: string
  ra_other_config :: "string list"
  ra_graphs :: bool
  ra_place :: place_args

section \<open>Configurations\<close>

definition layout_yaml :: "layout \<Rightarrow> yaml" where
  "layout_yaml l =
     YMap [(''site'', YMap (map (\<lambda>(k, rows). (k, YSeq (map (\<lambda>row. YSeq (map YStr row)) rows))) (l_site l))),
           (''process'', YMap (map (\<lambda>(k, h). (k, YStr h)) (l_process l)))]"

text \<open>
  The strategy is the balanced one whatever the mode and the option \<^verbatim>\<open>-cp\<close>, because of an \<^verbatim>\<open>if False\<close>.
\<close>

definition gen_process_and_site ::
  "(string \<Rightarrow> nat \<Rightarrow> string) \<Rightarrow> (string list \<Rightarrow> string list) \<Rightarrow> run_all_args \<Rightarrow> string \<Rightarrow> int \<Rightarrow> int \<Rightarrow> int \<Rightarrow> yaml \<Rightarrow> world \<Rightarrow>
    (string \<times> world) res" where
  "gen_process_and_site tmp order args experiment_name num_c num_s num_replicas hosts_config w =
     bindE (bindE (y_get hosts_config ''host'') y_map) (\<lambda>hosts.
     bindE (generate_layout Balanced order (ra_place args) num_c num_s num_replicas (map fst hosts)) (\<lambda>layout.
     Inr (new_temp tmp (''janus-proc-'' @ experiment_name) (layout_yaml layout) w)))"

definition y_modify :: "yaml \<Rightarrow> string \<Rightarrow> (yaml \<Rightarrow> (bool \<times> yaml) res) \<Rightarrow> (bool \<times> yaml) res" where
  "y_modify v k f = bindE (y_get v k) (\<lambda>x. bindE (f x) (\<lambda>(m, x). bindE (y_set v k x) (\<lambda>v. Inr (m, v))))"

text \<open>\<^verbatim>\<open>if k in v: v[k] = x; modified = True\<close>\<close>

definition set_if_there :: "string \<Rightarrow> yaml \<Rightarrow> bool \<times> yaml \<Rightarrow> (bool \<times> yaml) res" where
  "set_if_there k x mv =
     (case mv of (m, v) \<Rightarrow>
        bindE (y_in k v) (\<lambda>there. if there then bindE (y_set v k x) (\<lambda>v. Inr (True, v)) else Inr (m, v)))"

definition modify_bench :: "(string \<Rightarrow> rat option) \<Rightarrow> string \<Rightarrow> string option \<Rightarrow> yaml \<Rightarrow> (bool \<times> yaml) res" where
  "modify_bench to_float benchmark zipf bench =
     bindE (set_if_there ''workload'' (YStr benchmark) (False, bench)) (\<lambda>(m, bench).
     bindE (y_in ''dist'' bench) (\<lambda>dist.
     case zipf of
       Some z \<Rightarrow>
         if dist then
           (case to_float z of
              Some x \<Rightarrow>
                bindE (y_set bench ''coefficient'' (YFloat x)) (\<lambda>bench.
                bindE (y_set bench ''dist'' (YStr ''zipf'')) (\<lambda>bench. Inr (True, bench)))
            | None \<Rightarrow> bindE (y_set bench ''dist'' (YStr z)) (\<lambda>bench. Inr (True, bench)))
         else Inr (m, bench)
     | None \<Rightarrow> Inr (m, bench)))"

definition modify_mode :: "string \<Rightarrow> string \<Rightarrow> bool \<times> yaml \<Rightarrow> (bool \<times> yaml) res" where
  "modify_mode key value mc =
     (case mc of (m, cfg) \<Rightarrow>
        bindE (y_in ''mode'' cfg) (\<lambda>there.
        if there then
          bindE (y_modify cfg ''mode'' (\<lambda>md. set_if_there key (YStr value) (False, md))) (\<lambda>(m', cfg).
          Inr (m \<or> m', cfg))
        else Inr (m, cfg)))"

definition modify_config ::
  "(string \<Rightarrow> rat option) \<Rightarrow> string \<Rightarrow> string \<Rightarrow> string \<Rightarrow> string option \<Rightarrow> yaml \<Rightarrow> (bool \<times> yaml) res" where
  "modify_config to_float benchmark mode abmode zipf cfg =
     bindE (y_in ''bench'' cfg) (\<lambda>there.
     bindE (if there then y_modify cfg ''bench'' (modify_bench to_float benchmark zipf) else Inr (False, cfg)) (\<lambda>mc.
     bindE (modify_mode ''cc'' mode mc) (\<lambda>mc.
     modify_mode ''ab'' abmode mc)))"

definition modify_file ::
  "(string \<Rightarrow> nat \<Rightarrow> string) \<Rightarrow> (string \<Rightarrow> rat option) \<Rightarrow> run_all_args \<Rightarrow> string \<Rightarrow> string \<Rightarrow> string \<Rightarrow> string option \<Rightarrow>
    string list \<times> world \<Rightarrow> string \<Rightarrow> (string list \<times> world) res" where
  "modify_file tmp to_float args benchmark mode abmode zipf st fn =
     (case st of (outs, w) \<Rightarrow>
        bindE (load_config w fn) (\<lambda>cfg.
        bindE (modify_config to_float benchmark mode abmode zipf cfg) (\<lambda>(modified, cfg).
        if modified then
          let (out, w) = new_temp tmp (''janus-other-'' @ ra_name args) cfg w in Inr (outs @ [out], w)
        else Inr (outs @ [fn], w))))"

definition modify_dynamic_params ::
  "(string \<Rightarrow> nat \<Rightarrow> string) \<Rightarrow> (string \<Rightarrow> rat option) \<Rightarrow> run_all_args \<Rightarrow> string \<Rightarrow> string \<Rightarrow> string \<Rightarrow> string option \<Rightarrow> world \<Rightarrow>
    (string list \<times> world) res" where
  "modify_dynamic_params tmp to_float args benchmark mode abmode zipf w =
     foldE (modify_file tmp to_float args benchmark mode abmode zipf) ([], w) (ra_other_config args)"

definition aggregate_configs :: "world \<Rightarrow> string list \<Rightarrow> ydict res" where
  "aggregate_configs w fns =
     foldE (\<lambda>d fn. bindE (load_config w fn) (\<lambda>v. bindE (y_map v) (\<lambda>e. Inr (dict_update d e)))) [] fns"

definition client_rate :: "int \<Rightarrow> ydict \<Rightarrow> ydict res" where
  "client_rate client_load result =
     bindE (dict_get result ''client'') (\<lambda>client.
     bindE (y_get client ''type'') (\<lambda>ty.
     if ty = YStr ''open'' then
       (if client_load = - 1 then Inl (SystemExit 1)
        else bindE (y_set client ''rate'' (YInt client_load)) (\<lambda>client. Inr (AList.update ''client'' client result)))
     else Inr result))"

definition split_mode :: "string \<Rightarrow> (string \<times> string) res" where
  "split_mode mode = (case split_char CHR '':'' mode of [cm, am] \<Rightarrow> Inr (cm, am) | _ \<Rightarrow> Inl ValueError)"

definition generate_config ::
  "(string \<Rightarrow> nat \<Rightarrow> string) \<Rightarrow> (string list \<Rightarrow> string list) \<Rightarrow> (string \<Rightarrow> rat option) \<Rightarrow> run_all_args \<Rightarrow> string \<Rightarrow> string \<Rightarrow>
    string \<Rightarrow> string option \<Rightarrow> int \<Rightarrow> int \<Rightarrow> int \<Rightarrow> int \<Rightarrow> world \<Rightarrow> (string \<times> world) res" where
  "generate_config tmp order to_float args experiment_name benchmark mode zipf client_load num_client num_server num_replicas w =
     bindE (load_config w (ra_hosts_file args)) (\<lambda>hosts_config.
     bindE (gen_process_and_site tmp order args experiment_name num_client num_server num_replicas hosts_config w) (\<lambda>(proc, w).
     bindE (split_mode mode) (\<lambda>(cc_mode, ab_mode).
     bindE (modify_dynamic_params tmp to_float args benchmark cc_mode ab_mode zipf w) (\<lambda>(config_files, w).
     bindE (aggregate_configs w (ra_hosts_file args # config_files @ [proc])) (\<lambda>result.
     bindE (client_rate client_load result) (\<lambda>result.
     Inr (new_temp tmp (''janus-final-'' @ ra_name args) (YMap result) w)))))))"

section \<open>Running\<close>

definition run_experiment_cmd :: "run_all_args \<Rightarrow> int \<Rightarrow> string \<Rightarrow> string \<Rightarrow> string list" where
  "run_experiment_cmd args exp_id config_file name =
     [ra_executable args, ''-id'', str_of_int exp_id, ''-n'', name, ''-t'', ra_s_timeout args, ''-f'', config_file,
      ''-d'', str_of_int (ra_duration args)]"

text \<open>\<^verbatim>\<open>save_git_revision\<close>: a shell line.\<close>

definition revision_cmd :: "bool \<Rightarrow> string list" where
  "revision_cmd has_file =
     (if has_file then [''cat /home/ubuntu/janus/build/revision.txt''] else [''git rev-parse HEAD''])"

definition scrape_cmd :: "string \<Rightarrow> string list" where
  "scrape_cmd name =
     [path_join ''./scripts/'' ''extract_txn_info.py'', path_join ''./log/'' (name @ ''.log''),
      path_join ''./log/'' (name @ ''.yml'')]"

definition archive_cmd :: "string \<Rightarrow> string list" where
  "archive_cmd name = [path_join ''./scripts/'' ''archive.sh'', name]"

definition aggregate_cmd :: "string \<Rightarrow> string \<Rightarrow> string list \<Rightarrow> string \<Rightarrow> string list" where
  "aggregate_cmd cwd revision matches name = [path_join cwd ''scripts/aggregate_run_output.py'', ''-p'', name, ''-r'', revision] @ matches"

definition graphs_cmd :: "run_all_args \<Rightarrow> string list list" where
  "graphs_cmd args = (if ra_graphs args then [[''../scripts/make_graphs'', ''*.csv'', ''.'', ''..'']] else [])"

record params =
  x_server :: int
  x_client :: int
  x_mode :: string
  x_benchmark :: string
  x_zipf :: "string option"
  x_load :: int

definition experiments ::
  "int list \<Rightarrow> int list \<Rightarrow> string list \<Rightarrow> string list \<Rightarrow> string option list \<Rightarrow> int list \<Rightarrow> params list" where
  "experiments servers clients modes benchmarks zipfs loads =
     concat (map (\<lambda>s. concat (map (\<lambda>c. concat (map (\<lambda>m. concat (map (\<lambda>b. concat (map (\<lambda>z.
       map (\<lambda>l. \<lparr>x_server = s, x_client = c, x_mode = m, x_benchmark = b, x_zipf = z, x_load = l\<rparr>) loads)
       zipfs)) benchmarks)) modes)) clients)) servers)"

definition experiment_name :: "run_all_args \<Rightarrow> params \<Rightarrow> string" where
  "experiment_name args x =
     ra_name args @ ''-'' @ gen_experiment_suffix (x_benchmark x) (x_mode x) (x_client x) (x_server x) (x_zipf x) (x_load x)"

record run_state =
  g_world :: world
  g_exp_id :: int
  g_calls :: "string list list"

text \<open>
  One round of \<^verbatim>\<open>run_experiments\<close>.  \<open>archived\<close> tells whether the archive of a name is there when its turn comes; the status of
  a command is only logged, but starting one may raise, which ends the round.
\<close>

fun run_calls :: "(string list \<Rightarrow> int res) \<Rightarrow> string list list \<Rightarrow> string list list" where
  "run_calls call [] = []"
| "run_calls call (c # cs) = c # (case call c of Inl _ \<Rightarrow> [] | Inr _ \<Rightarrow> run_calls call cs)"

record run_all_env =
  v_tmp :: "string \<Rightarrow> nat \<Rightarrow> string"
  v_order :: "string list \<Rightarrow> string list"
  v_float :: "string \<Rightarrow> rat option"
  v_archived :: "string \<Rightarrow> bool"
  v_has_revision :: bool
  v_revision :: string
  v_cwd :: string
  v_glob :: "string \<Rightarrow> string list"
  v_call :: "string list \<Rightarrow> int res"

definition run_one :: "run_all_env \<Rightarrow> run_all_args \<Rightarrow> run_state \<Rightarrow> params \<Rightarrow> run_state res" where
  "run_one env args g x =
     (let name = experiment_name args x; revision = revision_cmd (v_has_revision env) in
      if v_archived env (path_join ''./archive/'' (name @ ''.tgz'')) then Inr g
      else
        bindE (generate_config (v_tmp env) (v_order env) (v_float env) args name (x_benchmark x) (x_mode x) (x_zipf x) (x_load x)
          (x_client x) (x_server x) (ra_replicas args) (g_world g)) (\<lambda>(config_file, w).
        case v_call env revision of
          Inl _ \<Rightarrow> Inr (g \<lparr>g_world := w, g_calls := g_calls g @ [revision]\<rparr>)
        | Inr _ \<Rightarrow>
            let i = g_exp_id g + 1 in
            Inr \<lparr>g_world = w, g_exp_id = i,
                 g_calls = g_calls g @ revision #
                   run_calls (v_call env) [run_experiment_cmd args i config_file name, scrape_cmd name, archive_cmd name]\<rparr>))"

text \<open>After the loop, an exception is not caught.\<close>

definition must_call :: "run_all_env \<Rightarrow> run_state \<Rightarrow> string list \<Rightarrow> run_state res" where
  "must_call env g c = bindE (v_call env c) (\<lambda>_. Inr (g \<lparr>g_calls := g_calls g @ [c]\<rparr>))"

definition last_cmds :: "run_all_env \<Rightarrow> run_all_args \<Rightarrow> string list list" where
  "last_cmds env args =
     [revision_cmd (v_has_revision env),
      aggregate_cmd (v_cwd env) (v_revision env) (v_glob env (ra_name args @ ''*yml'')) (ra_name args)] @ graphs_cmd args"

definition run_experiments ::
  "run_all_env \<Rightarrow> run_all_args \<Rightarrow> string list \<Rightarrow> string list \<Rightarrow> string list \<Rightarrow> string list \<Rightarrow> string option list \<Rightarrow> int list \<Rightarrow>
    world \<Rightarrow> run_state res" where
  "run_experiments env args server_counts client_counts modes benchmarks zipfs loads w =
     bindE (mapE get_range server_counts) (\<lambda>ss.
     bindE (mapE get_range client_counts) (\<lambda>cs.
     bindE (foldE (run_one env args) \<lparr>g_world = w, g_exp_id = 0, g_calls = []\<rparr>
       (experiments (concat ss) (concat cs) modes benchmarks zipfs loads)) (\<lambda>g.
     foldE (must_call env) g (last_cmds env args))))"

section \<open>The files of a configuration\<close>

definition fresh_names :: "(string \<Rightarrow> nat \<Rightarrow> string) \<Rightarrow> world \<Rightarrow> bool" where
  "fresh_names tmp w \<longleftrightarrow>
     (\<forall>p k. w_tmp w \<le> k \<longrightarrow> tmp p k \<notin> fst ` set (w_files w)) \<and> (\<forall>p p' k k'. tmp p k = tmp p' k' \<longrightarrow> k = k')"

definition extends :: "world \<Rightarrow> world \<Rightarrow> bool" where
  "extends w w' \<longleftrightarrow> (\<forall>f v. map_of (w_files w) f = Some v \<longrightarrow> map_of (w_files w') f = Some v)"

lemma extends_refl: "extends w w"
  by (simp add: extends_def)

lemma extends_trans: "extends w w' \<Longrightarrow> extends w' w'' \<Longrightarrow> extends w w''"
  by (simp add: extends_def)

lemma new_temp_fresh:
  assumes "new_temp tmp p v w = (fn, w')" and "fresh_names tmp w"
  shows "fresh_names tmp w' \<and> extends w w' \<and> map_of (w_files w') fn = Some v"
proof -
  have fn: "fn = tmp p (w_tmp w)" and w': "w' = w \<lparr>w_files := AList.update fn v (w_files w), w_tmp := Suc (w_tmp w)\<rparr>"
    using assms(1) by (auto simp: new_temp_def Let_def)
  have new: "fn \<notin> fst ` set (w_files w)"
    using assms(2) by (auto simp: fresh_names_def fn)
  have "extends w w'"
    using new by (auto simp: extends_def w' update_conv' dest: map_of_SomeD intro: rev_image_eqI)
  moreover have "fresh_names tmp w'"
    unfolding fresh_names_def
  proof (intro conjI allI impI)
    show "tmp q k \<notin> fst ` set (w_files w')" if "w_tmp w' \<le> k" for q k
    proof -
      have "tmp q k \<noteq> fn"
        using that assms(2) unfolding fresh_names_def fn w' by fastforce
      moreover have "tmp q k \<notin> fst ` set (w_files w)"
        using that assms(2) by (simp add: fresh_names_def w')
      ultimately show ?thesis
        by (simp add: w' update_fst)
    qed
    show "k = k'" if "tmp q k = tmp q' k'" for q q' k k'
      using that assms(2) unfolding fresh_names_def by blast
  qed
  ultimately show ?thesis
    by (simp add: w' update_conv')
qed

text \<open>Files of the option \<^verbatim>\<open>-cc\<close> hold dictionaries without hosts.\<close>

definition plain :: "ydict \<Rightarrow> bool" where
  "plain d \<longleftrightarrow> distinct (map fst d) \<and> ''host'' \<notin> fst ` set d \<and> ''args'' \<notin> fst ` set d"

definition plain_file :: "world \<Rightarrow> string \<Rightarrow> bool" where
  "plain_file w fn \<longleftrightarrow> (\<exists>d. map_of (w_files w) fn = Some (YMap d) \<and> plain d)"

lemma plain_file_extends: "plain_file w fn \<Longrightarrow> extends w w' \<Longrightarrow> plain_file w' fn"
  by (auto simp: plain_file_def extends_def)

lemma plain_keys:
  assumes "plain d" and keys: "map fst d' = map fst d"
  shows "plain d'"
proof -
  have "fst ` set d' = fst ` set d"
    using arg_cong [OF keys, of set] by simp
  then show ?thesis
    using assms by (simp add: plain_def)
qed

lemma y_modify_keys:
  assumes "y_modify (YMap d) k f = Inr (m, v)"
  shows "\<exists>d'. v = YMap d' \<and> map fst d' = map fst d"
proof -
  obtain x y where "dict_get d k = Inr x" "v = YMap (AList.update k y d)"
    using assms by (auto simp: y_modify_def y_get_def y_set_def y_map_def elim!: bindE_eq_InrE)
  then show ?thesis
    by (auto simp: dict_get_Inr_iff intro!: update_keys dest: map_of_SomeD intro: rev_image_eqI)
qed

lemma modify_mode_keys:
  assumes "modify_mode key x (m, YMap d) = Inr (m', v)"
  shows "\<exists>d'. v = YMap d' \<and> map fst d' = map fst d"
  using assms by (auto simp: modify_mode_def elim!: bindE_eq_InrE split: if_splits dest!: y_modify_keys)

lemma modify_config_keys:
  assumes "modify_config to_float benchmark mode abmode zipf (YMap d) = Inr (m, v)"
  shows "\<exists>d'. v = YMap d' \<and> map fst d' = map fst d"
proof -
  obtain b mc mc2 where b: "(if b then y_modify (YMap d) ''bench'' (modify_bench to_float benchmark zipf) else Inr (False, YMap d)) = Inr mc"
    and mc2: "modify_mode ''cc'' mode mc = Inr mc2" and v: "modify_mode ''ab'' abmode mc2 = Inr (m, v)"
    using assms by (auto simp: modify_config_def elim!: bindE_eq_InrE)
  obtain d1 where d1: "snd mc = YMap d1" "map fst d1 = map fst d"
  proof (cases b)
    case True
    then have "y_modify (YMap d) ''bench'' (modify_bench to_float benchmark zipf) = Inr (fst mc, snd mc)"
      using b by simp
    from y_modify_keys [OF this] that show ?thesis by blast
  next
    case False
    then show ?thesis using b that by auto
  qed
  obtain d2 where d2: "snd mc2 = YMap d2" "map fst d2 = map fst d"
    using mc2 d1 modify_mode_keys [of "''cc''" mode "fst mc" d1 "fst mc2" "snd mc2"] by (metis prod.collapse)
  show ?thesis
    using v d2 modify_mode_keys [of "''ab''" abmode "fst mc2" d2 m v] by (metis prod.collapse)
qed

lemma modify_file_ok:
  assumes "modify_file tmp to_float args benchmark mode abmode zipf (outs, w) fn = Inr (outs', w')"
    and "fresh_names tmp w" and "plain_file w fn" and "\<forall>f \<in> set outs. plain_file w f"
  shows "fresh_names tmp w' \<and> extends w w' \<and> (\<forall>f \<in> set outs'. plain_file w' f)"
proof -
  obtain d where d: "map_of (w_files w) fn = Some (YMap d)" "plain d"
    using assms(3) by (auto simp: plain_file_def)
  then obtain m v where v: "modify_config to_float benchmark mode abmode zipf (YMap d) = Inr (m, v)"
    and out: "m \<and> (\<exists>out. new_temp tmp (''janus-other-'' @ ra_name args) v w = (out, w') \<and> outs' = outs @ [out]) \<or>
      \<not> m \<and> outs' = outs @ [fn] \<and> w' = w"
    using assms(1) by (auto simp: modify_file_def load_config_def elim!: bindE_eq_InrE split: if_splits prod.splits)
  obtain d' where d': "v = YMap d'" "plain d'"
    using modify_config_keys [OF v] plain_keys [OF d(2)] by blast
  show ?thesis
  proof (cases m)
    case True
    then obtain o' where n: "new_temp tmp (''janus-other-'' @ ra_name args) v w = (o', w')" and outs: "outs' = outs @ [o']"
      using out by auto
    note t = new_temp_fresh [OF n assms(2)]
    then have "plain_file w' o'"
      using d' by (simp add: plain_file_def)
    then show ?thesis
      using t assms(4) plain_file_extends by (auto simp: outs)
  next
    case False
    then show ?thesis
      using out assms(2,3,4) by (auto simp: extends_refl)
  qed
qed

lemma modify_dynamic_ok:
  assumes "modify_dynamic_params tmp to_float args benchmark mode abmode zipf w = Inr (outs, w')"
    and "fresh_names tmp w" and "\<forall>fn \<in> set (ra_other_config args). plain_file w fn"
  shows "fresh_names tmp w' \<and> extends w w' \<and> (\<forall>f \<in> set outs. plain_file w' f)"
proof -
  let ?P = "\<lambda>st. fresh_names tmp (snd st) \<and> extends w (snd st) \<and> (\<forall>f \<in> set (fst st). plain_file (snd st) f)"
  have "?P (outs, w')"
  proof (rule foldE_invariant [OF assms(1) [unfolded modify_dynamic_params_def]])
    show "?P ([], w)"
      using assms(2) by (simp add: extends_refl)
    show "?P t" if "fn \<in> set (ra_other_config args)" "?P s"
      "modify_file tmp to_float args benchmark mode abmode zipf s fn = Inr t" for s fn t
    proof -
      have "plain_file (snd s) fn"
        using assms(3) that(1,2) plain_file_extends by blast
      then have "fresh_names tmp (snd t) \<and> extends (snd s) (snd t) \<and> (\<forall>f \<in> set (fst t). plain_file (snd t) f)"
        using that(2,3) modify_file_ok [of tmp to_float args benchmark mode abmode zipf "fst s" "snd s" fn "fst t" "snd t"] by simp
      then show ?thesis
        using that(2) extends_trans by blast
    qed
  qed
  then show ?thesis by simp
qed

section \<open>The final configuration\<close>

lemma aggregate_plain:
  assumes "foldE (\<lambda>d fn. bindE (load_config w fn) (\<lambda>v. bindE (y_map v) (\<lambda>e. Inr (dict_update d e)))) d fns = Inr d'"
    and "\<forall>f \<in> set fns. plain_file w f" and "distinct (map fst d)" and "''args'' \<notin> fst ` set d"
  shows "distinct (map fst d') \<and> ''args'' \<notin> fst ` set d' \<and> map_of d' ''host'' = map_of d ''host''"
  using assms
proof (induction fns arbitrary: d)
  case (Cons fn fns)
  obtain e where e: "map_of (w_files w) fn = Some (YMap e)" "plain e"
    using Cons.prems(2) by (auto simp: plain_file_def)
  have "map_of e ''host'' = None"
    using e(2) by (simp add: plain_def map_of_eq_None_iff)
  then have "map_of (dict_update d e) ''host'' = map_of d ''host''"
    using e(2) by (simp add: map_of_dict_update plain_def map_add_def)
  moreover have "distinct (map fst (dict_update d e))" "''args'' \<notin> fst ` set (dict_update d e)"
    using Cons.prems(3,4) e(2) by (simp_all add: dict_update_distinct dict_update_keys plain_def)
  ultimately show ?case
    using Cons e(1) by (simp add: load_config_def y_map_def)
qed simp

lemma client_rate_other:
  assumes "client_rate load result = Inr result'" and "distinct (map fst result)"
  shows "distinct (map fst result') \<and> fst ` set result' = fst ` set result \<and>
    (\<forall>k. k \<noteq> ''client'' \<longrightarrow> map_of result' k = map_of result k)"
proof -
  obtain c where c: "map_of result ''client'' = Some c" and r: "result' = result \<or> (\<exists>v. result' = AList.update ''client'' v result)"
    using assms(1) by (auto simp: client_rate_def dict_get_Inr_iff elim!: bindE_eq_InrE split: if_splits) blast
  have "''client'' \<in> fst ` set result"
    using map_of_SomeD [OF c] by force
  then show ?thesis
    using r assms(2) by (elim disjE exE) (simp_all add: update_conv' update_fst distinct_update insert_absorb)
qed

text \<open>A final configuration holds the hosts of the hosts file and a layout for them.\<close>

lemma generate_config_Inr:
  assumes gen: "generate_config tmp order to_float args name benchmark mode zipf load num_c num_s num_replicas w = Inr (path, w')"
    and fresh: "fresh_names tmp w" and others: "\<forall>fn \<in> set (ra_other_config args). plain_file w fn"
    and hf: "map_of (w_files w) (ra_hosts_file args) = Some (YMap hdoc)" "distinct (map fst hdoc)" "''args'' \<notin> fst ` set hdoc"
  obtains layout result hosts where "map_of (w_files w') path = Some (YMap result)" "distinct (map fst result)"
    "''args'' \<notin> fst ` set result" "map_of hdoc ''host'' = Some (YMap hosts)"
    "generate_layout Balanced order (ra_place args) num_c num_s num_replicas (map fst hosts) = Inr layout"
    "map_of result ''host'' = Some (YMap hosts)"
    "map_of result ''site'' = Some (YMap (map (\<lambda>(k, rows). (k, YSeq (map (\<lambda>row. YSeq (map YStr row)) rows))) (l_site layout)))"
    "map_of result ''process'' = Some (YMap (map (\<lambda>(k, h). (k, YStr h)) (l_process layout)))"
proof -
  obtain hosts layout proc w1 cm am outs w2 r1 r2 where hosts: "map_of hdoc ''host'' = Some (YMap hosts)"
    and layout: "generate_layout Balanced order (ra_place args) num_c num_s num_replicas (map fst hosts) = Inr layout"
    and proc: "new_temp tmp (''janus-proc-'' @ name) (layout_yaml layout) w = (proc, w1)"
    and outs: "modify_dynamic_params tmp to_float args benchmark cm am zipf w1 = Inr (outs, w2)"
    and r1: "aggregate_configs w2 (ra_hosts_file args # outs @ [proc]) = Inr r1" and r2: "client_rate load r1 = Inr r2"
    and path: "new_temp tmp (''janus-final-'' @ ra_name args) (YMap r2) w2 = (path, w')"
    using gen
    by (auto simp: generate_config_def gen_process_and_site_def load_config_def hf(1) y_get_def y_map_def dict_get_Inr_iff
        elim!: bindE_eq_InrE split: yaml.splits)
  note t1 = new_temp_fresh [OF proc fresh]
  have "\<forall>fn \<in> set (ra_other_config args). plain_file w1 fn"
    using others t1 plain_file_extends by blast
  from modify_dynamic_ok [OF outs _ this] t1 have t2: "fresh_names tmp w2" "extends w1 w2" "\<forall>f \<in> set outs. plain_file w2 f"
    by blast+
  note t3 = new_temp_fresh [OF path t2(1)]
  let ?f = "\<lambda>d fn. bindE (load_config w2 fn) (\<lambda>v. bindE (y_map v) (\<lambda>e. Inr (dict_update d e)))"
  have "map_of (w_files w2) (ra_hosts_file args) = Some (YMap hdoc)" "map_of (w_files w2) proc = Some (layout_yaml layout)"
    using hf(1) t1 t2(2) by (simp_all add: extends_def)
  then obtain d where d: "foldE ?f (dict_update [] hdoc) outs = Inr d" and r: "r1 = dict_update d
      [(''site'', YMap (map (\<lambda>(k, rows). (k, YSeq (map (\<lambda>row. YSeq (map YStr row)) rows))) (l_site layout))),
       (''process'', YMap (map (\<lambda>(k, h). (k, YStr h)) (l_process layout)))]"
    using r1 by (auto simp: aggregate_configs_def load_config_def y_map_def layout_yaml_def foldE_append elim!: bindE_eq_InrE)
  have hdoc: "dict_update [] hdoc = hdoc"
    using hf(2) by (simp add: dict_update_new)
  note a = aggregate_plain [OF d t2(3)]
  have dist: "distinct (map fst d)" and noargs: "''args'' \<notin> fst ` set d" and host: "map_of d ''host'' = Some (YMap hosts)"
    using a hf(2,3) hosts by (simp_all add: hdoc)
  have r1': "distinct (map fst r1)" "''args'' \<notin> fst ` set r1"
    using dist noargs by (simp_all add: r dict_update_distinct dict_update_keys)
  note c = client_rate_other [OF r2 r1'(1)]
  show thesis
    by (rule that [of r2 hosts layout])
      (use c t3 r1'(2) hosts layout host in \<open>simp_all add: r map_of_dict_update map_add_def\<close>)
qed

section \<open>What run.py makes of it\<close>

lemma mapE_map_Inr: "(\<And>x. x \<in> set xs \<Longrightarrow> f (g x) = Inr (h x)) \<Longrightarrow> mapE f (map g xs) = Inr (map h xs)"
  by (induction xs) auto

lemma y_str_dict_strings: "y_str_dict (YMap (map (\<lambda>(k, s). (k, YStr s)) d)) = Inr d"
  using mapE_map_Inr [of d "\<lambda>(k, x). bindE (y_str x) (\<lambda>s. Inr (k, s))" "\<lambda>(k, s). (k, YStr s)" "\<lambda>x. x"]
  by (auto simp: y_str_dict_def y_map_def y_str_def)

lemma y_strs_strings: "y_strs (YSeq (map YStr row)) = Inr row"
  using mapE_map_Inr [of row y_str YStr "\<lambda>x. x"] by (simp add: y_strs_def y_seq_def y_str_def)

lemma y_rows_strings: "mapE y_strs (map (\<lambda>row. YSeq (map YStr row)) rows) = Inr rows"
  using mapE_map_Inr [of rows y_strs "\<lambda>row. YSeq (map YStr row)" "\<lambda>x. x"] by (simp add: y_strs_strings)

lemma y_sites_strings:
  "mapE (\<lambda>(k, v). bindE (y_seq v) (\<lambda>rows. bindE (mapE y_strs rows) (\<lambda>rs. Inr (k, rs))))
    (map (\<lambda>(k, rows). (k, YSeq (map (\<lambda>row. YSeq (map YStr row)) rows))) d) = Inr d"
  using mapE_map_Inr [of d "\<lambda>(k, v). bindE (y_seq v) (\<lambda>rows. bindE (mapE y_strs rows) (\<lambda>rs. Inr (k, rs)))"
    "\<lambda>(k, rows). (k, YSeq (map (\<lambda>row. YSeq (map YStr row)) rows))" "\<lambda>x. x"]
  by (auto simp: y_seq_def y_rows_strings)

text \<open>The options in the command that \<^verbatim>\<open>run_experiment\<close> runs.\<close>

definition run_line :: "run_all_args \<Rightarrow> int \<Rightarrow> string \<Rightarrow> string \<Rightarrow> (string \<times> string list) list" where
  "run_line args exp_id config_file name =
     [(''-id'', [str_of_int exp_id]), (''-n'', [name]), (''-t'', [ra_s_timeout args]), (''-f'', [config_file]),
      (''-d'', [str_of_int (ra_duration args)])]"

lemma run_line_words:
  "run_experiment_cmd args i f name = ra_executable args # concat (map (\<lambda>(flag, vs). flag # vs) (run_line args i f name))"
  by (simp add: run_experiment_cmd_def run_line_def)

lemma run_line_parsed:
  assumes "py_int (ra_s_timeout args) = Inr t"
  shows "\<exists>ns. parse_args (run_parser log_dir) (run_line args i f name) = Inr ns \<and>
    arg_get ns ''config_files'' = Inr (AList [AStr f]) \<and> arg_get ns ''rpc_port'' = Inr (AInt 5555)"
  by (simp add: run_line_def parse_args_def parse_one_def find_spec_def run_parser_def defaults_def arg_value_def arg_int_def
      dict_get_def arg_get_def assms py_int_str_of_int)

text \<open>
  (C7) The configuration \<^verbatim>\<open>run_all.py\<close> generates for an experiment and the command it runs fit \<^verbatim>\<open>run.py\<close>: its parser takes the
  options, the configuration file loads, and the process table is built from it.
\<close>

theorem generated_run_accepted:
  assumes gen: "generate_config tmp order to_float args name benchmark mode zipf load num_c num_s num_replicas w = Inr (path, w')"
    and order: "\<forall>xs. set (order xs) = set xs" and fresh: "fresh_names tmp w"
    and others: "\<forall>fn \<in> set (ra_other_config args). plain_file w fn"
    and hf: "map_of (w_files w) (ra_hosts_file args) = Some (YMap hdoc)" "distinct (map fst hdoc)" "''args'' \<notin> fst ` set hdoc"
      "map_of hdoc ''host'' = Some (YMap (map (\<lambda>(n, a). (n, YStr a)) hosts))"
    and timeout: "py_int (ra_s_timeout args) = Inr t"
  shows "\<exists>ns cfg sites infos k.
    run_experiment_cmd args i path name = ra_executable args # concat (map (\<lambda>(flag, vs). flag # vs) (run_line args i path name)) \<and>
    parse_args (run_parser log_dir) (run_line args i path name) = Inr ns \<and>
    build_config (load_config w') ns = Inr cfg \<and> site_config_of cfg = Inr sites \<and>
    get_process_info sites new_counters = Inr (infos, k)"
proof -
  obtain ns where ns: "parse_args (run_parser log_dir) (run_line args i path name) = Inr ns"
    "arg_get ns ''config_files'' = Inr (AList [AStr path])" "arg_get ns ''rpc_port'' = Inr (AInt 5555)"
    using run_line_parsed [OF timeout] by blast
  obtain layout result hs where r: "map_of (w_files w') path = Some (YMap result)" "distinct (map fst result)"
    "''args'' \<notin> fst ` set result" and hs: "map_of hdoc ''host'' = Some (YMap hs)"
    and layout: "generate_layout Balanced order (ra_place args) num_c num_s num_replicas (map fst hs) = Inr layout"
    and parts: "map_of result ''host'' = Some (YMap hs)"
    "map_of result ''site'' = Some (YMap (map (\<lambda>(k, rows). (k, YSeq (map (\<lambda>row. YSeq (map YStr row)) rows))) (l_site layout)))"
    "map_of result ''process'' = Some (YMap (map (\<lambda>(k, h). (k, YStr h)) (l_process layout)))"
    by (rule generate_config_Inr [OF gen fresh others hf(1-3)])
  have hs': "hs = map (\<lambda>(n, a). (n, YStr a)) hosts"
    using hs hf(4) by simp
  then have keys: "map fst hs = map fst hosts"
    by (simp add: case_prod_unfold)
  let ?cfg = "\<lparr>cf_args = Some ns, cf_items = result\<rparr>"
  let ?sites = "\<lparr>c_args = ns, c_host = hosts, c_process = l_process layout, c_site = l_site layout\<rparr>"
  have cfg: "build_config (load_config w') ns = Inr ?cfg"
    using r by (simp add: build_config_def ns(2) add_config_def arg_text_def load_config_def y_map_def dict_update_new)
  have "y_map (YMap d) = Inr d" for d
    by (simp add: y_map_def)
  then have sites: "site_config_of ?cfg = Inr ?sites"
    by (simp add: site_config_of_def dict_get_def parts hs' y_str_dict_strings y_sites_strings config_args_def)
  from layout_accepted [OF layout [unfolded keys] order ns(3), of new_counters] obtain infos k where
    "get_process_info ?sites new_counters = Inr (infos, k)"
    by blast
  then show ?thesis
    using ns(1) cfg sites run_line_words by blast
qed

section \<open>An example\<close>

definition demo_tmp :: "string \<Rightarrow> nat \<Rightarrow> string" where
  "demo_tmp p k = replicate k CHR ''x'' @ ''/'' @ p"

definition demo_doc :: ydict where
  "demo_doc = [(''host'', YMap (map (\<lambda>(n, a). (n, YStr a)) demo_hosts3)), (''client'', YMap [(''type'', YStr ''closed'')])]"

definition demo_world :: world where
  "demo_world = \<lparr>w_files = [(''hosts.yml'', YMap demo_doc)], w_tmp = 0\<rparr>"

definition demo_run_args :: run_all_args where
  "demo_run_args = \<lparr>ra_name = ''e'', ra_executable = ''./run.py'', ra_s_timeout = ''30'', ra_duration = 30, ra_replicas = 2,
     ra_hosts_file = ''hosts.yml'', ra_other_config = [], ra_graphs = False, ra_place = demo_args\<rparr>"

lemma demo_tmp_inj: "demo_tmp p k = demo_tmp p' k' \<Longrightarrow> k = k'"
proof -
  have "length (takeWhile (\<lambda>c. c = CHR ''x'') (demo_tmp q n)) = n" for q n
    by (induction n) (simp_all add: demo_tmp_def)
  then show "demo_tmp p k = demo_tmp p' k' \<Longrightarrow> k = k'"
    by metis
qed

lemma demo_fresh: "fresh_names demo_tmp demo_world"
proof -
  have "demo_tmp p k \<noteq> ''hosts.yml''" for p k
    by (cases k) (simp_all add: demo_tmp_def)
  then show ?thesis
    using demo_tmp_inj by (auto simp: fresh_names_def demo_world_def)
qed

lemma demo_config:
  "\<exists>w'. generate_config demo_tmp (\<lambda>xs. xs) (\<lambda>_. None) demo_run_args ''e1'' ''rw'' ''occ:raft'' None (- 1) 1 1 2 demo_world =
    Inr (demo_tmp ''janus-final-e'' 1, w')"
proof -
  have "split_char CHR '':'' ''occ:raft'' = [''occ'', ''raft'']"
    by code_simp
  moreover have "demo_tmp ''janus-proc-e1'' 0 = ''/janus-proc-e1''"
    by (simp add: demo_tmp_def)
  moreover have "map (fst \<circ> (\<lambda>(n, a). (n, YStr a))) xs = map fst xs" for xs :: "(string \<times> string) list"
    by (simp add: comp_def case_prod_unfold)
  then have "generate_layout Balanced (\<lambda>xs. xs) demo_args 1 1 2 (map (fst \<circ> (\<lambda>(n, a). (n, YStr a))) demo_hosts3) = Inr demo_layout"
    by (simp only: demo_layout_made)
  ultimately show ?thesis
    by (simp add: generate_config_def load_config_def gen_process_and_site_def y_get_def y_map_def dict_get_def demo_doc_def
        demo_world_def demo_run_args_def split_mode_def modify_dynamic_params_def aggregate_configs_def new_temp_def
        Let_def layout_yaml_def dict_update_def client_rate_def)
qed

theorem generated_run_accepted_witness:
  "\<exists>w' ns cfg sites infos k.
    generate_config demo_tmp (\<lambda>xs. xs) (\<lambda>_. None) demo_run_args ''e1'' ''rw'' ''occ:raft'' None (- 1) 1 1 2 demo_world =
      Inr (demo_tmp ''janus-final-e'' 1, w') \<and>
    parse_args (run_parser ''/log'') (run_line demo_run_args 1 (demo_tmp ''janus-final-e'' 1) ''e1'') = Inr ns \<and>
    build_config (load_config w') ns = Inr cfg \<and> site_config_of cfg = Inr sites \<and>
    get_process_info sites new_counters = Inr (infos, k)"
proof -
  obtain w' where gen: "generate_config demo_tmp (\<lambda>xs. xs) (\<lambda>_. None) demo_run_args ''e1'' ''rw'' ''occ:raft'' None (- 1) 1 1 2 demo_world =
      Inr (demo_tmp ''janus-final-e'' 1, w')"
    using demo_config by blast
  have files: "map_of (w_files demo_world) (ra_hosts_file demo_run_args) = Some (YMap demo_doc)"
    by (simp add: demo_world_def demo_run_args_def)
  have doc: "distinct (map fst demo_doc)" "''args'' \<notin> fst ` set demo_doc"
    "map_of demo_doc ''host'' = Some (YMap (map (\<lambda>(n, a). (n, YStr a)) demo_hosts3))"
    by (simp_all add: demo_doc_def)
  have timeout: "py_int (ra_s_timeout demo_run_args) = Inr 30"
    by (simp add: demo_run_args_def) code_simp
  have others: "\<forall>fn \<in> set (ra_other_config demo_run_args). plain_file demo_world fn"
    by (simp add: demo_run_args_def)
  have order: "\<forall>xs. set ((\<lambda>xs :: string list. xs) xs) = set xs"
    by simp
  from generated_run_accepted [OF gen order demo_fresh others files doc timeout, of 1 "''/log''"] gen show ?thesis
    by blast
qed

end
