(* ===== verification/Yapps_Runtime.thy ===== *)
theory Yapps_Runtime
  imports Py_Str
begin

text \<open>
  The run-time library of Yapps parsers, \<^verbatim>\<open>yapps/runtime.py\<close>: the scanner with one token of lookahead and the
  positions it reports.  A compiled pattern is the function from the rest of the input to the length
  of its match; a file is the list of chunks its \<^verbatim>\<open>read\<close> calls will return.  Stacked inputs are not modelled: no parser
  of the repository calls \<^verbatim>\<open>stack_input\<close>.
\<close>

section \<open>Tokens and scanners\<close>

type_synonym src_pos = "string \<times> int \<times> int"

record token =
  tk_type :: string
  tk_value :: string
  tk_pos :: "src_pos option"

definition token_repr :: "(string \<Rightarrow> string) \<Rightarrow> token \<Rightarrow> string" where
  "token_repr repr t =
     ''<'' @ tk_type t @ '': '' @ repr (tk_value t) @
     (case tk_pos t of
        None \<Rightarrow> []
      | Some (file, line, col) \<Rightarrow>
          '' @ '' @ (if file \<noteq> [] then file @ '':'' else []) @ (if line \<noteq> 0 then str_of_int line else []) @ ''.'' @ str_of_int col) @
     ''>''"

type_synonym pattern = "string \<times> (string \<Rightarrow> nat option)"

record scanner =
  sc_patterns :: "pattern list"
  sc_ignore :: "string list"
  sc_input :: string
  sc_file :: "string list option"
  sc_filename :: string
  sc_pos :: nat
  sc_del_pos :: nat
  sc_line :: int
  sc_del_line :: int
  sc_col :: int
  sc_tokens :: "token list"
  sc_last_read_token :: "token option"
  sc_last_token :: "token option"
  sc_last_types :: "string list"

text \<open>An empty \<open>sc_last_types\<close> stands for \<^verbatim>\<open>None\<close> as well: the code only asks whether it is true.  The counter \<open>in_name\<close> numbers unnamed inputs.\<close>

definition new_scanner :: "nat \<Rightarrow> pattern list \<Rightarrow> string list \<Rightarrow> string \<Rightarrow> string list option \<Rightarrow> string option \<Rightarrow> scanner \<times> nat" where
  "new_scanner in_name patterns ignore input file filename =
     (let (filename, in_name) =
            (case filename of
               Some f \<Rightarrow> if f = [] then (''<f.'' @ str_of_nat in_name @ ''>'', in_name + 1) else (f, in_name)
             | None \<Rightarrow> (''<f.'' @ str_of_nat in_name @ ''>'', in_name + 1))
      in (\<lparr>sc_patterns = patterns, sc_ignore = ignore, sc_input = input, sc_file = file, sc_filename = filename, sc_pos = 0,
           sc_del_pos = 0, sc_line = 1, sc_del_line = 0, sc_col = 0, sc_tokens = [], sc_last_read_token = None,
           sc_last_token = None, sc_last_types = []\<rparr>, in_name))"

definition get_pos :: "scanner \<Rightarrow> src_pos" where
  "get_pos s = (sc_filename s, sc_line s + sc_del_line s, sc_col s)"

section \<open>Reading\<close>

abbreviation "MIN_WINDOW \<equiv> 4096 :: nat"

definition newlines :: "string \<Rightarrow> int" where
  "newlines s = int (count_list s CHR 0x0A)"

definition grab_input :: "scanner \<Rightarrow> scanner" where
  "grab_input s =
     (case sc_file s of
        None \<Rightarrow> s
      | Some chunks \<Rightarrow>
          if MIN_WINDOW + sc_pos s \<le> length (sc_input s) then s
          else
            let (data, file) = (case chunks of [] \<Rightarrow> ([], None) | d # ds \<Rightarrow> (d, if d = [] then None else Some ds)) in
            if 2 * MIN_WINDOW < sc_pos s then
              s \<lparr>sc_file := file, sc_del_pos := sc_del_pos s + MIN_WINDOW,
                 sc_del_line := sc_del_line s + newlines (take MIN_WINDOW (sc_input s)),
                 sc_pos := sc_pos s - MIN_WINDOW, sc_input := drop MIN_WINDOW (sc_input s) @ data\<rparr>
            else s \<lparr>sc_file := file, sc_input := sc_input s @ data\<rparr>)"

definition getchar :: "scanner \<Rightarrow> (char \<times> scanner) res" where
  "getchar s =
     (let s = grab_input s in
      bindE (py_nth (sc_input s) (int (sc_pos s))) (\<lambda>c. Inr (c, s \<lparr>sc_pos := sc_pos s + 1\<rparr>)))"

definition sc_rest :: "scanner \<Rightarrow> string" where
  "sc_rest s = drop (sc_pos s) (sc_input s)"

text \<open>The longest match, earlier patterns having preference.\<close>

definition better :: "string list \<Rightarrow> string list \<Rightarrow> string \<Rightarrow> string \<times> int \<Rightarrow> pattern \<Rightarrow> string \<times> int" where
  "better ignore restrict rest best pat =
     (case pat of (p, regexp) \<Rightarrow>
        if restrict \<noteq> [] \<and> p \<notin> set restrict \<and> p \<notin> set ignore then best
        else case regexp rest of
            Some n \<Rightarrow> if snd best < int n then (p, int n) else best
          | None \<Rightarrow> best)"

definition best_match :: "scanner \<Rightarrow> string list \<Rightarrow> string \<times> int" where
  "best_match s restrict = foldl (better (sc_ignore s) restrict (sc_rest s)) (''(error)'', - 1) (sc_patterns s)"

text \<open>Moving over the matched text.\<close>

fun rfind_char :: "char \<Rightarrow> string \<Rightarrow> int" where
  "rfind_char c [] = - 1"
| "rfind_char c (x # xs) = (let i = rfind_char c xs in if 0 \<le> i then i + 1 else if x = c then 0 else - 1)"

definition advance :: "string \<Rightarrow> scanner \<Rightarrow> scanner" where
  "advance val s =
     (let s = s \<lparr>sc_pos := sc_pos s + length val\<rparr>; npos = rfind_char CHR 0x0A val in
      if - 1 < npos then s \<lparr>sc_col := int (length val) - npos, sc_line := sc_line s + newlines val\<rparr>
      else s \<lparr>sc_col := sc_col s + int (length val)\<rparr>)"

definition push_token :: "token \<Rightarrow> scanner \<Rightarrow> scanner" where
  "push_token tok s =
     s \<lparr>sc_tokens := (if 10 \<le> length (sc_tokens s) then drop 1 (sc_tokens s) else sc_tokens s) @ [tok],
        sc_last_read_token := Some tok\<rparr>"

definition bad_token :: "string list \<Rightarrow> pyerr" where
  "bad_token restrict = ParseError (if restrict \<noteq> [] then ''Trying to find one of '' @ py_join '', '' restrict else ''Bad Token'')"

text \<open>What is still unread, on the side of the input.\<close>

definition unread :: "scanner \<Rightarrow> nat" where
  "unread s = length (sc_rest s) + (case sc_file s of None \<Rightarrow> 0 | Some chunks \<Rightarrow> length (concat chunks))"

lemma unread_grab: "unread (grab_input s) \<le> unread s"
proof (cases "sc_file s")
  case (Some chunks)
  then show ?thesis
    by (cases chunks) (auto simp: grab_input_def unread_def sc_rest_def Let_def)
qed (simp add: grab_input_def)

lemma unread_advance:
  assumes "val = take n (sc_rest s)" "val \<noteq> []"
  shows "unread (advance val s) < unread s"
  using assms by (auto simp: unread_def advance_def sc_rest_def Let_def)

text \<open>
  \<^verbatim>\<open>token\<close>.  A match of length zero of an ignored pattern would be found again for ever.
\<close>

function scan_token :: "string list \<Rightarrow> scanner \<Rightarrow> (token \<times> scanner) res" where
  "scan_token restrict s0 =
     (let s = grab_input s0; (best_pat, best) = best_match s restrict in
      if best_pat = ''(error)'' \<and> best < 0 then Inl (bad_token restrict)
      else
        let val = take (nat best) (sc_rest s) in
        if best_pat \<notin> set (sc_ignore s) then
          let tok = \<lparr>tk_type = best_pat, tk_value = val, tk_pos = Some (get_pos s)\<rparr> in Inr (tok, push_token tok (advance val s))
        else if val = [] then Inl Hang
        else scan_token restrict (advance val s))"
  by pat_completeness auto
termination
proof (relation "measure (\<lambda>(restrict, s). unread s)")
  fix restrict :: "string list" and s0 s :: scanner and x best_pat best val
  assume "s = grab_input s0" "x = best_match s restrict" "(best_pat, best) = x" "val = take (nat best) (sc_rest s)" "val \<noteq> []"
  then have "unread (advance val s) < unread s" by (intro unread_advance) auto
  also have "\<dots> \<le> unread s0" using \<open>s = grab_input s0\<close> unread_grab by simp
  finally show "((restrict, advance val s), (restrict, s0)) \<in> measure (\<lambda>(restrict, s). unread s)" by simp
qed simp

declare scan_token.simps [simp del]

section \<open>Lookahead\<close>

definition restriction_changed :: "pyerr" where
  "restriction_changed = NotImplementedError"

definition peek :: "string list \<Rightarrow> scanner \<Rightarrow> (string \<times> scanner) res" where
  "peek types s =
     (case sc_last_token s of
        None \<Rightarrow>
          bindE (scan_token types (s \<lparr>sc_last_types := types\<rparr>)) (\<lambda>(tok, s).
          Inr (tk_type tok, s \<lparr>sc_last_token := Some tok\<rparr>))
      | Some tok \<Rightarrow>
          if sc_last_types s \<noteq> [] \<and> (\<exists>t \<in> set types. t \<notin> set (sc_last_types s)) then Inl restriction_changed
          else Inr (tk_type tok, s))"

definition wrong_token :: "string \<Rightarrow> string list \<Rightarrow> token \<Rightarrow> pyerr" where
  "wrong_token ty last_types tok =
     ParseError (''Trying to find '' @ ty @ '': '' @ py_join '', '' last_types @ '', got '' @ tk_type tok)"

definition check_type :: "string \<Rightarrow> token \<Rightarrow> scanner \<Rightarrow> (string \<times> scanner) res" where
  "check_type ty tok s = (if tk_type tok \<noteq> ty then Inl (wrong_token ty (sc_last_types s) tok) else Inr (tk_value tok, s))"

definition scan :: "string \<Rightarrow> scanner \<Rightarrow> (string \<times> scanner) res" where
  "scan ty s =
     (case sc_last_token s of
        None \<Rightarrow> bindE (scan_token [ty] s) (\<lambda>(tok, s). check_type ty tok s)
      | Some tok \<Rightarrow>
          if sc_last_types s \<noteq> [] \<and> ty \<notin> set (sc_last_types s) then Inl restriction_changed
          else check_type ty tok (s \<lparr>sc_last_token := None\<rparr>))"

section \<open>Error reports\<close>

text \<open>
  The excerpt of \<^verbatim>\<open>print_line_with_pointer\<close>: the loop looks for the end of the line number \<open>line\<close>.  On a last line without
  newline it leaves the whole text, not the line.
\<close>

fun pick_line :: "nat \<Rightarrow> string \<Rightarrow> string \<Rightarrow> string" where
  "pick_line 0 rest whole = whole"
| "pick_line (Suc k) rest whole =
     (let r = dropWhile (\<lambda>c. c \<noteq> CHR 0x0A) rest in
      if r = [] then (if k \<noteq> 0 then [] else whole)
      else if k = 0 then takeWhile (\<lambda>c. c \<noteq> CHR 0x0A) rest
      else pick_line k (tl r) whole)"

text \<open>\<^verbatim>\<open>text[:p]\<close> and \<^verbatim>\<open>text.find(c, p)\<close> for a position that may be \<open>- 1\<close>.\<close>

definition upto_pos :: "int \<Rightarrow> string \<Rightarrow> string" where
  "upto_pos p s = (if p < 0 then take (length s - nat (- p)) s else take (nat p) s)"

definition find_from :: "char \<Rightarrow> int \<Rightarrow> string \<Rightarrow> int" where
  "find_from c p s =
     (let start = (if p < 0 then length s - nat (- p) else nat p) in
      case py_find [c] (drop start s) of Some i \<Rightarrow> int (start + i) | None \<Rightarrow> - 1)"

definition first_break :: "int \<Rightarrow> int \<Rightarrow> int" where
  "first_break i j = (if i < 0 \<or> (0 \<le> j \<and> j < i) then j else i)"

definition strip_left :: "string \<times> int \<Rightarrow> string \<times> int" where
  "strip_left x =
     (case x of (s, p) \<Rightarrow>
        let i = first_break (rfind_char CHR 0x0A (upto_pos p s)) (rfind_char CHR 0x0D (upto_pos p s)) in
        if 0 \<le> i \<and> i < p then (drop (nat i + 1) s, p - i - 1) else (s, p))"

definition strip_right :: "string \<times> int \<Rightarrow> string \<times> int" where
  "strip_right x =
     (case x of (s, p) \<Rightarrow>
        let i = first_break (find_from CHR 0x0A p s) (find_from CHR 0x0D p s) in
        if 0 \<le> i then (take (nat i) s, p) else (s, p))"

text \<open>Cutting ten characters at a time from the left of a long line, the caret moving by seven.\<close>

function shorten :: "string \<times> int \<Rightarrow> string \<times> int" where
  "shorten (s, p) = (if 70 < length s \<and> 60 < p then shorten (''...'' @ drop 10 s, p - 7) else (s, p))"
  by pat_completeness auto
termination by (relation "measure (\<lambda>(s, p). nat p)") auto

declare shorten.simps [simp del]

definition print_line_with_pointer :: "src_pos \<Rightarrow> nat \<Rightarrow> scanner \<Rightarrow> string list" where
  "print_line_with_pointer pos len s =
     (case pos of (file, line, col) \<Rightarrow>
        if file \<noteq> sc_filename s then [''('' @ file @ '': not in input buffer)'']
        else
          let p = col + int len - 1; l = line - sc_del_line s in
          if l \<le> 0 then [''('' @ file @ '':'' @ str_of_int line @ '' not in input buffer)'']
          else
            let whole = pick_line (nat l) (sc_input s) (sc_input s);
                a = max (p - 80) 0;
                window = take (nat (p + 80) - nat a) (drop (nat a) whole);
                (shown, caret) = shorten (strip_right (strip_left (window, p - a)))
            in [''>  '' @ shown, ''>  '' @ replicate (nat caret) CHR '' '' @ ''^''])"

text \<open>A context is the list of rules being parsed, innermost first, each with the last token read when it began.\<close>

type_synonym ycontext = "(string \<times> token option) list"

fun context_str :: "ycontext \<Rightarrow> string" where
  "context_str [] = []"
| "context_str [(rule, _)] = rule"
| "context_str ((rule, _) # c # cs) = context_str (c # cs) @ '' > '' @ rule"

fun context_report :: "scanner \<Rightarrow> token option \<Rightarrow> ycontext \<Rightarrow> string list" where
  "context_report s tok [] = []"
| "context_report s tok ((rule, t) # cs) =
     (let tok = (case t of Some _ \<Rightarrow> t | None \<Rightarrow> tok) in
      [''while parsing '' @ rule @ ''():''] @
      (case tok of
         Some k \<Rightarrow> (case tk_pos k of Some pos \<Rightarrow> print_line_with_pointer pos (length (tk_value k)) s | None \<Rightarrow> [])
       | None \<Rightarrow> []) @
      context_report s tok cs)"

definition print_error :: "src_pos option \<Rightarrow> string \<Rightarrow> ycontext \<Rightarrow> scanner \<Rightarrow> string list" where
  "print_error epos msg ctx s =
     (let pos = (case epos of Some p \<Rightarrow> p | None \<Rightarrow> get_pos s) in
      case pos of (file, line, col) \<Rightarrow>
        [file @ '':'' @ str_of_int line @ '':'' @ str_of_int col @ '': '' @ msg] @ print_line_with_pointer pos 0 s @ context_report s None ctx)"

text \<open>\<^verbatim>\<open>wrap_error_reporter\<close>: a syntax error is printed and the result is \<^verbatim>\<open>None\<close>; other exceptions pass.\<close>

definition wrap_error_reporter :: "(scanner \<Rightarrow> ('a \<times> scanner) res) \<Rightarrow> scanner \<Rightarrow> 'a option res" where
  "wrap_error_reporter rule s =
     (case rule s of
        Inr (x, _) \<Rightarrow> Inr (Some x)
      | Inl (ParseError _) \<Rightarrow> Inr None
      | Inl e \<Rightarrow> Inl e)"

end
