(* ===== verification/Rpcgen_Emit.thy ===== *)
theory Rpcgen_Emit
  imports Py_Str
begin

text \<open>
  The code generators of the RPC compiler: \<^verbatim>\<open>simplerpcgen/misc.py\<close>, \<^verbatim>\<open>lang_python.py\<close> and \<^verbatim>\<open>lang_cpp.py\<close>.  A source
  file is the text written so far with the indentation level; a generator maps a source file to the next one.
  \<^verbatim>\<open>with f.indent()\<close> is \<open>indented\<close>.
\<close>

section \<open>Parsed RPC descriptions\<close>

record rfield =
  f_name :: string
  f_type :: string

record rstruct =
  st_name :: string
  st_fields :: "rfield list"

record rarg =
  arg_name :: "string option"
  arg_type :: string

record rfunc =
  fn_name :: string
  fn_attr :: "string option"
  fn_abstract :: bool
  fn_input :: "rarg list"
  fn_output :: "rarg list"

record rservice =
  sv_name :: string
  sv_abstract :: bool
  sv_functions :: "rfunc list"

record rpc_source =
  rs_namespace :: "string list option"
  rs_structs :: "rstruct list"
  rs_services :: "rservice list"

type_synonym rpc_table = "(string \<times> int) list"

section \<open>SourceFile\<close>

record source_file =
  sf_out :: string
  indent_level :: int

type_synonym emit = "source_file \<Rightarrow> source_file res"

definition new_source_file :: source_file where
  "new_source_file = \<lparr>sf_out = [], indent_level = 0\<rparr>"

definition sf_write :: "string \<Rightarrow> emit" where
  "sf_write txt sf = Inr (sf \<lparr>sf_out := sf_out sf @ txt\<rparr>)"

definition writeln :: "string \<Rightarrow> emit" where
  "writeln txt sf = Inr (sf \<lparr>sf_out := sf_out sf @ concat (replicate (nat (indent_level sf)) ''    '') @ txt @ nl\<rparr>)"

definition blank :: emit where
  "blank sf = Inr (sf \<lparr>sf_out := sf_out sf @ nl\<rparr>)"

definition incr_indent :: emit where
  "incr_indent sf = Inr (sf \<lparr>indent_level := indent_level sf + 1\<rparr>)"

definition decr_indent :: emit where
  "decr_indent sf =
     (let sf = sf \<lparr>indent_level := indent_level sf - 1\<rparr> in if 0 \<le> indent_level sf then Inr sf else Inl AssertionError)"

text \<open>Statements one after the other, and under an \<^verbatim>\<open>Indent\<close> object.\<close>

definition emits :: "emit list \<Rightarrow> emit" where
  "emits es sf = foldE (\<lambda>sf e. e sf) sf es"

definition indented :: "emit list \<Rightarrow> emit" where
  "indented es sf =
     bindE (emits es (sf \<lparr>indent_level := indent_level sf + 1\<rparr>)) (\<lambda>sf. Inr (sf \<lparr>indent_level := indent_level sf - 1\<rparr>))"

section \<open>Pieces of text\<close>

definition upper_char :: "char \<Rightarrow> char" where
  "upper_char c = (let n = of_char c :: nat in if 97 \<le> n \<and> n \<le> 122 then char_of (n - 32) else c)"

definition upper :: "string \<Rightarrow> string" where
  "upper = map upper_char"

definition hex_char :: "nat \<Rightarrow> char" where
  "hex_char d = (if d < 10 then char_of (48 + d) else char_of (87 + d))"

fun hex_digits :: "nat \<Rightarrow> string" where
  "hex_digits n = (if n < 16 then [hex_char n] else hex_digits (n div 16) @ [hex_char (n mod 16)])"

declare hex_digits.simps [simp del]

definition py_hex :: "int \<Rightarrow> string" where
  "py_hex i = (if i < 0 then ''-0x'' @ hex_digits (nat (- i)) else ''0x'' @ hex_digits (nat i))"

definition quoted_types :: "rarg list \<Rightarrow> string" where
  "quoted_types as = py_join '','' (map (\<lambda>a. (sq @ arg_type a @ sq)) as)"

definition rpc_key :: "rservice \<Rightarrow> rfunc \<Rightarrow> string" where
  "rpc_key sv fn = (sv_name sv @ ''.'' @ fn_name fn)"

text \<open>The loops that number unnamed arguments.\<close>

definition arg_or :: "string \<Rightarrow> nat \<times> rarg \<Rightarrow> string" where
  "arg_or pre ia = (case arg_name (snd ia) of Some n \<Rightarrow> n | None \<Rightarrow> pre @ str_of_nat (fst ia))"

definition in_params_decl :: "rfunc \<Rightarrow> string" where
  "in_params_decl fn = concat (map (\<lambda>ia. '', '' @ arg_or ''in'' ia) (enumerate 0 (fn_input fn)))"

section \<open>Python\<close>

definition emit_struct_python :: "rstruct \<Rightarrow> emit" where
  "emit_struct_python st = emits
     [writeln (st_name st @ '' = Marshal.reg_type('' @ sq @ st_name st @ sq @ '', ['' @ py_join '', '' (map (\<lambda>fd. (''('' @ sq @ f_name fd @ sq @ '', '' @ sq @ f_type fd @ sq @ '')'')) (st_fields st)) @ ''])''),
      blank]"

definition emit_code_python :: "rpc_table \<Rightarrow> rservice \<Rightarrow> rfunc \<Rightarrow> emit" where
  "emit_code_python tbl sv fn sf =
     bindE (dict_get tbl (rpc_key sv fn)) (\<lambda>code. writeln (upper (fn_name fn) @ '' = '' @ py_hex code) sf)"

definition emit_reg_python :: "rservice \<Rightarrow> rfunc \<Rightarrow> emit" where
  "emit_reg_python sv fn = writeln (''server.__reg_func__('' @ sv_name sv @ ''Service.'' @ upper (fn_name fn) @ '', self.__bind_helper__(self.'' @ fn_name fn @ ''), ['' @ quoted_types (fn_input fn) @ ''], ['' @ quoted_types (fn_output fn) @ ''])'')"

definition emit_stub_python :: "rservice \<Rightarrow> rfunc \<Rightarrow> emit" where
  "emit_stub_python sv fn = emits
     [blank,
      writeln (''def '' @ fn_name fn @ ''(__self__'' @ in_params_decl fn @ ''):''),
      indented [writeln (''raise NotImplementedError('' @ sq @ ''subclass '' @ sv_name sv @ ''Service and implement your own '' @ fn_name fn @ '' function'' @ sq @ '')'')]]"

definition emit_service_python :: "rpc_table \<Rightarrow> rservice \<Rightarrow> emit" where
  "emit_service_python tbl sv = emits
     [writeln (''class '' @ sv_name sv @ ''Service(object):''),
      indented (
        map (emit_code_python tbl sv) (sv_functions sv) @
        [blank,
         writeln (''__input_type_info__ = {''),
         indented (map (\<lambda>fn. writeln (sq @ fn_name fn @ sq @ '': ['' @ quoted_types (fn_input fn) @ ''],'')) (sv_functions sv)),
         writeln (''}''),
         blank,
         writeln (''__output_type_info__ = {''),
         indented (map (\<lambda>fn. writeln (sq @ fn_name fn @ sq @ '': ['' @ quoted_types (fn_output fn) @ ''],'')) (sv_functions sv)),
         writeln (''}''),
         blank,
         writeln (''def __bind_helper__(self, func):''),
         indented
           [writeln (''def f('' @ ''*args):''),
            indented [writeln (''return getattr(self, func.__name__)('' @ ''*args)'')],
            writeln (''return f'')],
         blank,
         writeln (''def __reg_to__(self, server):''),
         indented (map (emit_reg_python sv) (sv_functions sv) @ (if sv_functions sv = [] then [writeln (''pass'')] else []))] @
        map (emit_stub_python sv) (sv_functions sv)),
      blank]"

definition call_args_python :: "rservice \<Rightarrow> rfunc \<Rightarrow> string" where
  "call_args_python sv fn = (sv_name sv @ ''Service.'' @ upper (fn_name fn) @ '', ['' @ drop 2 (in_params_decl fn) @ ''], '' @ sv_name sv @ ''Service.__input_type_info__['' @ sq @ fn_name fn @ sq @ ''], '' @ sv_name sv @ ''Service.__output_type_info__['' @ sq @ fn_name fn @ sq @ '']'')"

definition emit_async_python :: "rservice \<Rightarrow> rfunc \<Rightarrow> emit" where
  "emit_async_python sv fn = emits
     [blank,
      writeln (''def async_'' @ fn_name fn @ ''(__self__'' @ in_params_decl fn @ ''):''),
      indented [writeln (''return __self__.__clnt__.async_call('' @ call_args_python sv fn @ '')'')]]"

definition emit_sync_python :: "rservice \<Rightarrow> rfunc \<Rightarrow> emit" where
  "emit_sync_python sv fn = emits
     [blank,
      writeln (''def sync_'' @ fn_name fn @ ''(__self__'' @ in_params_decl fn @ ''):''),
      indented
        [writeln (''__result__ = __self__.__clnt__.sync_call('' @ call_args_python sv fn @ '')''),
         writeln (''if __result__[0] != 0:''),
         indented [writeln (''raise Exception('' @ dq @ ''RPC returned non-zero error code %d: %s'' @ dq @ '' % (__result__[0], os.strerror(__result__[0])))'')],
         writeln (''if len(__result__[1]) == 1:''),
         indented [writeln (''return __result__[1][0]'')],
         writeln (''elif len(__result__[1]) > 1:''),
         indented [writeln (''return __result__[1]'')]]]"

definition emit_proxy_python :: "rservice \<Rightarrow> emit" where
  "emit_proxy_python sv = emits
     [writeln (''class '' @ sv_name sv @ ''Proxy(object):''),
      indented (
        [writeln (''def __init__(self, clnt):''),
         indented [writeln (''self.__clnt__ = clnt'')]] @
        map (emit_async_python sv) (sv_functions sv) @ map (emit_sync_python sv) (sv_functions sv)),
      blank]"

definition emit_service_and_proxy_python :: "rpc_table \<Rightarrow> rservice \<Rightarrow> emit" where
  "emit_service_and_proxy_python tbl sv = emits [emit_service_python tbl sv, emit_proxy_python sv]"

definition emit_rpc_source_python :: "rpc_source \<Rightarrow> rpc_table \<Rightarrow> source_file res" where
  "emit_rpc_source_python src tbl = emits (
     [writeln (''import os''),
      writeln (''from simplerpc.marshal import Marshal''),
      writeln (''from simplerpc.future import Future''),
      blank] @
     map emit_struct_python (rs_structs src) @ map (emit_service_and_proxy_python tbl) (rs_services src)) new_source_file"

section \<open>C++\<close>

definition emit_struct :: "rstruct \<Rightarrow> emit" where
  "emit_struct st = emits
     [writeln (''struct '' @ st_name st @ '' {''),
      indented (map (\<lambda>fd. writeln (f_type fd @ '' '' @ f_name fd @ '';'')) (st_fields st)),
      writeln (''};''),
      blank,
      writeln (''inline rrr::Marshal& operator <<(rrr::Marshal& m, const '' @ st_name st @ ''& o) {''),
      indented (map (\<lambda>fd. writeln (''m << o.'' @ f_name fd @ '';'')) (st_fields st) @ [writeln (''return m;'')]),
      writeln (''}''),
      blank,
      writeln (''inline rrr::Marshal& operator >>(rrr::Marshal& m, '' @ st_name st @ ''& o) {''),
      indented (map (\<lambda>fd. writeln (''m >> o.'' @ f_name fd @ '';'')) (st_fields st) @ [writeln (''return m;'')]),
      writeln (''}''),
      blank]"

definition emit_enum_one :: "rpc_table \<Rightarrow> rservice \<Rightarrow> rfunc \<Rightarrow> emit" where
  "emit_enum_one tbl sv fn sf =
     bindE (dict_get tbl (rpc_key sv fn)) (\<lambda>code. writeln (upper (fn_name fn) @ '' = '' @ py_hex code @ '','') sf)"

definition emit_enum :: "rpc_table \<Rightarrow> rservice \<Rightarrow> emit" where
  "emit_enum tbl sv = emits
     [writeln (''enum {''),
      indented (map (emit_enum_one tbl sv) (sv_functions sv)),
      writeln (''};''),
      blank]"

definition emit_reg_one :: "rservice \<Rightarrow> rfunc \<Rightarrow> emit" where
  "emit_reg_one sv fn = emits
     [if fn_attr fn = Some ''raw'' then
        writeln (''if ((ret = svr->reg('' @ upper (fn_name fn) @ '', this, &'' @ sv_name sv @ ''Service::'' @ fn_name fn @ '')) != 0) {'')
      else
        writeln (''if ((ret = svr->reg('' @ upper (fn_name fn) @ '',this, &'' @ sv_name sv @ ''Service::__'' @ fn_name fn @ ''__wrapper__)) != 0) {''),
      indented [writeln (''goto err;'')],
      writeln (''}'')]"

definition emit_reg_to :: "rservice \<Rightarrow> emit" where
  "emit_reg_to sv = emits
     [writeln (''int __reg_to__(rrr::Server* svr) {''),
      indented ([writeln (''int ret = 0;'')] @ map (emit_reg_one sv) (sv_functions sv) @ [writeln (''return 0;'')]),
      writeln (''err:''),
      indented (map (\<lambda>fn. writeln (''svr->unreg('' @ upper (fn_name fn) @ '');'')) (sv_functions sv) @ [writeln (''return ret;'')]),
      writeln (''}'')]"

definition in_decl :: "rarg \<Rightarrow> string" where
  "in_decl a = (''const '' @ arg_type a @ ''&'') @ (case arg_name a of Some n \<Rightarrow> '' '' @ n | None \<Rightarrow> [])"

definition out_decl :: "rarg \<Rightarrow> string" where
  "out_decl a = (arg_type a @ ''*'') @ (case arg_name a of Some n \<Rightarrow> '' '' @ n | None \<Rightarrow> [])"

definition emit_virtual :: "rservice \<Rightarrow> rfunc \<Rightarrow> emit" where
  "emit_virtual sv fn =
     (let postfix = (if sv_abstract sv \<or> fn_abstract fn then '' = 0'' else []) in
      if fn_attr fn = Some ''raw'' then
        writeln (''virtual void '' @ fn_name fn @ ''(rrr::Request* req, rrr::ServerConnection* sconn)'' @ postfix @ '';'')
      else
        let func_args = map in_decl (fn_input fn) @ map out_decl (fn_output fn) @
              (if fn_attr fn = Some ''defer'' then [''rrr::DeferredReply* defer''] else [])
        in writeln (''virtual void '' @ fn_name fn @ ''('' @ py_join '', '' func_args @ '')'' @ postfix @ '';''))"

text \<open>The body of a wrapper; the arguments are numbered.\<close>

definition numbers :: "'a list \<Rightarrow> string list" where
  "numbers xs = map str_of_nat [0..<length xs]"

definition emit_defer_body :: "rfunc \<Rightarrow> emit" where
  "emit_defer_body fn = emits (
     concat (map (\<lambda>(i, a).
       [writeln (arg_type a @ ''* in_'' @ i @ '' = new '' @ arg_type a @ '';''),
        writeln (''req->m >> *in_'' @ i @ '';'')]) (zip (numbers (fn_input fn)) (fn_input fn))) @
     map (\<lambda>(i, a). writeln (arg_type a @ ''* out_'' @ i @ '' = new '' @ arg_type a @ '';'')) (zip (numbers (fn_output fn)) (fn_output fn)) @
     [writeln (''auto __marshal_reply__ = [=] {''),
      indented (map (\<lambda>i. writeln (''*sconn << *out_'' @ i @ '';'')) (numbers (fn_output fn))),
      writeln (''};''),
      writeln (''auto __cleanup__ = [=] {''),
      indented (map (\<lambda>i. writeln (''delete in_'' @ i @ '';'')) (numbers (fn_input fn)) @ map (\<lambda>i. writeln (''delete out_'' @ i @ '';'')) (numbers (fn_output fn))),
      writeln (''};''),
      writeln (''rrr::DeferredReply* __defer__ = new rrr::DeferredReply(req, sconn, __marshal_reply__, __cleanup__);''),
      writeln (''this->'' @ fn_name fn @ ''('' @ py_join '', '' (map (\<lambda>i. (''*in_'' @ i)) (numbers (fn_input fn)) @ map (\<lambda>i. (''out_'' @ i)) (numbers (fn_output fn)) @ [''__defer__'']) @ '');'')])"

definition plain_calls :: "rfunc \<Rightarrow> emit list" where
  "plain_calls fn =
     concat (map (\<lambda>(i, a).
       [writeln (arg_type a @ '' in_'' @ i @ '';''),
        writeln (''req->m >> in_'' @ i @ '';'')]) (zip (numbers (fn_input fn)) (fn_input fn))) @
     map (\<lambda>(i, a). writeln (arg_type a @ '' out_'' @ i @ '';'')) (zip (numbers (fn_output fn)) (fn_output fn)) @
     [writeln (''this->'' @ fn_name fn @ ''('' @ py_join '', '' (map (\<lambda>i. (''in_'' @ i)) (numbers (fn_input fn)) @ map (\<lambda>i. (''&out_'' @ i)) (numbers (fn_output fn))) @ '');''),
      writeln (''sconn->begin_reply(req);'')] @
     map (\<lambda>i. writeln (''*sconn << out_'' @ i @ '';'')) (numbers (fn_output fn)) @
     [writeln (''sconn->end_reply();''),
      writeln (''delete req;''),
      writeln (''sconn->release();'')]"

definition emit_plain_body :: "rfunc \<Rightarrow> emit" where
  "emit_plain_body fn = emits (
     (if fn_attr fn \<noteq> Some ''fast'' then [writeln (''auto f = [=] {''), incr_indent] else []) @
     plain_calls fn @
     (if fn_attr fn \<noteq> Some ''fast'' then [decr_indent, writeln (''};''), writeln (''sconn->run_async(f);'')] else []))"

definition emit_wrapper :: "rfunc \<Rightarrow> emit" where
  "emit_wrapper fn = emits
     (if fn_attr fn = Some ''raw'' then []
      else
        [writeln (''void __'' @ fn_name fn @ ''__wrapper__(rrr::Request* req, rrr::ServerConnection* sconn) {''),
         indented [if fn_attr fn = Some ''defer'' then emit_defer_body fn else emit_plain_body fn],
         writeln (''}'')])"

definition emit_service :: "rpc_table \<Rightarrow> rservice \<Rightarrow> emit" where
  "emit_service tbl sv = emits
     [writeln (''class '' @ sv_name sv @ ''Service: public rrr::Service {''),
      writeln (''public:''),
      indented (
        [emit_enum tbl sv,
         emit_reg_to sv,
         writeln (''// these RPC handler functions need to be implemented by user''),
         writeln (''// for '' @ sq @ ''raw'' @ sq @ '' handlers, remember to reply req, delete req, and sconn->release(); use sconn->run_async for heavy job'')] @
        map (emit_virtual sv) (sv_functions sv)),
      writeln (''private:''),
      indented (map emit_wrapper (sv_functions sv)),
      writeln (''};''),
      blank]"

definition async_func_params :: "rfunc \<Rightarrow> string list" where
  "async_func_params fn = map (\<lambda>ia. (''const '' @ arg_type (snd ia) @ ''& '' @ arg_or ''in_'' ia)) (enumerate 0 (fn_input fn))"

definition async_call_params :: "rfunc \<Rightarrow> string list" where
  "async_call_params fn = map (arg_or ''in_'') (enumerate 0 (fn_input fn))"

definition sync_out_params :: "rfunc \<Rightarrow> string list" where
  "sync_out_params fn = map (arg_or ''out_'') (enumerate 0 (fn_output fn))"

definition sync_func_params :: "rfunc \<Rightarrow> string list" where
  "sync_func_params fn =
     async_func_params fn @ map (\<lambda>ia. (arg_type (snd ia) @ ''* '' @ arg_or ''out_'' ia)) (enumerate 0 (fn_output fn))"

definition emit_async :: "rservice \<Rightarrow> rfunc \<Rightarrow> emit" where
  "emit_async sv fn = emits
     [writeln (''rrr::Future* async_'' @ fn_name fn @ ''('' @ py_join '', '' (async_func_params fn @ [[]]) @ ''const rrr::FutureAttr& __fu_attr__ = rrr::FutureAttr()) {''),
      indented (
        [writeln (''rrr::Future* __fu__ = __cl__->begin_request('' @ sv_name sv @ ''Service::'' @ upper (fn_name fn) @ '', __fu_attr__);'')] @
        (if 0 < length (async_call_params fn) then
           [writeln (''if (__fu__ != nullptr) {''),
            indented (map (\<lambda>param. writeln (''*__cl__ << '' @ param @ '';'')) (async_call_params fn)),
            writeln (''}'')]
         else []) @
        [writeln (''__cl__->end_request();''),
         writeln (''return __fu__;'')]),
      writeln (''}'')]"

definition emit_sync :: "rfunc \<Rightarrow> emit" where
  "emit_sync fn = emits
     [writeln (''rrr::i32 '' @ fn_name fn @ ''('' @ py_join '', '' (sync_func_params fn) @ '') {''),
      indented (
        [writeln (''rrr::Future* __fu__ = this->async_'' @ fn_name fn @ ''('' @ py_join '', '' (async_call_params fn) @ '');''),
         writeln (''if (__fu__ == nullptr) {''),
         indented [writeln (''return ENOTCONN;'')],
         writeln (''}''),
         writeln (''rrr::i32 __ret__ = __fu__->get_error_code();'')] @
        (if 0 < length (sync_out_params fn) then
           [writeln (''if (__ret__ == 0) {''),
            indented (map (\<lambda>param. writeln (''__fu__->get_reply() >> *'' @ param @ '';'')) (sync_out_params fn)),
            writeln (''}'')]
         else []) @
        [writeln (''return __ret__;'')]),
      writeln (''}'')]"

definition emit_proxy :: "rservice \<Rightarrow> emit" where
  "emit_proxy sv = emits
     [writeln (''class '' @ sv_name sv @ ''Proxy {''),
      writeln (''protected:''),
      indented [writeln (''rrr::Client* __cl__;'')],
      writeln (''public:''),
      indented (
        [writeln (sv_name sv @ ''Proxy(rrr::Client* cl): __cl__(cl) { }'')] @
        concat (map (\<lambda>fn. [emit_async sv fn, emit_sync fn]) (sv_functions sv))),
      writeln (''};''),
      blank]"

definition emit_service_and_proxy :: "rpc_table \<Rightarrow> rservice \<Rightarrow> emit" where
  "emit_service_and_proxy tbl sv = emits [emit_service tbl sv, emit_proxy sv]"

definition emit_rpc_source_cpp :: "rpc_source \<Rightarrow> rpc_table \<Rightarrow> string \<Rightarrow> string \<Rightarrow> source_file res" where
  "emit_rpc_source_cpp src tbl cpp_header cpp_footer = emits (
     [writeln (''#pragma once''),
      blank,
      writeln (''#include '' @ dq @ ''rrr.hpp'' @ dq),
      blank,
      writeln (''#include <errno.h>''),
      blank,
      sf_write cpp_header,
      blank] @
     (case rs_namespace src of
        Some ns \<Rightarrow> [writeln (py_join '' '' (map (\<lambda>x. (''namespace '' @ x @ '' {'')) ns)), blank]
      | None \<Rightarrow> []) @
     map emit_struct (rs_structs src) @
     map (emit_service_and_proxy tbl) (rs_services src) @
     (case rs_namespace src of
        Some ns \<Rightarrow> [writeln (py_join '' '' (map (\<lambda>_. ''}'') ns) @ '' // namespace '' @ py_join ''::'' ns), blank]
      | None \<Rightarrow> []) @
     [blank,
      sf_write cpp_footer,
      blank]) new_source_file"

end
