(* ===== verification/Rpcgen_Parser.thy ===== *)
theory Rpcgen_Parser
  imports Yapps_Runtime Rpcgen_Emit
begin

text \<open>
  The RPC compiler \<^verbatim>\<open>simplerpcgen/rpcgen.py\<close>: its scanner patterns, the parser generated by Yapps (one definition per
  rule, the scanner passed along), the table of RPC codes, and \<^verbatim>\<open>rpcgen\<close> itself.  The rules that loop or call
  themselves take fuel; running out of it is \<open>Hang\<close>.
\<close>

section \<open>Patterns\<close>

abbreviation (input) "bs \<equiv> [CHR 0x5C]"

definition kw :: "string \<Rightarrow> string" where
  "kw s = dq @ s @ dq"

abbreviation "t_rpar \<equiv> kw (bs @ '')'')"
abbreviation "t_bar \<equiv> kw (bs @ ''|'')"
abbreviation "t_lpar \<equiv> kw (bs @ ''('')"

definition ascii_space :: "char \<Rightarrow> bool" where
  "ascii_space c \<longleftrightarrow> c \<in> {CHR '' '', CHR 0x09, CHR 0x0A, CHR 0x0B, CHR 0x0C, CHR 0x0D}"

definition letter :: "char \<Rightarrow> bool" where
  "letter c \<longleftrightarrow> (let n = of_char c :: nat in 65 \<le> n \<and> n \<le> 90 \<or> 97 \<le> n \<and> n \<le> 122 \<or> n = 95)"

definition letter_digit :: "char \<Rightarrow> bool" where
  "letter_digit c \<longleftrightarrow> letter c \<or> char_digit c \<noteq> None"

definition m_lit :: "string \<Rightarrow> string \<Rightarrow> nat option" where
  "m_lit w s = (if startswith s w then Some (length w) else None)"

definition m_spaces :: "string \<Rightarrow> nat option" where
  "m_spaces s = (let n = length (takeWhile ascii_space s) in if 0 < n then Some n else None)"

definition m_comment :: "string \<Rightarrow> nat option" where
  "m_comment s =
     (let n = length (takeWhile (\<lambda>c. c \<noteq> CHR 0x0A) (drop 2 s)) in if startswith s ''//'' \<and> 0 < n then Some (2 + n) else None)"

text \<open>\<^verbatim>\<open>($|%%)\<close>: the dollar matches at the end and before a final newline.\<close>

definition m_eof :: "string \<Rightarrow> nat option" where
  "m_eof s = (if s = [] \<or> s = nl then Some 0 else if startswith s ''%%'' then Some 2 else None)"

definition m_symbol :: "string \<Rightarrow> nat option" where
  "m_symbol s = (case s of [] \<Rightarrow> None | c # cs \<Rightarrow> if letter c then Some (1 + length (takeWhile letter_digit cs)) else None)"

definition sp_pat :: string where
  "sp_pat = bs @ ''s+''"

definition comment_pat :: string where
  "comment_pat = ''//[^'' @ bs @ ''n]+''"

definition rpc_patterns :: "pattern list" where
  "rpc_patterns =
     [(kw ''0'', m_lit ''0''), (kw ''='', m_lit ''=''), (t_rpar, m_lit '')''), (t_bar, m_lit ''|''), (t_lpar, m_lit ''('')] @
     map (\<lambda>w. (kw w, m_lit w))
       [''defer'', ''raw'', ''fast'', ''service'', ''abstract'', ''long'', ''unsigned'', ''int'', ''bool'', ''>'', '','', ''<'',
        ''v64'', ''v32'', ''i64'', ''i32'', ''i16'', ''i8'', ''}'', ''{'', ''struct'', ''::'', ''namespace''] @
     [(sp_pat, m_spaces), (comment_pat, m_comment), ('';'', m_lit '';''), (''EOF'', m_eof), (''SYMBOL'', m_symbol)]"

definition rpc_ignore :: "string list" where
  "rpc_ignore = ['';'', sp_pat, comment_pat]"

definition rpc_scanner :: "nat \<Rightarrow> string \<Rightarrow> scanner" where
  "rpc_scanner in_name input = fst (new_scanner in_name rpc_patterns rpc_ignore input None None)"

section \<open>Names\<close>

definition std_rename :: "string \<Rightarrow> string" where
  "std_rename t =
     (if t \<in> {''pair'', ''string'', ''map'', ''list'', ''set'', ''vector'', ''unordered_map'', ''unordered_set''} then ''std::'' @ t else t)"

text \<open>\<^verbatim>\<open>re.match("__([^_]+.*[^_]+|[^_])__$", name)\<close> for a name without newline.\<close>

definition reserved_name :: "string \<Rightarrow> bool" where
  "reserved_name name \<longleftrightarrow>
     (let mid = take (length name - 4) (drop 2 name) in
      startswith name ''__'' \<and> endswith name ''__'' \<and> 5 \<le> length name \<and> hd mid \<noteq> CHR ''_'' \<and> last mid \<noteq> CHR ''_'')"

definition forbid_reserved_names :: "string \<Rightarrow> unit res" where
  "forbid_reserved_names name =
     (if reserved_name name then
        Inl (GenericException (''bad name '' @ sq @ name @ sq @ '', __NAME__ format names are reserved''))
      else Inr ())"

section \<open>The generated parser\<close>

type_synonym 'a rule = "scanner \<Rightarrow> ('a \<times> scanner) res"

definition bindP :: "'a rule \<Rightarrow> ('a \<Rightarrow> 'b rule) \<Rightarrow> 'b rule" where
  "bindP p f s = bindE (p s) (\<lambda>(x, s). f x s)"

definition returnP :: "'a \<Rightarrow> 'a rule" where
  "returnP x s = Inr (x, s)"

definition failP :: "pyerr \<Rightarrow> 'a rule" where
  "failP e s = Inl e"

definition liftP :: "'a res \<Rightarrow> 'a rule" where
  "liftP r s = bindE r (\<lambda>x. Inr (x, s))"

definition after_peek :: "string list \<Rightarrow> (string \<Rightarrow> 'a rule) \<Rightarrow> 'a rule" where
  "after_peek types f = bindP (peek types) f"

definition type_starts :: "string list" where
  "type_starts = [kw ''i8'', kw ''i16'', kw ''i32'', kw ''i64'', kw ''v32'', kw ''v64'', kw ''bool'', kw ''int'', kw ''unsigned'', kw ''long'', kw ''::'', ''SYMBOL'']"

definition after_symbol :: "string list" where
  "after_symbol = [kw ''<'', ''SYMBOL'', kw '','', kw ''>'', t_bar, t_rpar]"

fun full_symbol_loop :: "nat \<Rightarrow> string \<Rightarrow> string rule" where
  "full_symbol_loop 0 s = failP Hang"
| "full_symbol_loop (Suc n) s =
     after_peek (kw ''::'' # after_symbol) (\<lambda>t.
     if t = kw ''::'' then
       bindP (scan (kw ''::'')) (\<lambda>_. bindP (scan ''SYMBOL'') (\<lambda>sym. full_symbol_loop n (s @ ''::'' @ sym)))
     else returnP s)"

definition full_symbol :: "nat \<Rightarrow> string rule" where
  "full_symbol n =
     after_peek [kw ''::'', ''SYMBOL''] (\<lambda>t.
     bindP (if t = kw ''::'' then bindP (scan (kw ''::'')) (\<lambda>_. returnP ''::'') else returnP []) (\<lambda>s.
     bindP (scan ''SYMBOL'') (\<lambda>sym. full_symbol_loop n (s @ sym))))"

definition prim_type :: "string \<Rightarrow> string rule" where
  "prim_type w = bindP (scan (kw w)) (\<lambda>_. returnP (''rrr::'' @ w))"

text \<open>\<^verbatim>\<open>error(...)\<close> prints a report and leaves the program.\<close>

definition forbidden_type :: "string rule" where
  "forbidden_type =
     after_peek [kw ''bool'', kw ''int'', kw ''unsigned'', kw ''long''] (\<lambda>t.
     bindP (if t = kw ''bool'' then scan (kw ''bool'')
            else if t = kw ''int'' then scan (kw ''int'')
            else if t = kw ''unsigned'' then scan (kw ''unsigned'')
            else scan (kw ''long'')) (\<lambda>_. failP (SystemExit 1)))"

fun type_rule :: "nat \<Rightarrow> string rule" and type_args_loop :: "nat \<Rightarrow> string \<Rightarrow> string rule" where
  "type_rule 0 = failP Hang"
| "type_rule (Suc n) =
     after_peek type_starts (\<lambda>t.
     if t = kw ''i8'' then prim_type ''i8''
     else if t = kw ''i16'' then prim_type ''i16''
     else if t = kw ''i32'' then prim_type ''i32''
     else if t = kw ''i64'' then prim_type ''i64''
     else if t = kw ''v32'' then prim_type ''v32''
     else if t = kw ''v64'' then prim_type ''v64''
     else if t \<in> {kw ''::'', ''SYMBOL''} then
       bindP (full_symbol n) (\<lambda>sym.
       after_peek after_symbol (\<lambda>t2.
       if t2 = kw ''<'' then
         bindP (scan (kw ''<'')) (\<lambda>_.
         bindP (type_rule n) (\<lambda>ty.
         bindP (type_args_loop n (std_rename sym @ ''<'' @ ty)) (\<lambda>res.
         bindP (scan (kw ''>'')) (\<lambda>_. returnP (res @ ''>'')))))
       else returnP (std_rename sym)))
     else forbidden_type)"
| "type_args_loop 0 acc = failP Hang"
| "type_args_loop (Suc n) acc =
     after_peek [kw ''>'', kw '',''] (\<lambda>t.
     if t = kw '','' then
       bindP (scan (kw '','')) (\<lambda>_. bindP (type_rule n) (\<lambda>ty. type_args_loop n (acc @ '', '' @ ty)))
     else returnP acc)"

definition struct_field :: "nat \<Rightarrow> rfield rule" where
  "struct_field n =
     bindP (type_rule n) (\<lambda>ty. bindP (scan ''SYMBOL'') (\<lambda>sym. returnP \<lparr>f_name = sym, f_type = ty\<rparr>))"

fun struct_fields :: "nat \<Rightarrow> rfield list \<Rightarrow> rfield list rule" where
  "struct_fields 0 acc = failP Hang"
| "struct_fields (Suc n) acc =
     after_peek (kw ''}'' # type_starts) (\<lambda>t.
     if t \<noteq> kw ''}'' then bindP (struct_field n) (\<lambda>fd. struct_fields n (acc @ [fd])) else returnP acc)"

definition struct_decl :: "nat \<Rightarrow> rstruct rule" where
  "struct_decl n =
     bindP (scan (kw ''struct'')) (\<lambda>_.
     bindP (scan ''SYMBOL'') (\<lambda>sym.
     bindP (scan (kw ''{'')) (\<lambda>_.
     bindP (struct_fields n []) (\<lambda>fds.
     bindP (scan (kw ''}'')) (\<lambda>_. returnP \<lparr>st_name = sym, st_fields = fds\<rparr>)))))"

definition func_arg :: "nat \<Rightarrow> rarg rule" where
  "func_arg n =
     bindP (type_rule n) (\<lambda>ty.
     after_peek [''SYMBOL'', kw '','', t_bar, t_rpar] (\<lambda>t.
     if t = ''SYMBOL'' then
       bindP (scan ''SYMBOL'') (\<lambda>sym.
       bindP (liftP (forbid_reserved_names sym)) (\<lambda>_. returnP \<lparr>arg_name = Some sym, arg_type = ty\<rparr>))
     else returnP \<lparr>arg_name = None, arg_type = ty\<rparr>))"

fun func_args_loop :: "nat \<Rightarrow> rarg list \<Rightarrow> rarg list rule" where
  "func_args_loop 0 acc = failP Hang"
| "func_args_loop (Suc n) acc =
     after_peek [kw '','', t_bar, t_rpar] (\<lambda>t.
     if t = kw '','' then bindP (scan (kw '','')) (\<lambda>_. bindP (func_arg n) (\<lambda>a. func_args_loop n (acc @ [a])))
     else returnP acc)"

definition func_arg_list :: "nat \<Rightarrow> rarg list rule" where
  "func_arg_list n =
     after_peek ([kw ''i8'', kw ''i16'', kw ''i32'', kw ''i64'', kw ''v32'', kw ''v64'', kw ''bool'', kw ''int'', kw ''unsigned'', kw ''long'',
         kw '','', kw ''::'', ''SYMBOL'', t_bar, t_rpar]) (\<lambda>t.
     if t \<in> {kw '','', t_bar, t_rpar} then returnP []
     else bindP (func_arg n) (\<lambda>a. func_args_loop n [a]))"

definition func_attr :: "string option rule" where
  "func_attr =
     after_peek [kw ''fast'', kw ''raw'', kw ''defer'', ''SYMBOL''] (\<lambda>t.
     if t \<noteq> ''SYMBOL'' then
       after_peek [kw ''fast'', kw ''raw'', kw ''defer''] (\<lambda>t.
       if t = kw ''fast'' then bindP (scan (kw ''fast'')) (\<lambda>_. returnP (Some ''fast''))
       else if t = kw ''raw'' then bindP (scan (kw ''raw'')) (\<lambda>_. returnP (Some ''raw''))
       else bindP (scan (kw ''defer'')) (\<lambda>_. returnP (Some ''defer'')))
     else returnP None)"

definition service_function :: "nat \<Rightarrow> rfunc rule" where
  "service_function n =
     bindP func_attr (\<lambda>attr.
     bindP (scan ''SYMBOL'') (\<lambda>sym.
     bindP (liftP (forbid_reserved_names sym)) (\<lambda>_.
     bindP (scan t_lpar) (\<lambda>_.
     bindP (func_arg_list n) (\<lambda>inp.
     after_peek [t_bar, t_rpar] (\<lambda>t.
     bindP (if t = t_bar then bindP (scan t_bar) (\<lambda>_. func_arg_list n) else returnP []) (\<lambda>outp.
     bindP (scan t_rpar) (\<lambda>_.
     after_peek [kw ''='', kw ''fast'', kw ''raw'', kw ''defer'', ''SYMBOL'', kw ''}''] (\<lambda>t.
     bindP (if t = kw ''='' then bindP (scan (kw ''='')) (\<lambda>_. bindP (scan (kw ''0'')) (\<lambda>_. returnP True)) else returnP False) (\<lambda>abs.
     returnP \<lparr>fn_name = sym, fn_attr = attr, fn_abstract = abs, fn_input = inp, fn_output = outp\<rparr>))))))))))"

fun service_functions :: "nat \<Rightarrow> rfunc list \<Rightarrow> rfunc list rule" where
  "service_functions 0 acc = failP Hang"
| "service_functions (Suc n) acc =
     after_peek [kw ''fast'', kw ''raw'', kw ''defer'', ''SYMBOL'', kw ''}''] (\<lambda>t.
     if t \<noteq> kw ''}'' then bindP (service_function n) (\<lambda>fn. service_functions n (acc @ [fn])) else returnP acc)"

definition service_decl :: "nat \<Rightarrow> rservice rule" where
  "service_decl n =
     after_peek [kw ''abstract'', kw ''service''] (\<lambda>t.
     bindP (if t = kw ''abstract'' then bindP (scan (kw ''abstract'')) (\<lambda>_. returnP True) else returnP False) (\<lambda>abs.
     bindP (scan (kw ''service'')) (\<lambda>_.
     bindP (scan ''SYMBOL'') (\<lambda>sym.
     bindP (scan (kw ''{'')) (\<lambda>_.
     bindP (service_functions n []) (\<lambda>fns.
     bindP (scan (kw ''}'')) (\<lambda>_.
     returnP \<lparr>sv_name = sym, sv_abstract = abs, sv_functions = fns\<rparr>)))))))"

fun structs_and_services :: "nat \<Rightarrow> rstruct list \<Rightarrow> rservice list \<Rightarrow> (rstruct list \<times> rservice list) rule" where
  "structs_and_services 0 sts svs = failP Hang"
| "structs_and_services (Suc n) sts svs =
     after_peek [kw ''struct'', kw ''abstract'', kw ''service'', ''EOF''] (\<lambda>t.
     if t \<noteq> ''EOF'' then
       after_peek [kw ''struct'', kw ''abstract'', kw ''service''] (\<lambda>t.
       if t = kw ''struct'' then bindP (struct_decl n) (\<lambda>st. structs_and_services n (sts @ [st]) svs)
       else bindP (service_decl n) (\<lambda>sv. structs_and_services n sts (svs @ [sv])))
     else returnP (sts, svs))"

fun namespace_loop :: "nat \<Rightarrow> string list \<Rightarrow> string list rule" where
  "namespace_loop 0 acc = failP Hang"
| "namespace_loop (Suc n) acc =
     after_peek [kw ''::'', ''EOF'', kw ''struct'', kw ''abstract'', kw ''service''] (\<lambda>t.
     if t = kw ''::'' then
       bindP (scan (kw ''::'')) (\<lambda>_. bindP (scan ''SYMBOL'') (\<lambda>sym. namespace_loop n (acc @ [sym])))
     else returnP acc)"

definition namespace_decl :: "nat \<Rightarrow> string list rule" where
  "namespace_decl n =
     bindP (scan (kw ''namespace'')) (\<lambda>_. bindP (scan ''SYMBOL'') (\<lambda>sym. namespace_loop n [sym]))"

definition rpc_source_rule :: "nat \<Rightarrow> rpc_source rule" where
  "rpc_source_rule n =
     after_peek [kw ''namespace'', ''EOF'', kw ''struct'', kw ''abstract'', kw ''service''] (\<lambda>t.
     bindP (if t = kw ''namespace'' then bindP (namespace_decl n) (\<lambda>ns. returnP (Some ns)) else returnP None) (\<lambda>ns.
     bindP (structs_and_services n [] []) (\<lambda>(sts, svs).
     bindP (scan ''EOF'') (\<lambda>_.
     returnP \<lparr>rs_namespace = ns, rs_structs = sts, rs_services = svs\<rparr>))))"

definition parse_rpc :: "nat \<Rightarrow> string \<Rightarrow> rpc_source option res" where
  "parse_rpc n txt = wrap_error_reporter (rpc_source_rule n) (rpc_scanner 0 txt)"

section \<open>The compiler\<close>

text \<open>\<open>code k\<close> is the result of the \<open>k\<close>-th call of \<^verbatim>\<open>random.randint(0x10000000, 0x70000000)\<close>.\<close>

definition rpc_keys :: "rpc_source \<Rightarrow> string list" where
  "rpc_keys src = concat (map (\<lambda>sv. map (rpc_key sv) (sv_functions sv)) (rs_services src))"

definition generate_rpc_table :: "(nat \<Rightarrow> int) \<Rightarrow> rpc_source \<Rightarrow> rpc_table" where
  "generate_rpc_table code src = foldl (\<lambda>tbl (k, key). AList.update key (code k) tbl) [] (enumerate 0 (rpc_keys src))"

text \<open>Splitting the source at the lines \<^verbatim>\<open>%%\<close>.\<close>

definition split_sections :: "string \<Rightarrow> string \<times> string \<times> string" where
  "split_sections rpc_src =
     (let ls = split_char CHR 0x0A rpc_src; marker = ''%%''; n = count_list ls marker;
          before = takeWhile (\<lambda>l. l \<noteq> marker) ls; after = tl (dropWhile (\<lambda>l. l \<noteq> marker) ls);
          join = py_join nl in
      if n = 2 then
        (join before, join (takeWhile (\<lambda>l. l \<noteq> marker) after), join (tl (dropWhile (\<lambda>l. l \<noteq> marker) after)))
      else if n = 1 then ([], join before, join after)
      else ([], join ls, []))"

text \<open>The files written, by extension.  After a syntax error the parse result is \<^verbatim>\<open>None\<close>, which has no services.\<close>

definition rpcgen :: "nat \<Rightarrow> (nat \<Rightarrow> int) \<Rightarrow> string list \<Rightarrow> string \<Rightarrow> (string \<times> string) list res" where
  "rpcgen fuel code languages rpc_src =
     (case split_sections rpc_src of (cpp_header, src, cpp_footer) \<Rightarrow>
        bindE (parse_rpc fuel src) (\<lambda>parsed.
        case parsed of
          None \<Rightarrow> Inl AttributeError
        | Some rpc_source \<Rightarrow>
            let tbl = generate_rpc_table code rpc_source in
            bindE (if ''cpp'' \<in> set languages then
                     bindE (emit_rpc_source_cpp rpc_source tbl cpp_header cpp_footer) (\<lambda>sf. Inr [(''.h'', sf_out sf)])
                   else Inr []) (\<lambda>files1.
            bindE (if ''python'' \<in> set languages then
                     bindE (emit_rpc_source_python rpc_source tbl) (\<lambda>sf. Inr [(''.py'', sf_out sf)])
                   else Inr []) (\<lambda>files2.
            Inr (files1 @ files2)))))"

end
