(* ===== verification/Rpcgen_Emit_Correct.thy ===== *)
theory Rpcgen_Emit_Correct
  imports Rpcgen_Emit
begin

text \<open>
  The generated C++ header has properly nested braces and the generators leave the indentation as they found it, for every
  description whose names, types and verbatim parts have no stray braces.
\<close>

section \<open>Nesting\<close>

text \<open>The depth of braces after a text, or \<open>None\<close> when a brace closes nothing.\<close>

fun nest :: "int \<Rightarrow> string \<Rightarrow> int option" where
  "nest d [] = Some d"
| "nest d (c # cs) =
     (if c = CHR ''{'' then nest (d + 1) cs
      else if c = CHR ''}'' then (if d \<le> 0 then None else nest (d - 1) cs)
      else nest d cs)"

lemma nest_append: "nest d (s @ t) = (case nest d s of None \<Rightarrow> None | Some d \<Rightarrow> nest d t)"
  by (induction d s rule: nest.induct) auto

definition plain :: "string \<Rightarrow> bool" where
  "plain s \<longleftrightarrow> CHR ''{'' \<notin> set s \<and> CHR ''}'' \<notin> set s"

lemma nest_plain: "plain s \<Longrightarrow> nest d s = Some d"
  by (induction s) (auto simp: plain_def)

lemma plain_append [simp]: "plain (s @ t) \<longleftrightarrow> plain s \<and> plain t"
  by (auto simp: plain_def)

lemma plain_Nil [simp]: "plain []"
  by (simp add: plain_def)

lemma plain_Cons [simp]: "plain (c # s) \<longleftrightarrow> c \<noteq> CHR ''{'' \<and> c \<noteq> CHR ''}'' \<and> plain s"
  by (auto simp: plain_def)

lemma plain_concat [simp]: "plain (concat xs) \<longleftrightarrow> list_all plain xs"
  by (induction xs) auto

lemma plain_join: "plain sep \<Longrightarrow> list_all plain xs \<Longrightarrow> plain (py_join sep xs)"
  by (induction sep xs rule: py_join.induct) auto

lemma plain_str_of_nat [simp]: "plain (str_of_nat n)"
proof -
  have "digit_char d \<noteq> CHR ''{''" "digit_char d \<noteq> CHR ''}''" if "d < 10" for d
    using that by (simp_all add: digit_char_other char_digit_def)
  then show ?thesis unfolding plain_def by (metis str_of_nat_chars)
qed

lemma hex_char_plain: "d < 16 \<Longrightarrow> hex_char d \<noteq> CHR ''{'' \<and> hex_char d \<noteq> CHR ''}''"
proof -
  assume d: "d < 16"
  then have "(of_char (hex_char d) :: nat) < 103" by (simp add: hex_char_def)
  moreover have "(of_char CHR ''{'' :: nat) = 123" "(of_char CHR ''}'' :: nat) = 125" by simp_all
  ultimately show ?thesis by auto
qed

lemma plain_hex_digits: "plain (hex_digits n)"
proof (induction n rule: hex_digits.induct)
  case (1 n)
  have "hex_char (n mod 16) \<noteq> CHR ''{'' \<and> hex_char (n mod 16) \<noteq> CHR ''}''" by (rule hex_char_plain) simp
  then show ?case using 1 hex_char_plain [of n] by (subst hex_digits.simps) simp
qed

lemma plain_hex [simp]: "plain (py_hex i)"
  by (simp add: py_hex_def plain_hex_digits)

lemma upper_char_plain: "c \<noteq> CHR ''{'' \<Longrightarrow> c \<noteq> CHR ''}'' \<Longrightarrow> upper_char c \<noteq> CHR ''{'' \<and> upper_char c \<noteq> CHR ''}''"
proof -
  assume c: "c \<noteq> CHR ''{''" "c \<noteq> CHR ''}''"
  have "upper_char c = c \<or> (of_char (upper_char c) :: nat) < 91" by (auto simp: upper_char_def Let_def)
  moreover have "(of_char CHR ''{'' :: nat) = 123" "(of_char CHR ''}'' :: nat) = 125" by simp_all
  ultimately show ?thesis using c by auto
qed

lemma plain_upper [simp]: "plain s \<Longrightarrow> plain (upper s)"
  by (induction s) (auto simp: upper_def upper_char_plain)

section \<open>Generators that nest properly\<close>

text \<open>At any indentation the generator appends a text that takes the depth of braces from \<open>d\<close> to \<open>d + k\<close>.\<close>

definition shifts :: "emit \<Rightarrow> int \<Rightarrow> bool" where
  "shifts e k \<longleftrightarrow> (\<forall>sf d. 0 \<le> indent_level sf \<longrightarrow> 0 \<le> d \<longrightarrow> 0 \<le> d + k \<longrightarrow>
     (\<exists>t. e sf = Inr (sf \<lparr>sf_out := sf_out sf @ t\<rparr>) \<and> nest d t = Some (d + k)))"

fun climbs :: "int \<Rightarrow> int list \<Rightarrow> bool" where
  "climbs d [] \<longleftrightarrow> 0 \<le> d"
| "climbs d (k # ks) \<longleftrightarrow> 0 \<le> d \<and> climbs (d + k) ks"

lemma climbs_mono: "climbs d ks \<Longrightarrow> d \<le> d' \<Longrightarrow> climbs d' ks"
proof (induction d ks arbitrary: d' rule: climbs.induct)
  case (2 d k ks)
  then show ?case using "2.IH" [of "d' + k"] by simp
qed simp

lemma climbs_nonneg: "climbs d ks \<Longrightarrow> 0 \<le> d"
  by (cases ks) auto

lemma shifts_emits_aux:
  assumes "list_all2 shifts es ks" "climbs d ks" "0 \<le> indent_level sf"
  shows "\<exists>t. emits es sf = Inr (sf \<lparr>sf_out := sf_out sf @ t\<rparr>) \<and> nest d t = Some (d + sum_list ks)"
  using assms
proof (induction es ks arbitrary: d sf rule: list_all2_induct)
  case Nil
  then show ?case by (auto simp: emits_def intro!: exI [of _ "[]"])
next
  case (Cons e es k ks)
  have d: "0 \<le> d" "0 \<le> d + k" using Cons.prems(1) climbs_nonneg by auto
  with Cons.hyps(1) Cons.prems(2) obtain t where
    t: "e sf = Inr (sf \<lparr>sf_out := sf_out sf @ t\<rparr>)" "nest d t = Some (d + k)"
    unfolding shifts_def by blast
  from Cons.IH [of "d + k" "sf \<lparr>sf_out := sf_out sf @ t\<rparr>"] Cons.prems obtain u where
    "emits es (sf \<lparr>sf_out := sf_out sf @ t\<rparr>) = Inr (sf \<lparr>sf_out := (sf_out sf @ t) @ u\<rparr>)" "nest (d + k) u = Some (d + k + sum_list ks)"
    by auto
  with t show ?case by (auto simp: emits_def nest_append intro!: exI [of _ "t @ u"])
qed

lemma shifts_emits:
  assumes "list_all2 shifts es ks" "climbs 0 ks" "sum_list ks = k"
  shows "shifts (emits es) k"
  unfolding shifts_def using shifts_emits_aux [OF assms(1)] climbs_mono [OF assms(2)] assms(3) by blast

lemma shifts_indented:
  assumes "list_all2 shifts es ks" "climbs 0 ks" "sum_list ks = k"
  shows "shifts (indented es) k"
  unfolding shifts_def
proof (intro allI impI)
  fix sf :: source_file and d :: int
  assume sf: "0 \<le> indent_level sf" "0 \<le> d" "0 \<le> d + k"
  let ?sf = "sf \<lparr>indent_level := indent_level sf + 1\<rparr>"
  have "0 \<le> indent_level ?sf" using sf(1) by simp
  with shifts_emits [OF assms] sf obtain t where
    "emits es ?sf = Inr (?sf \<lparr>sf_out := sf_out ?sf @ t\<rparr>)" "nest d t = Some (d + k)"
    unfolding shifts_def by blast
  then show "\<exists>t. indented es sf = Inr (sf \<lparr>sf_out := sf_out sf @ t\<rparr>) \<and> nest d t = Some (d + k)"
    by (auto simp: indented_def)
qed

lemma shifts_writeln: "(\<And>d. 0 \<le> d \<Longrightarrow> 0 \<le> d + k \<Longrightarrow> nest d txt = Some (d + k)) \<Longrightarrow> shifts (writeln txt) k"
  by (auto simp: shifts_def writeln_def nest_append nest_plain list_all_iff)

lemma shifts_line: "plain txt \<Longrightarrow> shifts (writeln txt) 0"
  by (rule shifts_writeln) (simp add: nest_plain)

lemma shifts_open: "plain txt \<Longrightarrow> shifts (writeln (txt @ ''{'')) 1"
  by (rule shifts_writeln) (simp add: nest_plain nest_append)

lemma shifts_close: "plain txt \<Longrightarrow> shifts (writeln (CHR ''}'' # txt)) (- 1)"
  by (rule shifts_writeln) (simp add: nest_plain)

lemma shifts_blank: "shifts blank 0"
  by (auto simp: shifts_def blank_def intro!: exI [of _ nl])

lemma shifts_write: "nest 0 txt = Some 0 \<Longrightarrow> shifts (sf_write txt) 0"
proof -
  have up: "nest d s = Some e \<Longrightarrow> 0 \<le> k \<Longrightarrow> nest (d + k) s = Some (e + k)" for d e k :: int and s
    by (induction d s rule: nest.induct) (auto simp: algebra_simps split: if_splits)
  assume "nest 0 txt = Some 0"
  then show ?thesis using up [of 0 "txt" 0] by (auto simp: shifts_def sf_write_def)
qed

lemma all_neutral: "(\<And>e. e \<in> set es \<Longrightarrow> shifts e 0) \<Longrightarrow> list_all2 shifts es (replicate (length es) 0) \<and> climbs 0 (replicate (length es) 0)"
proof (induction es)
  case (Cons e es)
  then show ?case by simp
qed simp

lemma neutral_emits: "(\<And>e. e \<in> set es \<Longrightarrow> shifts e 0) \<Longrightarrow> shifts (emits es) 0"
  using all_neutral [of es] by (intro shifts_emits [of es "replicate (length es) 0"]) (auto simp: sum_list_replicate)

lemma neutral_indented: "(\<And>e. e \<in> set es \<Longrightarrow> shifts e 0) \<Longrightarrow> shifts (indented es) 0"
  using all_neutral [of es] by (intro shifts_indented [of es "replicate (length es) 0"]) (auto simp: sum_list_replicate)

text \<open>A pair of \<open>incr_indent\<close> and \<open>decr_indent\<close> is an indented block.\<close>

lemma emits_append: "emits (xs @ ys) sf = bindE (emits xs sf) (emits ys)"
  by (simp add: emits_def [abs_def] foldE_append)

lemma emits_Cons: "emits (x # xs) sf = bindE (x sf) (emits xs)"
  by (simp add: emits_def [abs_def])

lemma incr_decr:
  assumes "shifts (emits ys) k"
  shows "shifts (emits (incr_indent # ys @ [decr_indent])) k"
  unfolding shifts_def
proof (intro allI impI)
  fix sf :: source_file and d :: int
  assume sf: "0 \<le> indent_level sf" "0 \<le> d" "0 \<le> d + k"
  let ?sf = "sf \<lparr>indent_level := indent_level sf + 1\<rparr>"
  have "0 \<le> indent_level ?sf" using sf(1) by simp
  with assms sf(2,3) obtain t where "emits ys ?sf = Inr (?sf \<lparr>sf_out := sf_out ?sf @ t\<rparr>)" "nest d t = Some (d + k)"
    unfolding shifts_def by blast
  then show "\<exists>t. emits (incr_indent # ys @ [decr_indent]) sf = Inr (sf \<lparr>sf_out := sf_out sf @ t\<rparr>) \<and> nest d t = Some (d + k)"
    using sf(1) by (auto simp: emits_Cons emits_append incr_indent_def decr_indent_def emits_def [of "[]"])
qed

section \<open>Clean descriptions\<close>

definition clean_arg :: "rarg \<Rightarrow> bool" where
  "clean_arg a \<longleftrightarrow> plain (arg_type a) \<and> (case arg_name a of None \<Rightarrow> True | Some n \<Rightarrow> plain n)"

definition clean_func :: "rfunc \<Rightarrow> bool" where
  "clean_func fn \<longleftrightarrow> plain (fn_name fn) \<and> list_all clean_arg (fn_input fn) \<and> list_all clean_arg (fn_output fn)"

definition clean_service :: "rservice \<Rightarrow> bool" where
  "clean_service sv \<longleftrightarrow> plain (sv_name sv) \<and> list_all clean_func (sv_functions sv)"

definition clean_struct :: "rstruct \<Rightarrow> bool" where
  "clean_struct st \<longleftrightarrow> plain (st_name st) \<and> list_all (\<lambda>fd. plain (f_name fd) \<and> plain (f_type fd)) (st_fields st)"

definition clean_source :: "rpc_source \<Rightarrow> bool" where
  "clean_source src \<longleftrightarrow> (case rs_namespace src of None \<Rightarrow> True | Some ns \<Rightarrow> list_all plain ns) \<and>
     list_all clean_struct (rs_structs src) \<and> list_all clean_service (rs_services src)"

definition has_codes :: "rpc_table \<Rightarrow> rservice \<Rightarrow> bool" where
  "has_codes tbl sv \<longleftrightarrow> (\<forall>fn \<in> set (sv_functions sv). rpc_key sv fn \<in> fst ` set tbl)"

lemma plain_arg_or: "clean_arg (snd ia) \<Longrightarrow> plain pre \<Longrightarrow> plain (arg_or pre ia)"
  by (auto simp: arg_or_def clean_arg_def split: option.splits)

lemma clean_enumerate: "list_all clean_arg as \<Longrightarrow> ia \<in> set (enumerate n as) \<Longrightarrow> clean_arg (snd ia)"
  by (cases ia) (auto simp: list_all_iff enumerate_eq_zip dest: set_zip_rightD)

lemma clean_zip: "list_all clean_arg as \<Longrightarrow> (i, a) \<in> set (zip xs as) \<Longrightarrow> plain (arg_type a)"
  by (auto simp: list_all_iff clean_arg_def dest: set_zip_rightD)

lemma plain_numbers: "i \<in> set (numbers xs) \<Longrightarrow> plain i"
  by (auto simp: numbers_def)

lemma plain_numbers_zip: "(i, a) \<in> set (zip (numbers xs) as) \<Longrightarrow> plain i"
  by (auto dest: set_zip_leftD simp: plain_numbers)

lemma emit_struct_nested:
  assumes "clean_struct st"
  shows "shifts (emit_struct st) 0"
proof -
  have f: "plain (f_name fd)" "plain (f_type fd)" if "fd \<in> set (st_fields st)" for fd
    using assms that by (auto simp: clean_struct_def list_all_iff)
  have p: "plain (st_name st)" using assms by (simp add: clean_struct_def)
  show ?thesis
    unfolding emit_struct_def
  by (rule shifts_emits [where ks = "[1, 0, - 1, 0, 1, 0, - 1, 0, 1, 0, - 1, 0]"], simp only: list_all2_Cons list_all2_Nil simp_thms,
      intro conjI shifts_blank neutral_indented shifts_writeln, simp_all add: nest_append nest_plain p f,
      auto intro!: shifts_line simp: f)
qed

lemma emit_enum_nested:
  assumes "clean_service sv" "has_codes tbl sv"
  shows "shifts (emit_enum tbl sv) 0"
proof -
  have c: "shifts (emit_enum_one tbl sv fn) 0"
    if "fn \<in> set (sv_functions sv)" for fn
  proof -
    have "rpc_key sv fn \<in> fst ` set tbl" using assms(2) that by (simp add: has_codes_def)
    then have "map_of tbl (rpc_key sv fn) \<noteq> None" by (simp add: map_of_eq_None_iff)
    then obtain code where "dict_get tbl (rpc_key sv fn) = Inr code" by (auto simp: dict_get_def)
    moreover have "plain (fn_name fn)" using assms(1) that by (simp add: clean_service_def clean_func_def list_all_iff)
    ultimately show ?thesis using shifts_line [of "upper (fn_name fn) @ '' = '' @ py_hex code @ '',''"] by (simp add: emit_enum_one_def [abs_def])
  qed
  show ?thesis
    unfolding emit_enum_def
  by (rule shifts_emits [where ks = "[1, 0, - 1, 0]"], simp only: list_all2_Cons list_all2_Nil simp_thms,
      intro conjI shifts_blank neutral_indented shifts_writeln, simp_all add: nest_append nest_plain,
      auto intro!: c)
qed

lemma emit_reg_one_nested:
  assumes "plain (sv_name sv)" "plain (fn_name fn)"
  shows "shifts (emit_reg_one sv fn) 0"
proof -
  have "shifts (if fn_attr fn = Some ''raw'' then
        writeln (''if ((ret = svr->reg('' @ upper (fn_name fn) @ '', this, &'' @ sv_name sv @ ''Service::'' @ fn_name fn @ '')) != 0) {'')
      else
        writeln (''if ((ret = svr->reg('' @ upper (fn_name fn) @ '',this, &'' @ sv_name sv @ ''Service::__'' @ fn_name fn @ ''__wrapper__)) != 0) {'')) 1"
    using assms by (simp add: shifts_writeln nest_append nest_plain)
  then show ?thesis
    unfolding emit_reg_one_def
    by (intro shifts_emits [where ks = "[1, 0, - 1]"]) (auto intro!: shifts_writeln neutral_indented)
qed

lemma emit_reg_to_nested:
  assumes "clean_service sv"
  shows "shifts (emit_reg_to sv) 0"
proof -
  have f: "plain (fn_name fn)" if "fn \<in> set (sv_functions sv)" for fn
    using assms that by (simp add: clean_service_def clean_func_def list_all_iff)
  have r: "shifts (emit_reg_one sv fn) 0" if "fn \<in> set (sv_functions sv)" for fn
    using assms f [OF that] by (simp add: emit_reg_one_nested clean_service_def)
  show ?thesis
    unfolding emit_reg_to_def
  by (rule shifts_emits [where ks = "[1, 0, 0, 0, - 1]"], simp only: list_all2_Cons list_all2_Nil simp_thms,
      intro conjI shifts_blank neutral_indented shifts_writeln, simp_all add: nest_append nest_plain,
      auto intro!: shifts_line r simp: f)
qed

lemma plain_decls:
  assumes "clean_arg a"
  shows "plain (in_decl a)" "plain (out_decl a)"
  using assms by (auto simp: in_decl_def out_decl_def clean_arg_def split: option.splits)

lemma emit_virtual_nested:
  assumes "clean_func fn"
  shows "shifts (emit_virtual sv fn) 0"
proof -
  have "plain (fn_name fn)" using assms by (simp add: clean_func_def)
  moreover have "list_all plain (map in_decl (fn_input fn))" "list_all plain (map out_decl (fn_output fn))"
    using assms by (auto simp: clean_func_def list_all_iff intro: plain_decls)
  ultimately show ?thesis by (auto simp: emit_virtual_def Let_def intro!: shifts_line plain_join)
qed

lemma shifts_emits_append:
  assumes "shifts (emits xs) a" "shifts (emits ys) b" "0 \<le> a" "a + b = k"
  shows "shifts (emits (xs @ ys)) k"
  unfolding shifts_def
proof (intro allI impI)
  fix sf :: source_file and d :: int
  assume sf: "0 \<le> indent_level sf" "0 \<le> d" "0 \<le> d + k"
  have da: "0 \<le> d + a" "0 \<le> d + a + b" using sf assms(3,4) by auto
  obtain t where t: "emits xs sf = Inr (sf \<lparr>sf_out := sf_out sf @ t\<rparr>)" "nest d t = Some (d + a)"
    using assms(1) sf da unfolding shifts_def by blast
  let ?sf = "sf \<lparr>sf_out := sf_out sf @ t\<rparr>"
  have "0 \<le> indent_level ?sf" using sf(1) by simp
  from assms(2) [unfolded shifts_def, rule_format, OF this da] obtain u where
    u: "emits ys ?sf = Inr (?sf \<lparr>sf_out := sf_out ?sf @ u\<rparr>)" "nest (d + a) u = Some (d + a + b)" by blast
  show "\<exists>t. emits (xs @ ys) sf = Inr (sf \<lparr>sf_out := sf_out sf @ t\<rparr>) \<and> nest d t = Some (d + k)"
    using t u assms(4) by (intro exI [of _ "t @ u"]) (simp add: emits_append nest_append)
qed

lemma neutral_prefix: "(\<And>e. e \<in> set xs \<Longrightarrow> shifts e 0) \<Longrightarrow> shifts (emits ys) k \<Longrightarrow> shifts (emits (xs @ ys)) k"
  by (rule shifts_emits_append [OF neutral_emits]) auto

lemma plain_invocation:
  assumes "plain pre" "plain pre'" "list_all plain zs"
  shows "plain (py_join '', '' (map (\<lambda>i. pre @ i) (numbers xs) @ map (\<lambda>i. pre' @ i) (numbers ys) @ zs))"
  using assms by (intro plain_join) (auto simp: list_all_iff plain_numbers)

lemma emit_defer_body_nested:
  assumes "clean_func fn"
  shows "shifts (emit_defer_body fn) 0"
proof -
  have p: "plain (fn_name fn)" "list_all clean_arg (fn_input fn)" "list_all clean_arg (fn_output fn)"
    using assms by (simp_all add: clean_func_def)
  have j: "plain (py_join '', '' (map (\<lambda>i. ''*in_'' @ i) (numbers (fn_input fn)) @ map (\<lambda>i. ''out_'' @ i) (numbers (fn_output fn)) @ [''__defer__'']))"
    by (rule plain_invocation) simp_all
  show ?thesis
    unfolding emit_defer_body_def
  proof (rule neutral_prefix, goal_cases)
    case (1 e)
    then show ?case by (auto intro!: shifts_line simp: plain_numbers_zip clean_zip [OF p(2)])
  next
    case 2
    show ?case
    proof (rule neutral_prefix, goal_cases)
      case (1 e)
      then show ?case by (auto intro!: shifts_line simp: plain_numbers_zip clean_zip [OF p(3)])
    next
      case 2
      show ?case
      by (rule shifts_emits [where ks = "[1, 0, - 1, 1, 0, - 1, 0, 0]"], simp only: list_all2_Cons list_all2_Nil simp_thms,
          intro conjI shifts_blank neutral_indented shifts_writeln, simp_all add: nest_append nest_plain p j,
          auto intro!: shifts_line simp: plain_numbers)
    qed
  qed
qed

lemma plain_calls_neutral:
  assumes "clean_func fn" "e \<in> set (plain_calls fn)"
  shows "shifts e 0"
proof -
  have p: "plain (fn_name fn)" "list_all clean_arg (fn_input fn)" "list_all clean_arg (fn_output fn)"
    using assms(1) by (simp_all add: clean_func_def)
  have j: "plain (py_join '', '' (map ((@) ''in_'') (numbers (fn_input fn)) @ map ((@) ''&out_'') (numbers (fn_output fn))))"
    by (rule plain_join) (auto simp: list_all_iff plain_numbers)
  show ?thesis
    using assms(2) p j unfolding plain_calls_def
    by (auto intro!: shifts_line simp: plain_numbers plain_numbers_zip clean_zip [OF p(2)] clean_zip [OF p(3)])
qed

lemma emits_flat: "emits (xs @ emits ys # zs) = emits (xs @ ys @ zs)"
  by (rule ext) (auto simp: emits_append emits_Cons intro!: bindE_cong)

lemma emit_plain_body_nested:
  assumes "clean_func fn"
  shows "shifts (emit_plain_body fn) 0"
proof (cases "fn_attr fn = Some ''fast''")
  case True
  then show ?thesis using plain_calls_neutral [OF assms] by (auto simp: emit_plain_body_def intro: neutral_emits)
next
  case False
  let ?block = "emits (incr_indent # plain_calls fn @ [decr_indent])"
  have b: "shifts ?block 0" by (intro incr_decr neutral_emits plain_calls_neutral [OF assms])
  have "shifts (emits [writeln ''auto f = [=] {'', ?block, writeln ''};'', writeln ''sconn->run_async(f);'']) 0"
  by (rule shifts_emits [where ks = "[1, 0, - 1, 0]"], simp only: list_all2_Cons list_all2_Nil simp_thms,
      intro conjI shifts_blank neutral_indented shifts_writeln, simp_all add: nest_append nest_plain b)
  moreover have "emit_plain_body fn = emits [writeln ''auto f = [=] {'', ?block, writeln ''};'', writeln ''sconn->run_async(f);'']"
    using emits_flat [of "[writeln ''auto f = [=] {'']" "incr_indent # plain_calls fn @ [decr_indent]"] False
    by (simp add: emit_plain_body_def)
  ultimately show ?thesis by simp
qed

lemma emit_wrapper_nested:
  assumes "clean_func fn"
  shows "shifts (emit_wrapper fn) 0"
proof (cases "fn_attr fn = Some ''raw''")
  case True
  then show ?thesis by (auto simp: emit_wrapper_def intro: neutral_emits)
next
  case False
  have b: "shifts (if fn_attr fn = Some ''defer'' then emit_defer_body fn else emit_plain_body fn) 0"
    using assms by (simp add: emit_defer_body_nested emit_plain_body_nested)
  have n: "plain (fn_name fn)" using assms by (simp add: clean_func_def)
  show ?thesis
    unfolding emit_wrapper_def if_not_P [OF False]
  by (rule shifts_emits [where ks = "[1, 0, - 1]"], simp only: list_all2_Cons list_all2_Nil simp_thms,
      intro conjI shifts_blank neutral_indented shifts_writeln, simp_all add: nest_append nest_plain n b)
qed

lemma emit_service_nested:
  assumes "clean_service sv" "has_codes tbl sv"
  shows "shifts (emit_service tbl sv) 0"
proof -
  have p: "plain (sv_name sv)" and f: "\<And>fn. fn \<in> set (sv_functions sv) \<Longrightarrow> clean_func fn"
    using assms(1) by (auto simp: clean_service_def list_all_iff)
  show ?thesis
    unfolding emit_service_def
  by (rule shifts_emits [where ks = "[1, 0, 0, 0, 0, - 1, 0]"], simp only: list_all2_Cons list_all2_Nil simp_thms,
      intro conjI shifts_blank neutral_indented shifts_writeln, simp_all add: nest_append nest_plain p,
      auto intro!: shifts_line emit_enum_nested emit_reg_to_nested emit_virtual_nested emit_wrapper_nested assms f)
qed

lemma plain_params:
  assumes "clean_func fn"
  shows "list_all plain (async_func_params fn)" "list_all plain (async_call_params fn)" "list_all plain (sync_func_params fn)"
    "list_all plain (sync_out_params fn)"
proof -
  have i: "clean_arg (snd ia)" "plain (arg_type (snd ia))" if "ia \<in> set (enumerate 0 (fn_input fn))" for ia
    using clean_enumerate [OF _ that] assms by (auto simp: clean_func_def clean_arg_def)
  have o: "clean_arg (snd ia)" "plain (arg_type (snd ia))" if "ia \<in> set (enumerate 0 (fn_output fn))" for ia
    using clean_enumerate [OF _ that] assms by (auto simp: clean_func_def clean_arg_def)
  show a: "list_all plain (async_func_params fn)" "list_all plain (async_call_params fn)" "list_all plain (sync_out_params fn)"
    using i o by (auto simp: async_func_params_def async_call_params_def sync_out_params_def list_all_iff plain_arg_or)
  show "list_all plain (sync_func_params fn)"
    using a(1) o by (auto simp: sync_func_params_def list_all_iff plain_arg_or)
qed

lemma emit_async_nested:
  assumes "clean_func fn" "plain (sv_name sv)"
  shows "shifts (emit_async sv fn) 0"
proof -
  have p: "plain (fn_name fn)" using assms by (simp add: clean_func_def)
  have j: "plain (py_join '', '' (async_func_params fn @ [[]]))" by (rule plain_join) (simp_all add: plain_params [OF assms(1)])
  have c: "plain param" if "param \<in> set (async_call_params fn)" for param
    using plain_params(2) [OF assms(1)] that by (simp add: list_all_iff)
  have b: "shifts (indented (map (\<lambda>param. writeln (''*__cl__ << '' @ param @ '';'')) (async_call_params fn))) 0"
    by (rule neutral_indented) (auto intro!: shifts_line simp: c)
  have "shifts (indented (
        [writeln (''rrr::Future* __fu__ = __cl__->begin_request('' @ sv_name sv @ ''Service::'' @ upper (fn_name fn) @ '', __fu_attr__);'')] @
        (if 0 < length (async_call_params fn) then
           [writeln (''if (__fu__ != nullptr) {''),
            indented (map (\<lambda>param. writeln (''*__cl__ << '' @ param @ '';'')) (async_call_params fn)),
            writeln (''}'')]
         else []) @
        [writeln (''__cl__->end_request();''),
         writeln (''return __fu__;'')])) 0"
    (is "shifts (indented (?x @ (if ?c then ?y else []) @ ?z)) 0")
  proof (cases ?c)
    case True
    show ?thesis
      unfolding if_P [OF True] append_Cons append_Nil
      by (rule shifts_indented [where ks = "[0, 1, 0, - 1, 0, 0]"])
        (use assms p b in \<open>auto intro!: shifts_writeln simp: nest_append nest_plain\<close>)
  next
    case False
    show ?thesis
      unfolding if_not_P [OF False] by (rule neutral_indented) (use assms p in \<open>auto intro!: shifts_line\<close>)
  qed
  then show ?thesis
    unfolding emit_async_def
    by (intro shifts_emits [where ks = "[1, 0, - 1]"]) (use p j in \<open>auto intro!: shifts_writeln simp: nest_append nest_plain\<close>)
qed

lemma emit_sync_nested:
  assumes "clean_func fn"
  shows "shifts (emit_sync fn) 0"
proof -
  have p: "plain (fn_name fn)" using assms by (simp add: clean_func_def)
  have j: "plain (py_join '', '' (sync_func_params fn))" "plain (py_join '', '' (async_call_params fn))"
    by (rule plain_join; simp add: plain_params [OF assms])+
  have c: "plain param" if "param \<in> set (sync_out_params fn)" for param
    using plain_params(4) [OF assms] that by (simp add: list_all_iff)
  have b: "shifts (indented (map (\<lambda>param. writeln (''__fu__->get_reply() >> *'' @ param @ '';'')) (sync_out_params fn))) 0"
    by (rule neutral_indented) (auto intro!: shifts_line simp: c)
  have e: "shifts (indented [writeln ''return ENOTCONN;'']) 0" by (rule neutral_indented) (auto intro!: shifts_line)
  have "shifts (indented (
        [writeln (''rrr::Future* __fu__ = this->async_'' @ fn_name fn @ ''('' @ py_join '', '' (async_call_params fn) @ '');''),
         writeln (''if (__fu__ == nullptr) {''),
         indented [writeln (''return ENOTCONN;'')],
         writeln (''}''),
         writeln (''rrr::i32 __ret__ = __fu__->get_error_code();'')] @
        (if 0 < length (sync_out_params fn) then
           [writeln (''if (__ret__ == 0) {''),
            indented (map (\<lambda>param. writeln (''__fu__->get_reply() >> *'' @ param @ '';'')) (sync_out_params fn)),
            writeln (''}'')]
         else []) @
        [writeln (''return __ret__;'')])) 0"
    (is "shifts (indented (?x @ (if ?c then ?y else []) @ ?z)) 0")
  proof (cases ?c)
    case True
    show ?thesis
      unfolding if_P [OF True] append_Cons append_Nil
      by (rule shifts_indented [where ks = "[0, 1, 0, - 1, 0, 1, 0, - 1, 0]"])
        (use p j b e in \<open>auto intro!: shifts_writeln simp: nest_append nest_plain\<close>)
  next
    case False
    show ?thesis
      unfolding if_not_P [OF False] append_Cons append_Nil
      by (rule shifts_indented [where ks = "[0, 1, 0, - 1, 0, 0]"])
        (use p j e in \<open>auto intro!: shifts_writeln simp: nest_append nest_plain\<close>)
  qed
  then show ?thesis
    unfolding emit_sync_def
    by (intro shifts_emits [where ks = "[1, 0, - 1]"]) (use p j in \<open>auto intro!: shifts_writeln simp: nest_append nest_plain\<close>)
qed

lemma emit_proxy_nested:
  assumes "clean_service sv"
  shows "shifts (emit_proxy sv) 0"
proof -
  have p: "plain (sv_name sv)" and f: "\<And>fn. fn \<in> set (sv_functions sv) \<Longrightarrow> clean_func fn"
    using assms(1) by (auto simp: clean_service_def list_all_iff)
  show ?thesis
    unfolding emit_proxy_def
  by (rule shifts_emits [where ks = "[1, 0, 0, 0, 0, - 1, 0]"], simp only: list_all2_Cons list_all2_Nil simp_thms,
      intro conjI shifts_blank neutral_indented shifts_writeln, simp_all add: nest_append nest_plain p,
      auto intro!: shifts_writeln emit_async_nested emit_sync_nested f simp: p nest_append nest_plain)
qed

lemma emit_service_and_proxy_nested:
  assumes "clean_service sv" "has_codes tbl sv"
  shows "shifts (emit_service_and_proxy tbl sv) 0"
  unfolding emit_service_and_proxy_def
  by (rule neutral_emits) (auto intro: emit_service_nested emit_proxy_nested assms)

text \<open>The lines that open and close the namespaces.\<close>

lemma nest_opens:
  assumes "list_all plain ns" "0 \<le> d"
  shows "nest d (py_join '' '' (map (\<lambda>x. ''namespace '' @ x @ '' {'') ns)) = Some (d + int (length ns))"
  using assms
proof (induction ns arbitrary: d)
  case (Cons n ns)
  then show ?case by (cases ns) (simp_all add: nest_append nest_plain)
qed simp

lemma nest_closes: "int (length ns) \<le> d \<Longrightarrow> nest d (py_join '' '' (map (\<lambda>_. ''}'') ns)) = Some (d - int (length ns))"
proof (induction ns arbitrary: d)
  case (Cons n ns)
  then show ?case by (cases ns) simp_all
qed simp

lemma namespace_nested:
  assumes "list_all plain ns" "\<And>e. e \<in> set es \<Longrightarrow> shifts e 0"
  shows "shifts (emits (writeln (py_join '' '' (map (\<lambda>x. ''namespace '' @ x @ '' {'') ns)) # es @
    [writeln (py_join '' '' (map (\<lambda>_. ''}'') ns) @ '' // namespace '' @ py_join ''::'' ns)])) 0"
proof -
  let ?n = "int (length ns)"
  have j: "plain (py_join ''::'' ns)" by (rule plain_join) (use assms in simp_all)
  have "shifts (writeln (py_join '' '' (map (\<lambda>x. ''namespace '' @ x @ '' {'') ns))) ?n"
    by (rule shifts_writeln) (use assms(1) nest_opens in simp)
  moreover have "shifts (writeln (py_join '' '' (map (\<lambda>_. ''}'') ns) @ '' // namespace '' @ py_join ''::'' ns)) (- ?n)"
    by (rule shifts_writeln) (simp add: nest_append nest_closes nest_plain j)
  ultimately have "list_all2 shifts (writeln (py_join '' '' (map (\<lambda>x. ''namespace '' @ x @ '' {'') ns)) # es @
      [writeln (py_join '' '' (map (\<lambda>_. ''}'') ns) @ '' // namespace '' @ py_join ''::'' ns)])
      (?n # replicate (length es) 0 @ [- ?n])"
    using all_neutral [OF assms(2)] by (auto intro!: list_all2_appendI)
  then show ?thesis
  proof (rule shifts_emits)
    have "climbs d (replicate k 0 @ [- ?n])" if "?n \<le> d" for d k using that by (induction k) auto
    then show "climbs 0 (?n # replicate (length es) 0 @ [- ?n])" by simp
  qed (simp add: sum_list_replicate)
qed

section \<open>The whole header\<close>

lemma header_nested:
  assumes "clean_source src" "list_all (has_codes tbl) (rs_services src)" "nest 0 cpp_header = Some 0" "nest 0 cpp_footer = Some 0"
  shows "\<exists>sf. emit_rpc_source_cpp src tbl cpp_header cpp_footer = Inr sf \<and> indent_level sf = 0 \<and> nest 0 (sf_out sf) = Some 0"
proof -
  let ?body = "map emit_struct (rs_structs src) @ map (emit_service_and_proxy tbl) (rs_services src)"
  have b: "shifts e 0" if "e \<in> set ?body" for e
    using that assms(1,2) by (auto simp: clean_source_def list_all_iff intro: emit_struct_nested emit_service_and_proxy_nested)
  let ?pre = "[writeln ''#pragma once'', blank, writeln (''#include '' @ dq @ ''rrr.hpp'' @ dq), blank, writeln ''#include <errno.h>'', blank,
     sf_write cpp_header, blank]"
  let ?post = "[blank, sf_write cpp_footer, blank]"
  have pre: "shifts e 0" if "e \<in> set ?pre" for e
    using that assms(3) by (auto intro!: shifts_line shifts_blank shifts_write)
  have post: "shifts e 0" if "e \<in> set ?post" for e
    using that assms(4) by (auto intro!: shifts_blank shifts_write)
  have "\<exists>es. shifts (emits es) 0 \<and> emit_rpc_source_cpp src tbl cpp_header cpp_footer = emits (?pre @ es @ ?post) new_source_file"
  proof (cases "rs_namespace src")
    case None
    then show ?thesis using neutral_emits [of ?body, OF b] by (auto simp: emit_rpc_source_cpp_def intro!: exI [of _ ?body])
  next
    case (Some ns)
    let ?es = "writeln (py_join '' '' (map (\<lambda>x. ''namespace '' @ x @ '' {'') ns)) # (blank # ?body) @
      [writeln (py_join '' '' (map (\<lambda>_. ''}'') ns) @ '' // namespace '' @ py_join ''::'' ns)]"
    have "list_all plain ns" using assms(1) Some by (simp add: clean_source_def)
    then have "shifts (emits ?es) 0" by (rule namespace_nested) (use b shifts_blank in auto)
    then have "shifts (emits (?es @ [blank])) 0"
      by (rule shifts_emits_append [where b = 0]) (auto intro!: neutral_emits shifts_blank)
    then show ?thesis using Some by (intro exI [of _ "?es @ [blank]"]) (simp add: emit_rpc_source_cpp_def)
  qed
  then obtain es where es: "shifts (emits es) 0" "emit_rpc_source_cpp src tbl cpp_header cpp_footer = emits (?pre @ es @ ?post) new_source_file"
    by blast
  have p: "shifts (emits (es @ ?post)) 0"
    by (rule shifts_emits_append [OF es(1) neutral_emits [OF post]]) auto
  have "shifts (emits (?pre @ es @ ?post)) 0" by (rule neutral_prefix [OF pre p])
  from this [unfolded shifts_def, rule_format, of new_source_file 0] show ?thesis
    unfolding es(2) by (auto simp: new_source_file_def)
qed

definition demo_source :: rpc_source where
  "demo_source = \<lparr>rs_namespace = Some [''janus''], rs_structs = [\<lparr>st_name = ''P'', st_fields = [\<lparr>f_name = ''x'', f_type = ''rrr::i32''\<rparr>]\<rparr>],
     rs_services = [\<lparr>sv_name = ''Math'', sv_abstract = False, sv_functions =
       [\<lparr>fn_name = ''add'', fn_attr = None, fn_abstract = False,
         fn_input = [\<lparr>arg_name = Some ''a'', arg_type = ''rrr::i32''\<rparr>, \<lparr>arg_name = None, arg_type = ''P''\<rparr>],
         fn_output = [\<lparr>arg_name = None, arg_type = ''rrr::i32''\<rparr>]\<rparr>]\<rparr>]\<rparr>"

end
