(* ===== verification/Rpcgen_Correct.thy ===== *)
theory Rpcgen_Correct
  imports Rpcgen_Parser Rpcgen_Emit_Correct
begin

text \<open>
  The parser of the RPC compiler always returns: it never needs more fuel than there are characters, because
  every round of a loop reads at least one token and no token but the end of file is empty.
\<close>

section \<open>Matches\<close>

definition fits :: "pattern \<Rightarrow> bool" where
  "fits pat \<longleftrightarrow> (\<forall>s n. snd pat s = Some n \<longrightarrow> n \<le> length s \<and> (fst pat \<noteq> ''EOF'' \<longrightarrow> 0 < n))"

lemma startswith_length: "startswith s w \<Longrightarrow> length w \<le> length s"
  by (metis length_take min.cobounded1 min.commute startswith_def)

lemma fits_lit: "w \<noteq> [] \<Longrightarrow> fits (p, m_lit w)"
  by (auto simp: fits_def m_lit_def startswith_length)

lemma takeWhile_length: "length (takeWhile P s) \<le> length s"
  by (rule length_takeWhile_le)

lemma fits_spaces: "fits (p, m_spaces)"
  by (auto simp: fits_def m_spaces_def Let_def length_takeWhile_le split: if_splits)

lemma fits_comment: "fits (p, m_comment)"
proof -
  have "2 + length (takeWhile P (drop 2 s)) \<le> length s" if "startswith s ''//''" for s :: string and P
    using startswith_length [OF that] length_takeWhile_le [of P "drop 2 s"] by simp
  then show ?thesis by (auto simp: fits_def m_comment_def Let_def split: if_splits)
qed

lemma fits_eof: "fits (''EOF'', m_eof)"
  by (auto simp: fits_def m_eof_def dest: startswith_length split: if_splits)

lemma fits_symbol: "fits (p, m_symbol)"
  by (auto simp: fits_def m_symbol_def length_takeWhile_le split: list.splits if_splits)

lemma rpc_patterns_fit: "list_all fits rpc_patterns"
  by (simp add: rpc_patterns_def fits_lit fits_spaces fits_comment fits_eof fits_symbol)

lemma better_fits:
  assumes "fits pat" "best = (''(error)'', - 1) \<or> (0 \<le> snd best \<and> snd best \<le> int (length s) \<and> (fst best \<noteq> ''EOF'' \<longrightarrow> 0 < snd best))"
  shows "better ign r s best pat = (''(error)'', - 1) \<or>
    (0 \<le> snd (better ign r s best pat) \<and> snd (better ign r s best pat) \<le> int (length s) \<and>
      (fst (better ign r s best pat) \<noteq> ''EOF'' \<longrightarrow> 0 < snd (better ign r s best pat)))"
  using assms by (cases pat) (auto simp: better_def fits_def split: option.splits)

lemma best_match_fits:
  assumes "list_all fits (sc_patterns s)"
  shows "best_match s r = (''(error)'', - 1) \<or>
    (0 \<le> snd (best_match s r) \<and> snd (best_match s r) \<le> int (length (sc_rest s)) \<and>
      (fst (best_match s r) \<noteq> ''EOF'' \<longrightarrow> 0 < snd (best_match s r)))"
proof -
  have "foldl (better ign r x) best pats = (''(error)'', - 1) \<or>
      (0 \<le> snd (foldl (better ign r x) best pats) \<and> snd (foldl (better ign r x) best pats) \<le> int (length x) \<and>
        (fst (foldl (better ign r x) best pats) \<noteq> ''EOF'' \<longrightarrow> 0 < snd (foldl (better ign r x) best pats)))"
    if "list_all fits pats" "best = (''(error)'', - 1) \<or> (0 \<le> snd best \<and> snd best \<le> int (length x) \<and> (fst best \<noteq> ''EOF'' \<longrightarrow> 0 < snd best))"
    for ign r x best pats
    using that
  proof (induction pats arbitrary: best)
    case (Cons p ps)
    from Cons.prems have "fits p" "list_all fits ps" by simp_all
    then show ?case using Cons.IH [OF _ better_fits [OF _ Cons.prems(2)]] by simp
  qed simp
  from this [OF assms, of "(''(error)'', - 1)"] show ?thesis unfolding best_match_def by simp
qed

section \<open>Scanning reads\<close>

definition tidy :: "scanner \<Rightarrow> bool" where
  "tidy s \<longleftrightarrow> sc_patterns s = rpc_patterns \<and> sc_ignore s = rpc_ignore \<and>
     (\<forall>t. sc_last_token s = Some t \<longrightarrow> tk_type t \<noteq> ''EOF'' \<longrightarrow> tk_value t \<noteq> [])"

definition size_sc :: "scanner \<Rightarrow> nat" where
  "size_sc s = unread s + (case sc_last_token s of None \<Rightarrow> 0 | Some t \<Rightarrow> length (tk_value t))"

lemma grab_fields: "sc_patterns (grab_input s) = sc_patterns s" "sc_ignore (grab_input s) = sc_ignore s"
  "sc_last_token (grab_input s) = sc_last_token s"
  by (auto simp: grab_input_def Let_def split: option.split list.split)

lemma advance_fields: "sc_patterns (advance v s) = sc_patterns s" "sc_ignore (advance v s) = sc_ignore s"
  "sc_last_token (advance v s) = sc_last_token s"
  by (auto simp: advance_def Let_def)

lemma unread_advance_eq: "unread (advance (take n (sc_rest s)) s) + length (take n (sc_rest s)) = unread s"
  by (auto simp: unread_def advance_def sc_rest_def Let_def)

lemma push_token_fields: "sc_patterns (push_token t s) = sc_patterns s" "sc_ignore (push_token t s) = sc_ignore s"
  "sc_last_token (push_token t s) = sc_last_token s" "unread (push_token t s) = unread s"
  by (auto simp: push_token_def unread_def sc_rest_def)

lemma scan_token_reads:
  assumes "sc_patterns s = rpc_patterns" "sc_ignore s = rpc_ignore"
  shows "case scan_token r s of
      Inl e \<Rightarrow> e \<noteq> Hang
    | Inr (t, s') \<Rightarrow> unread s' + length (tk_value t) \<le> unread s \<and> (tk_type t \<noteq> ''EOF'' \<longrightarrow> tk_value t \<noteq> []) \<and>
        sc_patterns s' = rpc_patterns \<and> sc_ignore s' = rpc_ignore \<and> sc_last_token s' = sc_last_token s"
  using assms
proof (induction r s rule: scan_token.induct)
  case (1 r s0)
  define s where "s = grab_input s0"
  obtain p b where b: "best_match s r = (p, b)" by force
  define v where "v = take (nat b) (sc_rest s)"
  have pats: "sc_patterns s = rpc_patterns" "sc_ignore s = rpc_ignore" using "1.prems" by (simp_all add: s_def grab_fields)
  note f = best_match_fits [of s r, unfolded b pats(1), OF rpc_patterns_fit]
  have v: "v \<noteq> []" if "\<not> (p = ''(error)'' \<and> b < 0)" "p \<noteq> ''EOF''" using f that by (auto simp: v_def)
  have r: "unread (advance v s) + length v \<le> unread s0"
    using unread_advance_eq [of "nat b" s] unread_grab [of s0] by (simp add: v_def s_def)
  show ?case
  proof (cases "p = ''(error)'' \<and> b < 0")
    case True
    then show ?thesis
      using b by (subst scan_token.simps) (simp add: s_def bad_token_def Let_def)
  next
    case F1: False
    show ?thesis
    proof (cases "p \<in> set (sc_ignore s)")
      case False
      have "scan_token r s0 = (let tok = \<lparr>tk_type = p, tk_value = v, tk_pos = Some (get_pos s)\<rparr> in Inr (tok, push_token tok (advance v s)))"
        using F1 False b by (subst scan_token.simps) (simp add: s_def v_def Let_def)
      then show ?thesis
        using r v [OF F1] pats by (simp add: Let_def push_token_fields advance_fields s_def grab_fields)
    next
      case True
      then have "p \<noteq> ''EOF''" using pats(2) by (auto simp: rpc_ignore_def sp_pat_def comment_pat_def)
      then have v': "v \<noteq> []" using v F1 by blast
      have e: "scan_token r s0 = scan_token r (advance v s)"
        using F1 True v' b by (subst scan_token.simps) (simp add: s_def v_def Let_def)
      have "case scan_token r (advance v s) of
          Inl e \<Rightarrow> e \<noteq> Hang
        | Inr (t, s') \<Rightarrow> unread s' + length (tk_value t) \<le> unread (advance v s) \<and> (tk_type t \<noteq> ''EOF'' \<longrightarrow> tk_value t \<noteq> []) \<and>
            sc_patterns s' = rpc_patterns \<and> sc_ignore s' = rpc_ignore \<and> sc_last_token s' = sc_last_token (advance v s)"
        by (rule "1.IH" [OF s_def b [symmetric] refl F1 v_def _ v']) (use True pats in \<open>simp_all add: advance_fields\<close>)
      then show ?thesis unfolding e using r by (auto simp: advance_fields s_def grab_fields split: sum.splits)
    qed
  qed
qed

section \<open>Rules that return\<close>

text \<open>
  On a scanner with fewer than \<open>n\<close> characters ahead the rule does not run out of fuel, and when it succeeds it has
  read at least \<open>k\<close> of them.
\<close>

definition reads :: "nat \<Rightarrow> nat \<Rightarrow> 'a rule \<Rightarrow> bool" where
  "reads n k p \<longleftrightarrow> (\<forall>s. tidy s \<longrightarrow> size_sc s < n \<longrightarrow>
     (case p s of Inl e \<Rightarrow> e \<noteq> Hang | Inr (x, s') \<Rightarrow> tidy s' \<and> size_sc s' + k \<le> size_sc s))"

named_theorems reading \<open>rules of the parser that return\<close>

lemma reads_weaken: "reads n k p \<Longrightarrow> m \<le> n \<Longrightarrow> j \<le> k \<Longrightarrow> reads m j p"
  unfolding reads_def by (fastforce split: sum.splits)

lemma reads_bind:
  assumes "reads n a p" "\<And>x. reads (n - a) b (f x)" "k \<le> a + b"
  shows "reads n k (bindP p f)"
  unfolding reads_def
proof (intro allI impI)
  fix s assume s: "tidy s" "size_sc s < n"
  show "case bindP p f s of Inl e \<Rightarrow> e \<noteq> Hang | Inr (x, s') \<Rightarrow> tidy s' \<and> size_sc s' + k \<le> size_sc s"
  proof (cases "p s")
    case (Inl e)
    then show ?thesis using assms(1) s by (fastforce simp: reads_def bindP_def)
  next
    case (Inr y)
    obtain x s1 where y: "y = (x, s1)" by force
    from assms(1) s Inr y have 1: "tidy s1" "size_sc s1 + a \<le> size_sc s" by (fastforce simp: reads_def)+
    then have "size_sc s1 < n - a" using s(2) by simp
    then have "case f x s1 of Inl e \<Rightarrow> e \<noteq> Hang | Inr (x, s') \<Rightarrow> tidy s' \<and> size_sc s' + b \<le> size_sc s1"
      using assms(2) 1(1) unfolding reads_def by blast
    then show ?thesis using Inr y 1(2) assms(3) by (auto simp: bindP_def split: sum.splits)
  qed
qed

lemma reads_return: "reads n 0 (returnP x)"
  by (simp add: reads_def returnP_def)

lemma reads_fail: "e \<noteq> Hang \<Longrightarrow> reads n k (failP e)"
  by (simp add: reads_def failP_def)

lemma reads_no_fuel: "reads 0 k p"
  by (simp add: reads_def)

lemma reads_forbid: "reads n 0 (liftP (forbid_reserved_names name))"
  by (simp add: reads_def liftP_def forbid_reserved_names_def)

lemma reads_if: "reads n k p \<Longrightarrow> reads n k q \<Longrightarrow> reads n k (if b then p else q)"
  by simp

lemma reads_peek: "reads n 0 (peek types)"
  unfolding reads_def
proof (intro allI impI)
  fix s assume s: "tidy s" "size_sc s < n"
  show "case peek types s of Inl e \<Rightarrow> e \<noteq> Hang | Inr (x, s') \<Rightarrow> tidy s' \<and> size_sc s' + 0 \<le> size_sc s"
  proof (cases "sc_last_token s")
    case None
    let ?s = "s \<lparr>sc_last_types := types\<rparr>"
    have "case scan_token types ?s of
        Inl e \<Rightarrow> e \<noteq> Hang
      | Inr (t, s') \<Rightarrow> unread s' + length (tk_value t) \<le> unread ?s \<and> (tk_type t \<noteq> ''EOF'' \<longrightarrow> tk_value t \<noteq> []) \<and>
          sc_patterns s' = rpc_patterns \<and> sc_ignore s' = rpc_ignore \<and> sc_last_token s' = sc_last_token ?s"
      by (rule scan_token_reads) (use s in \<open>simp_all add: tidy_def\<close>)
    moreover have "unread ?s = unread s" "unread (x \<lparr>sc_last_token := y\<rparr>) = unread x" for x y
      by (simp_all add: unread_def sc_rest_def)
    ultimately show ?thesis
      using None by (auto simp: peek_def tidy_def size_sc_def split: sum.splits)
  next
    case (Some t)
    then show ?thesis using s by (simp add: peek_def restriction_changed_def)
  qed
qed

lemma reads_scan_0: "reads n (if ty = ''EOF'' then 0 else 1) (scan ty)"
  unfolding reads_def
proof (intro allI impI)
  fix s assume s: "tidy s" "size_sc s < n"
  show "case scan ty s of Inl e \<Rightarrow> e \<noteq> Hang | Inr (x, s') \<Rightarrow> tidy s' \<and> size_sc s' + (if ty = ''EOF'' then 0 else 1) \<le> size_sc s"
  proof (cases "sc_last_token s")
    case None
    have "case scan_token [ty] s of
        Inl e \<Rightarrow> e \<noteq> Hang
      | Inr (t, s') \<Rightarrow> unread s' + length (tk_value t) \<le> unread s \<and> (tk_type t \<noteq> ''EOF'' \<longrightarrow> tk_value t \<noteq> []) \<and>
          sc_patterns s' = rpc_patterns \<and> sc_ignore s' = rpc_ignore \<and> sc_last_token s' = sc_last_token s"
      by (rule scan_token_reads) (use s in \<open>simp_all add: tidy_def\<close>)
    then show ?thesis
      using None by (cases "scan_token [ty] s") (auto simp: scan_def check_type_def wrong_token_def tidy_def size_sc_def neq_Nil_conv)
  next
    case (Some t)
    have u: "unread (s \<lparr>sc_last_token := None\<rparr>) = unread s" by (simp add: unread_def sc_rest_def)
    have v: "tk_value t \<noteq> []" if "tk_type t \<noteq> ''EOF''" using s(1) Some that by (simp add: tidy_def)
    show ?thesis
      using s Some v by (cases "tk_value t") (auto simp: scan_def check_type_def wrong_token_def restriction_changed_def tidy_def size_sc_def u)
  qed
qed

lemma reads_scan: "ty \<noteq> ''EOF'' \<Longrightarrow> reads n 1 (scan ty)"
  using reads_scan_0 [of n ty] by simp

lemma reads_scan_eof: "reads n 0 (scan ty)"
  using reads_weaken [OF reads_scan_0 [of n ty], of n 0] by simp

lemma reads_after_peek: "(\<And>t. reads n k (f t)) \<Longrightarrow> reads n k (after_peek types f)"
  unfolding after_peek_def by (rule reads_bind [OF reads_peek, where b = k]) simp_all

lemma kw_not_EOF [simp]: "kw w \<noteq> ''EOF''"
  by (simp add: kw_def)

lemma reads_seq: "reads n a p \<Longrightarrow> (\<And>x. reads (n - a) (k - a) (f x)) \<Longrightarrow> reads n k (bindP p f)"
  by (rule reads_bind [where b = "k - a"]) auto

lemma reads_scan_seq: "ty \<noteq> ''EOF'' \<Longrightarrow> (\<And>x. reads (n - 1) (k - 1) (f x)) \<Longrightarrow> reads n k (bindP (scan ty) f)"
  by (rule reads_seq [OF reads_scan])

lemma reads_returnI: "k = 0 \<Longrightarrow> reads n k (returnP x)"
  by (simp add: reads_return)

lemma full_symbol_loop_reads: "reads n 0 (full_symbol_loop n s)"
proof (induction n arbitrary: s)
  case (Suc n)
  show ?case
    unfolding full_symbol_loop.simps
    by (intro reads_after_peek reads_if reads_scan_seq reads_returnI reads_weaken [OF Suc.IH]) simp_all
qed (simp add: reads_no_fuel)

lemma full_symbol_reads: "reads (Suc n) 1 (full_symbol n)"
proof -
  have l: "reads (Suc n) 1 (bindP (scan ''SYMBOL'') (\<lambda>sym. full_symbol_loop n (s @ sym)))" for s
    by (intro reads_scan_seq reads_weaken [OF full_symbol_loop_reads]) simp_all
  have p: "reads (Suc n) 0 (if t = kw ''::'' then bindP (scan (kw ''::'')) (\<lambda>_. returnP ''::'') else returnP [])" for t
    by (intro reads_if reads_scan_seq reads_returnI) simp_all
  show ?thesis
    unfolding full_symbol_def by (rule reads_after_peek, rule reads_seq [OF p]) (simp add: l [simplified])
qed

lemma prim_type_reads: "reads n 1 (prim_type w)"
  unfolding prim_type_def by (intro reads_scan_seq reads_returnI) simp_all

lemma forbidden_type_reads: "reads n k forbidden_type"
  unfolding forbidden_type_def
  by (intro reads_after_peek reads_seq [where a = 0] reads_if reads_scan_eof reads_fail) simp_all

lemma type_reads: "reads n 1 (type_rule n) \<and> (\<forall>acc. reads n 0 (type_args_loop n acc))"
proof (induction n)
  case (Suc n)
  then have t: "reads m k (type_rule n)" if "m \<le> n" "k \<le> 1" for m k using that by (auto intro: reads_weaken)
  have l: "reads m 0 (type_args_loop n acc)" if "m \<le> n" for m acc using Suc that by (auto intro: reads_weaken)
  have args: "reads (Suc n) 0 (type_args_loop (Suc n) acc)" for acc
    unfolding type_args_loop.simps
    by (intro reads_after_peek reads_if reads_scan_seq reads_seq [OF t [where k = 1]] reads_returnI reads_weaken [OF l [OF order_refl]]) simp_all
  have sym: "reads (Suc n) 1 (bindP (full_symbol n) (\<lambda>sym.
       after_peek after_symbol (\<lambda>t2.
       if t2 = kw ''<'' then
         bindP (scan (kw ''<'')) (\<lambda>_.
         bindP (type_rule n) (\<lambda>ty.
         bindP (type_args_loop n (std_rename sym @ ''<'' @ ty)) (\<lambda>res.
         bindP (scan (kw ''>'')) (\<lambda>_. returnP (res @ ''>'')))))
       else returnP (std_rename sym))))"
    by (intro reads_seq [OF full_symbol_reads] reads_after_peek reads_if reads_scan_seq reads_seq [OF t [where k = 1]]
        reads_seq [OF l] reads_returnI) simp_all
  have "reads (Suc n) 1 (type_rule (Suc n))"
    unfolding type_rule.simps
    by (intro reads_after_peek reads_if prim_type_reads forbidden_type_reads sym)
  then show ?case using args by blast
qed (simp add: reads_no_fuel)

lemma type_rule_reads: "m \<le> n \<Longrightarrow> k \<le> 1 \<Longrightarrow> reads m k (type_rule n)"
  using type_reads [of n] by (auto intro: reads_weaken)

lemma struct_field_reads: "m \<le> n \<Longrightarrow> k \<le> 2 \<Longrightarrow> reads m k (struct_field n)"
  unfolding struct_field_def
  by (intro reads_seq [OF type_rule_reads [where k = 1]] reads_scan_seq reads_returnI) simp_all

lemma struct_fields_reads: "m < n \<or> m = 0 \<Longrightarrow> reads m 0 (struct_fields n acc)"
proof (induction n arbitrary: m acc)
  case (Suc n)
  have l: "reads (m - 1) 0 (struct_fields n x)" for x by (rule Suc.IH) (use Suc.prems in auto)
  show ?case
    unfolding struct_fields.simps
    by (intro reads_after_peek reads_if reads_seq [OF struct_field_reads [where k = 1]] reads_weaken [OF l] reads_returnI)
      (use Suc.prems in auto)
qed (simp add: reads_no_fuel)

lemma struct_decl_reads: "m \<le> n \<Longrightarrow> reads m 1 (struct_decl n)"
  unfolding struct_decl_def
  by (intro reads_scan_seq reads_seq [OF struct_fields_reads] reads_returnI) auto

lemma func_arg_reads: "m \<le> n \<Longrightarrow> reads m 1 (func_arg n)"
  unfolding func_arg_def
  by (intro reads_seq [OF type_rule_reads [where k = 1]] reads_after_peek reads_if reads_scan_seq reads_seq [OF reads_forbid]
      reads_returnI) simp_all

lemma func_args_loop_reads: "m \<le> n \<Longrightarrow> reads m 0 (func_args_loop n acc)"
proof (induction n arbitrary: m acc)
  case (Suc n)
  have l: "reads (m - 1 - 1) 0 (func_args_loop n x)" for x by (rule Suc.IH) (use Suc.prems in auto)
  show ?case
    unfolding func_args_loop.simps
    by (intro reads_after_peek reads_if reads_scan_seq reads_seq [OF func_arg_reads] reads_weaken [OF l] reads_returnI)
      (use Suc.prems in auto)
qed (simp add: reads_no_fuel)

lemma func_arg_list_reads: "m \<le> n \<Longrightarrow> reads m 0 (func_arg_list n)"
  unfolding func_arg_list_def
  by (intro reads_after_peek reads_if reads_seq [OF func_arg_reads] reads_weaken [OF func_args_loop_reads] reads_returnI) auto

lemma func_attr_reads: "reads n 0 func_attr"
  unfolding func_attr_def
  by (intro reads_after_peek reads_if reads_scan_seq reads_returnI) simp_all

lemma service_function_reads: "m \<le> n \<Longrightarrow> reads m 1 (service_function n)"
proof -
  assume m: "m \<le> n"
  have out: "reads j 0 (if t = t_bar then bindP (scan t_bar) (\<lambda>_. func_arg_list n) else returnP [])" if "j \<le> n" for j t
    by (intro reads_if reads_scan_seq reads_weaken [OF func_arg_list_reads] reads_returnI) (use that in auto)
  have abs: "reads j 0 (if t = kw ''='' then bindP (scan (kw ''='')) (\<lambda>_. bindP (scan (kw ''0'')) (\<lambda>_. returnP True)) else returnP False)" for j t
    by (intro reads_if reads_scan_seq reads_returnI) simp_all
  show ?thesis
    unfolding service_function_def
    by (intro reads_seq [OF func_attr_reads] reads_scan_seq reads_seq [OF reads_forbid] reads_seq [OF func_arg_list_reads]
        reads_after_peek reads_seq [OF out] reads_seq [OF abs] reads_returnI) (use m in auto)
qed

lemma service_functions_reads: "m < n \<or> m = 0 \<Longrightarrow> reads m 0 (service_functions n acc)"
proof (induction n arbitrary: m acc)
  case (Suc n)
  have l: "reads (m - 1) 0 (service_functions n x)" for x by (rule Suc.IH) (use Suc.prems in auto)
  show ?case
    unfolding service_functions.simps
    by (intro reads_after_peek reads_if reads_seq [OF service_function_reads] reads_weaken [OF l] reads_returnI)
      (use Suc.prems in auto)
qed (simp add: reads_no_fuel)

lemma service_decl_reads: "m \<le> n \<Longrightarrow> reads m 1 (service_decl n)"
proof -
  assume m: "m \<le> n"
  have abs: "reads j 0 (if t = kw ''abstract'' then bindP (scan (kw ''abstract'')) (\<lambda>_. returnP True) else returnP False)" for j t
    by (intro reads_if reads_scan_seq reads_returnI) simp_all
  show ?thesis
    unfolding service_decl_def
    by (intro reads_after_peek reads_seq [OF abs] reads_scan_seq reads_seq [OF service_functions_reads] reads_returnI) (use m in auto)
qed

lemma structs_and_services_reads: "m < n \<or> m = 0 \<Longrightarrow> reads m 0 (structs_and_services n sts svs)"
proof (induction n arbitrary: m sts svs)
  case (Suc n)
  have l: "reads (m - 1) 0 (structs_and_services n x y)" for x y by (rule Suc.IH) (use Suc.prems in auto)
  show ?case
    unfolding structs_and_services.simps
    by (intro reads_after_peek reads_if reads_seq [OF struct_decl_reads] reads_seq [OF service_decl_reads] reads_weaken [OF l] reads_returnI)
      (use Suc.prems in auto)
qed (simp add: reads_no_fuel)

lemma namespace_loop_reads: "m \<le> n \<Longrightarrow> reads m 0 (namespace_loop n acc)"
proof (induction n arbitrary: m acc)
  case (Suc n)
  have l: "reads (m - 1 - 1) 0 (namespace_loop n x)" for x by (rule Suc.IH) (use Suc.prems in auto)
  show ?case
    unfolding namespace_loop.simps
    by (intro reads_after_peek reads_if reads_scan_seq reads_weaken [OF l] reads_returnI) (use Suc.prems in auto)
qed (simp add: reads_no_fuel)

lemma namespace_decl_reads: "m \<le> n \<Longrightarrow> reads m 0 (namespace_decl n)"
  unfolding namespace_decl_def by (intro reads_scan_seq reads_weaken [OF namespace_loop_reads]) auto

lemma rpc_source_rule_reads: "m < n \<Longrightarrow> reads m 0 (rpc_source_rule n)"
proof -
  assume m: "m < n"
  have ns: "reads m 0 (if t = kw ''namespace'' then bindP (namespace_decl n) (\<lambda>ns. returnP (Some ns)) else returnP None)" for t
    by (intro reads_if reads_seq [OF namespace_decl_reads] reads_returnI) (use m in auto)
  have svs: "reads j 0 (structs_and_services n [] [])" if "j \<le> m" for j
    by (rule structs_and_services_reads) (use m that in auto)
  have fin: "reads j 0 (case x of (sts, svs) \<Rightarrow> bindP (scan ''EOF'') (\<lambda>_. returnP (f sts svs)))" for j x f
    by (cases x) (auto intro!: reads_seq [OF reads_scan_eof] reads_returnI)
  show ?thesis
    unfolding rpc_source_rule_def
    by (intro reads_after_peek reads_seq [OF ns] reads_seq [OF svs] reads_weaken [OF fin]) auto
qed

section \<open>Properties of the compiler\<close>

text \<open>
  (C12) The parser of the RPC compiler returns on every input: with fuel for two more steps than there are characters it
  never runs out, so it yields a description, reports a syntax error, or raises one of the compiler's own errors.
\<close>

theorem parse_terminates: "parse_rpc (length txt + 2) txt \<noteq> Inl Hang"
proof -
  let ?s = "rpc_scanner 0 txt"
  have s: "tidy ?s" "size_sc ?s = length txt"
    by (simp_all add: rpc_scanner_def new_scanner_def tidy_def size_sc_def unread_def sc_rest_def)
  have "reads (Suc (length txt)) 0 (rpc_source_rule (length txt + 2))" by (rule rpc_source_rule_reads) simp
  from this [unfolded reads_def, rule_format, OF s(1)] s(2)
  have r: "case rpc_source_rule (length txt + 2) ?s of Inl e \<Rightarrow> e \<noteq> Hang | Inr (x, s') \<Rightarrow> tidy s' \<and> size_sc s' + 0 \<le> size_sc ?s"
    by simp
  show ?thesis
  proof (cases "rpc_source_rule (length txt + 2) ?s")
    case (Inl e)
    then show ?thesis using r by (cases e) (simp_all add: parse_rpc_def wrap_error_reporter_def)
  qed (simp add: parse_rpc_def wrap_error_reporter_def split: prod.split)
qed

section \<open>The table of codes\<close>

lemma table_fold_keys:
  "fst ` set (foldl (\<lambda>tbl (k, key). AList.update key (code k) tbl) tbl xs) = fst ` set tbl \<union> snd ` set xs"
proof (induction xs arbitrary: tbl)
  case (Cons x xs)
  obtain k key where x: "x = (k, key)" by force
  have "fst ` set (AList.update key (code k) tbl) = insert key (fst ` set tbl)"
    by (simp add: update_conv' flip: dom_map_of_conv_image_fst)
  then show ?case using Cons [of "AList.update key (code k) tbl"] by (simp add: x)
qed simp

lemma table_keys:
  "fst ` set (generate_rpc_table code src) = (\<Union>sv \<in> set (rs_services src). rpc_key sv ` set (sv_functions sv))"
proof -
  have "snd ` set (enumerate 0 (rpc_keys src)) = set (rpc_keys src)" by (simp flip: set_map)
  then show ?thesis by (simp add: generate_rpc_table_def table_fold_keys) (auto simp: rpc_keys_def)
qed

lemma table_has_codes: "list_all (has_codes (generate_rpc_table code src)) (rs_services src)"
  by (auto simp: list_all_iff has_codes_def table_keys)

text \<open>Every code in the table was drawn.\<close>

lemma table_fold_values:
  assumes "map_of (foldl (\<lambda>tbl (k, key). AList.update key (code k) tbl) tbl xs) key = Some c"
  shows "map_of tbl key = Some c \<or> (\<exists>k. (k, key) \<in> set xs \<and> c = code k)"
  using assms
proof (induction xs arbitrary: tbl)
  case (Cons x xs)
  obtain k key' where x: "x = (k, key')" by force
  from Cons.prems have "map_of (foldl (\<lambda>tbl (k, key). AList.update key (code k) tbl) (AList.update key' (code k) tbl) xs) key = Some c"
    by (simp add: x)
  from Cons.IH [OF this] show ?case by (auto simp: x update_conv' split: if_splits)
qed simp

lemma table_value:
  assumes "map_of (generate_rpc_table code src) key = Some c"
  obtains k where "k < length (rpc_keys src)" "rpc_keys src ! k = key" "c = code k"
  using table_fold_values [OF assms [unfolded generate_rpc_table_def]] that by (auto simp: in_set_enumerate_eq)

text \<open>
  (C22) The table gives every function of every service a code, which lies in the range the codes are drawn from; if the draws are
  pairwise different, different functions have different codes.
\<close>

theorem rpc_codes:
  assumes "\<And>k. code k \<in> {268435456..1879048192}" "inj_on code {..<length (rpc_keys src)}"
    and "sv \<in> set (rs_services src)" "fn \<in> set (sv_functions sv)" "sv' \<in> set (rs_services src)" "fn' \<in> set (sv_functions sv')"
  shows "\<exists>c c'. map_of (generate_rpc_table code src) (rpc_key sv fn) = Some c \<and>
    map_of (generate_rpc_table code src) (rpc_key sv' fn') = Some c' \<and>
    c \<in> {268435456..1879048192} \<and> (c = c' \<longleftrightarrow> rpc_key sv fn = rpc_key sv' fn')"
proof -
  let ?T = "generate_rpc_table code src"
  have "rpc_key sv fn \<in> fst ` set ?T" "rpc_key sv' fn' \<in> fst ` set ?T" unfolding table_keys using assms(3-6) by blast+
  then have "map_of ?T (rpc_key sv fn) \<noteq> None" "map_of ?T (rpc_key sv' fn') \<noteq> None" by (simp_all add: map_of_eq_None_iff)
  then obtain c c' where c: "map_of ?T (rpc_key sv fn) = Some c" "map_of ?T (rpc_key sv' fn') = Some c'" by blast
  obtain k where k: "k < length (rpc_keys src)" "rpc_keys src ! k = rpc_key sv fn" "c = code k" by (rule table_value [OF c(1)])
  obtain k' where k': "k' < length (rpc_keys src)" "rpc_keys src ! k' = rpc_key sv' fn'" "c' = code k'" by (rule table_value [OF c(2)])
  have "k = k'" if "c = c'" using that k(1,3) k'(1,3) assms(2) by (auto dest: inj_onD)
  then have "c = c' \<longleftrightarrow> rpc_key sv fn = rpc_key sv' fn'" using c k(2) k'(2) by auto
  moreover have "c \<in> {268435456..1879048192}" using assms(1) k(3) by blast
  ultimately show ?thesis using c by blast
qed

theorem rpc_codes_witness:
  "\<exists>c. map_of (generate_rpc_table (\<lambda>k. 268435456 + int (k mod 2)) demo_source) ''Math.add'' = Some c"
proof -
  define sv where "sv = hd (rs_services demo_source)"
  define fn where "fn = hd (sv_functions sv)"
  have s: "sv \<in> set (rs_services demo_source)" "fn \<in> set (sv_functions sv)" "rpc_key sv fn = ''Math.add''"
    by (simp_all add: sv_def fn_def demo_source_def rpc_key_def)
  have "inj_on (\<lambda>k. 268435456 + int (k mod 2)) {..<length (rpc_keys demo_source)}"
    by (simp add: rpc_keys_def demo_source_def inj_on_def)
  moreover have "268435456 + int (k mod 2) \<in> {268435456..1879048192}" for k
    using mod_less_divisor [of 2 k] by (simp add: nat_le_iff less_imp_le)
  ultimately show ?thesis using rpc_codes [where code = "\<lambda>k. 268435456 + int (k mod 2)", OF _ _ s(1,2,1,2)] s(3) by metis
qed

section \<open>Parsed descriptions are clean\<close>

lemma best_match_sound:
  assumes "best_match s r = (p, b)" "0 \<le> b"
  shows "\<exists>rx. (p, rx) \<in> set (sc_patterns s) \<and> rx (sc_rest s) = Some (nat b)"
proof -
  have "foldl (better ign r x) best pats = best \<or>
      (\<exists>rx n. (fst (foldl (better ign r x) best pats), rx) \<in> set pats \<and> rx x = Some n \<and> snd (foldl (better ign r x) best pats) = int n)"
    for ign r x best pats
  proof (induction pats arbitrary: best)
    case (Cons pat pats)
    obtain q rx where pat: "pat = (q, rx)" by force
    have "better ign r x best pat = best \<or> (\<exists>n. rx x = Some n \<and> better ign r x best pat = (q, int n))"
      by (auto simp: better_def pat split: option.splits)
    then show ?case using Cons [of "better ign r x best pat"] by (auto simp: pat)
  qed simp
  from this [of "sc_ignore s" r "sc_rest s" "(''(error)'', - 1)" "sc_patterns s"] show ?thesis
    using assms unfolding best_match_def by auto
qed

lemma symbol_pattern: "(''SYMBOL'', rx) \<in> set rpc_patterns \<Longrightarrow> rx = m_symbol"
  by (auto simp: rpc_patterns_def kw_def sp_pat_def comment_pat_def)

lemma letter_plain: "letter_digit c \<Longrightarrow> c \<noteq> CHR ''{'' \<and> c \<noteq> CHR ''}''"
  by (auto simp: letter_digit_def letter_def char_digit_def)

lemma symbol_plain:
  assumes "m_symbol s = Some n"
  shows "plain (take n s)"
proof -
  from assms obtain c cs where s: "s = c # cs" "letter c" "n = 1 + length (takeWhile letter_digit cs)"
    by (auto simp: m_symbol_def split: list.splits if_splits)
  have "take (length (takeWhile letter_digit cs)) cs = takeWhile letter_digit cs" by (metis takeWhile_eq_take)
  then have "take n s = c # takeWhile letter_digit cs" by (simp add: s)
  moreover have "letter_digit c" using s(2) by (simp add: letter_digit_def)
  ultimately show ?thesis using letter_plain unfolding plain_def by (metis set_ConsD set_takeWhileD)
qed

definition sound_token :: "token \<Rightarrow> bool" where
  "sound_token t \<longleftrightarrow> (tk_type t = ''SYMBOL'' \<longrightarrow> plain (tk_value t))"

definition sound :: "scanner \<Rightarrow> bool" where
  "sound s \<longleftrightarrow> sc_patterns s = rpc_patterns \<and> (\<forall>t. sc_last_token s = Some t \<longrightarrow> sound_token t)"

lemma scan_token_sound:
  assumes "scan_token r s = Inr (t, s')" "sc_patterns s = rpc_patterns"
  shows "sound_token t \<and> sc_patterns s' = rpc_patterns \<and> sc_last_token s' = sc_last_token s"
  using assms
proof (induction r s rule: scan_token.induct)
  case (1 r s0)
  define s where "s = grab_input s0"
  obtain p b where b: "best_match s r = (p, b)" by force
  define v where "v = take (nat b) (sc_rest s)"
  have pats: "sc_patterns s = rpc_patterns" using "1.prems" by (simp add: s_def grab_fields)
  have F1: "\<not> (p = ''(error)'' \<and> b < 0)"
    using "1.prems"(1) b by (subst (asm) scan_token.simps) (auto simp: s_def Let_def)
  show ?case
  proof (cases "p \<in> set (sc_ignore s)")
    case False
    have e: "scan_token r s0 = (let tok = \<lparr>tk_type = p, tk_value = v, tk_pos = Some (get_pos s)\<rparr> in Inr (tok, push_token tok (advance v s)))"
      using F1 False b by (subst scan_token.simps) (simp add: s_def v_def Let_def)
    have "plain v" if "p = ''SYMBOL''"
    proof -
      have "0 \<le> b" using best_match_fits [of s r, unfolded pats, OF rpc_patterns_fit] F1 b by auto
      from best_match_sound [OF b this] that pats symbol_pattern have "m_symbol (sc_rest s) = Some (nat b)" by auto
      then show ?thesis unfolding v_def by (rule symbol_plain)
    qed
    then show ?thesis
      using "1.prems"(1) pats unfolding e
      by (auto simp: Let_def sound_token_def push_token_fields advance_fields s_def grab_fields)
  next
    case True
    have v': "v \<noteq> []"
      using "1.prems"(1) F1 True b by (subst (asm) scan_token.simps) (auto simp: s_def v_def Let_def)
    have e: "scan_token r s0 = scan_token r (advance v s)"
      using F1 True v' b by (subst scan_token.simps) (simp add: s_def v_def Let_def)
    have "sound_token t \<and> sc_patterns s' = rpc_patterns \<and> sc_last_token s' = sc_last_token (advance v s)"
      by (rule "1.IH" [OF s_def b [symmetric] refl F1 v_def _ v'])
        (use True pats "1.prems"(1) e in \<open>simp_all add: advance_fields\<close>)
    then show ?thesis by (simp add: advance_fields s_def grab_fields)
  qed
qed

definition yields :: "('a \<Rightarrow> bool) \<Rightarrow> 'a rule \<Rightarrow> bool" where
  "yields P p \<longleftrightarrow> (\<forall>s x s'. sound s \<longrightarrow> p s = Inr (x, s') \<longrightarrow> P x \<and> sound s')"

lemma yields_bind:
  assumes "yields P p" "\<And>x. P x \<Longrightarrow> yields Q (f x)"
  shows "yields Q (bindP p f)"
  unfolding yields_def
proof (intro allI impI)
  fix s y s' assume s: "sound s" "bindP p f s = Inr (y, s')"
  then obtain x s1 where 1: "p s = Inr (x, s1)" "f x s1 = Inr (y, s')" by (auto simp: bindP_def elim!: bindE_eq_InrE)
  with assms(1) s(1) have "P x" "sound s1" by (auto simp: yields_def)
  with assms(2) [of x] 1(2) show "Q y \<and> sound s'" by (auto simp: yields_def)
qed

lemma yields_return: "P x \<Longrightarrow> yields P (returnP x)"
  by (simp add: yields_def returnP_def)

lemma yields_fail: "yields P (failP e)"
  by (simp add: yields_def failP_def)

lemma yields_lift: "yields (\<lambda>_. True) (liftP r)"
  by (auto simp: yields_def liftP_def elim!: bindE_eq_InrE)

lemma yields_if: "yields P p \<Longrightarrow> yields P q \<Longrightarrow> yields P (if b then p else q)"
  by simp

lemma yields_peek: "yields (\<lambda>_. True) (peek types)"
  unfolding yields_def
proof (intro allI impI)
  fix s x s' assume s: "sound s" "peek types s = Inr (x, s')"
  show "True \<and> sound s'"
  proof (cases "sc_last_token s")
    case None
    with s(2) obtain t s1 where "scan_token types (s \<lparr>sc_last_types := types\<rparr>) = Inr (t, s1)" "s' = s1 \<lparr>sc_last_token := Some t\<rparr>"
      by (auto simp: peek_def elim!: bindE_eq_InrE)
    with scan_token_sound [OF this(1)] s(1) show ?thesis by (simp add: sound_def)
  next
    case (Some t)
    with s show ?thesis by (auto simp: peek_def split: if_splits)
  qed
qed

lemma yields_scan: "yields (\<lambda>v. ty = ''SYMBOL'' \<longrightarrow> plain v) (scan ty)"
  unfolding yields_def
proof (intro allI impI)
  fix s x s' assume s: "sound s" "scan ty s = Inr (x, s')"
  show "(ty = ''SYMBOL'' \<longrightarrow> plain x) \<and> sound s'"
  proof (cases "sc_last_token s")
    case None
    with s(2) obtain t where t: "scan_token [ty] s = Inr (t, s')" "tk_type t = ty" "x = tk_value t"
      by (auto simp: scan_def check_type_def elim!: bindE_eq_InrE split: if_splits)
    with scan_token_sound [OF t(1)] s(1) None show ?thesis by (simp add: sound_def sound_token_def)
  next
    case (Some t)
    with s show ?thesis by (auto simp: scan_def check_type_def sound_def sound_token_def split: if_splits)
  qed
qed

lemma yields_symbol: "(\<And>v. plain v \<Longrightarrow> yields Q (f v)) \<Longrightarrow> yields Q (bindP (scan ''SYMBOL'') f)"
  by (rule yields_bind [OF yields_scan]) simp

lemma yields_skip: "(\<And>v. yields Q (f v)) \<Longrightarrow> yields Q (bindP (scan ty) f)"
  by (rule yields_bind [OF yields_scan])

lemma yields_after_peek: "(\<And>t. yields Q (f t)) \<Longrightarrow> yields Q (after_peek types f)"
  unfolding after_peek_def by (rule yields_bind [OF yields_peek])

lemma full_symbol_loop_plain: "plain s \<Longrightarrow> yields plain (full_symbol_loop n s)"
proof (induction n arbitrary: s)
  case (Suc n)
  show ?case
    unfolding full_symbol_loop.simps
    by (intro yields_after_peek yields_if yields_bind [OF yields_scan [of "kw ''::''"]] yields_symbol yields_return Suc.IH) (use Suc.prems in simp_all)
qed (simp add: yields_fail)

lemma full_symbol_plain: "yields plain (full_symbol n)"
proof -
  have "yields plain (if t = kw ''::'' then bindP (scan (kw ''::'')) (\<lambda>_. returnP ''::'') else returnP [])" for t
    by (intro yields_if yields_skip yields_return) simp_all
  then show ?thesis
    unfolding full_symbol_def by (intro yields_after_peek yields_bind [where P = plain] yields_symbol full_symbol_loop_plain) simp_all
qed

lemma prim_type_plain: "plain w \<Longrightarrow> yields plain (prim_type w)"
  unfolding prim_type_def by (intro yields_skip yields_return) simp

lemma yields_scan_any: "yields (\<lambda>_. True) (scan ty)"
  using yields_scan [of ty] by (auto simp: yields_def)

lemma forbidden_type_plain: "yields P forbidden_type"
  unfolding forbidden_type_def
  by (intro yields_after_peek yields_bind [where P = "\<lambda>_. True"] yields_if yields_fail yields_scan_any)

lemma std_rename_plain: "plain t \<Longrightarrow> plain (std_rename t)"
  by (auto simp: std_rename_def)

lemma type_plain: "yields plain (type_rule n) \<and> (\<forall>acc. plain acc \<longrightarrow> yields plain (type_args_loop n acc))"
proof (induction n)
  case (Suc n)
  then have t: "yields plain (type_rule n)" and l: "\<And>acc. plain acc \<Longrightarrow> yields plain (type_args_loop n acc)" by auto
  have args: "yields plain (type_args_loop (Suc n) acc)" if "plain acc" for acc
    unfolding type_args_loop.simps
    by (intro yields_after_peek yields_if yields_skip yields_bind [OF t] yields_return l) (use that in simp_all)
  have sym: "yields plain (bindP (full_symbol n) (\<lambda>sym.
       after_peek after_symbol (\<lambda>t2.
       if t2 = kw ''<'' then
         bindP (scan (kw ''<'')) (\<lambda>_.
         bindP (type_rule n) (\<lambda>ty.
         bindP (type_args_loop n (std_rename sym @ ''<'' @ ty)) (\<lambda>res.
         bindP (scan (kw ''>'')) (\<lambda>_. returnP (res @ ''>'')))))
       else returnP (std_rename sym))))"
    by (intro yields_bind [OF full_symbol_plain] yields_after_peek yields_if yields_skip yields_bind [OF t] yields_bind [OF l] yields_return)
      (simp_all add: std_rename_plain)
  have "yields plain (type_rule (Suc n))"
    unfolding type_rule.simps
    by (intro yields_after_peek yields_if prim_type_plain forbidden_type_plain sym) simp_all
  then show ?case using args by blast
qed (simp add: yields_fail)

lemma type_rule_plain: "(\<And>ty. plain ty \<Longrightarrow> yields Q (f ty)) \<Longrightarrow> yields Q (bindP (type_rule n) f)"
  using type_plain [of n] by (blast intro: yields_bind)

lemma struct_fields_clean:
  "list_all (\<lambda>fd. plain (f_name fd) \<and> plain (f_type fd)) acc \<Longrightarrow>
    yields (list_all (\<lambda>fd. plain (f_name fd) \<and> plain (f_type fd))) (struct_fields n acc)"
proof (induction n arbitrary: acc)
  case (Suc n)
  have f: "yields (\<lambda>fd. plain (f_name fd) \<and> plain (f_type fd)) (struct_field n)"
    unfolding struct_field_def by (intro type_rule_plain yields_symbol yields_return) simp
  show ?case
    unfolding struct_fields.simps
    by (intro yields_after_peek yields_if yields_bind [OF f] yields_return Suc.IH) (use Suc.prems in simp_all)
qed (simp add: yields_fail)

lemma struct_decl_clean: "yields clean_struct (struct_decl n)"
  unfolding struct_decl_def
  by (rule yields_skip, rule yields_symbol, rule yields_skip, rule yields_bind [OF struct_fields_clean], simp, rule yields_skip,
      rule yields_return, simp add: clean_struct_def)

lemma func_arg_clean: "yields clean_arg (func_arg n)"
  unfolding func_arg_def
  by (intro type_rule_plain yields_after_peek yields_if yields_symbol yields_bind [OF yields_lift] yields_return) (simp_all add: clean_arg_def)

lemma func_args_loop_clean: "list_all clean_arg acc \<Longrightarrow> yields (list_all clean_arg) (func_args_loop n acc)"
proof (induction n arbitrary: acc)
  case (Suc n)
  show ?case
    unfolding func_args_loop.simps
    by (intro yields_after_peek yields_if yields_skip yields_bind [OF func_arg_clean] yields_return Suc.IH) (use Suc.prems in simp_all)
qed (simp add: yields_fail)

lemma func_arg_list_clean: "yields (list_all clean_arg) (func_arg_list n)"
  unfolding func_arg_list_def
  by (intro yields_after_peek yields_if yields_bind [OF func_arg_clean] yields_return func_args_loop_clean) simp_all

lemma func_attr_any: "yields (\<lambda>_. True) func_attr"
  unfolding func_attr_def by (intro yields_after_peek yields_if yields_skip yields_return) simp_all

lemma service_function_clean: "yields clean_func (service_function n)"
proof -
  have out: "yields (list_all clean_arg) (if t = t_bar then bindP (scan t_bar) (\<lambda>_. func_arg_list n) else returnP [])" for t
    by (intro yields_if yields_skip func_arg_list_clean yields_return) simp
  have abs: "yields (\<lambda>_. True) (if t = kw ''='' then bindP (scan (kw ''='')) (\<lambda>_. bindP (scan (kw ''0'')) (\<lambda>_. returnP True)) else returnP False)" for t
    by (intro yields_if yields_skip yields_return) simp_all
  show ?thesis
    unfolding service_function_def
    by (rule yields_bind [OF func_attr_any], rule yields_symbol, rule yields_bind [OF yields_lift], rule yields_skip,
        rule yields_bind [OF func_arg_list_clean], rule yields_after_peek, rule yields_bind [OF out], rule yields_skip,
        rule yields_after_peek, rule yields_bind [OF abs], rule yields_return, simp add: clean_func_def)
qed

lemma service_functions_clean: "list_all clean_func acc \<Longrightarrow> yields (list_all clean_func) (service_functions n acc)"
proof (induction n arbitrary: acc)
  case (Suc n)
  show ?case
    unfolding service_functions.simps
    by (intro yields_after_peek yields_if yields_bind [OF service_function_clean] yields_return Suc.IH) (use Suc.prems in simp_all)
qed (simp add: yields_fail)

lemma service_decl_clean: "yields clean_service (service_decl n)"
proof -
  have abs: "yields (\<lambda>_. True) (if t = kw ''abstract'' then bindP (scan (kw ''abstract'')) (\<lambda>_. returnP True) else returnP False)" for t
    by (intro yields_if yields_skip yields_return) simp_all
  show ?thesis
    unfolding service_decl_def
    by (rule yields_after_peek, rule yields_bind [OF abs], rule yields_skip, rule yields_symbol, rule yields_skip,
        rule yields_bind [OF service_functions_clean], simp, rule yields_skip, rule yields_return, simp add: clean_service_def)
qed

lemma structs_and_services_clean:
  "list_all clean_struct sts \<Longrightarrow> list_all clean_service svs \<Longrightarrow>
    yields (\<lambda>(sts, svs). list_all clean_struct sts \<and> list_all clean_service svs) (structs_and_services n sts svs)"
proof (induction n arbitrary: sts svs)
  case (Suc n)
  show ?case
    unfolding structs_and_services.simps
    by (intro yields_after_peek yields_if yields_bind [OF struct_decl_clean] yields_bind [OF service_decl_clean] yields_return Suc.IH)
      (use Suc.prems in simp_all)
qed (simp add: yields_fail)

lemma namespace_loop_plain: "list_all plain acc \<Longrightarrow> yields (list_all plain) (namespace_loop n acc)"
proof (induction n arbitrary: acc)
  case (Suc n)
  show ?case
    unfolding namespace_loop.simps
    by (rule yields_after_peek, rule yields_if, rule yields_skip, rule yields_symbol, rule Suc.IH)
      (use Suc.prems in \<open>simp_all add: yields_return\<close>)
qed (simp add: yields_fail)

lemma namespace_decl_plain: "yields (list_all plain) (namespace_decl n)"
  unfolding namespace_decl_def
  by (rule yields_skip, rule yields_symbol, rule namespace_loop_plain) simp

lemma rpc_source_rule_clean: "yields clean_source (rpc_source_rule n)"
proof -
  have ns: "yields (\<lambda>ns. case ns of None \<Rightarrow> True | Some ns \<Rightarrow> list_all plain ns)
      (if t = kw ''namespace'' then bindP (namespace_decl n) (\<lambda>ns. returnP (Some ns)) else returnP None)" for t
    by (intro yields_if yields_bind [OF namespace_decl_plain] yields_return) simp_all
  show ?thesis
    unfolding rpc_source_rule_def
    by (rule yields_after_peek, rule yields_bind [OF ns], rule yields_bind [OF structs_and_services_clean], simp, simp)
      (auto intro!: yields_skip yields_return simp: clean_source_def)
qed

lemma parse_rpc_clean:
  assumes "parse_rpc n txt = Inr (Some src)"
  shows "clean_source src"
proof -
  let ?s = "rpc_scanner 0 txt"
  have s: "sound ?s" by (simp add: rpc_scanner_def new_scanner_def sound_def)
  from assms obtain s' where "rpc_source_rule n ?s = Inr (src, s')"
    by (auto simp: parse_rpc_def wrap_error_reporter_def split: sum.splits pyerr.splits)
  with rpc_source_rule_clean s show ?thesis by (auto simp: yields_def)
qed

text \<open>
  (C2) Whatever description the compiler accepts, if the verbatim C++ parts around it have properly nested braces, then so has
  the header it writes, with nothing left open; and accepting the description is enough for the header to be written.
\<close>

theorem compiled_header_nested:
  assumes "split_sections rpc_src = (cpp_header, src, cpp_footer)" "parse_rpc fuel src = Inr (Some rpc_source)"
    and "nest 0 cpp_header = Some 0" "nest 0 cpp_footer = Some 0"
  shows "\<exists>h. rpcgen fuel code [''cpp''] rpc_src = Inr [(''.h'', h)] \<and> nest 0 h = Some 0"
proof -
  let ?T = "generate_rpc_table code rpc_source"
  obtain sf where "emit_rpc_source_cpp rpc_source ?T cpp_header cpp_footer = Inr sf" "nest 0 (sf_out sf) = Some 0"
    using header_nested [OF parse_rpc_clean [OF assms(2)] table_has_codes assms(3,4)] by blast
  then show ?thesis using assms(1,2) by (simp add: rpcgen_def Let_def)
qed

definition demo_rpc :: string where
  "demo_rpc = ''struct P{i8 x}'' @ nl @ ''%%'' @ nl @ ''int f(){}''"

lemma demo_rpc_parses:
  "split_sections demo_rpc = ([], ''struct P{i8 x}'', ''int f(){}'')"
  "(case parse_rpc 30 ''struct P{i8 x}'' of Inr (Some src) \<Rightarrow> map st_name (rs_structs src) = [''P''] | _ \<Rightarrow> False)"
  by code_simp+

theorem compiled_header_nested_witness: "\<exists>h. rpcgen 30 (\<lambda>k. 268435456 + int k) [''cpp''] demo_rpc = Inr [(''.h'', h)] \<and> nest 0 h = Some 0"
proof -
  obtain src where "parse_rpc 30 ''struct P{i8 x}'' = Inr (Some src)"
    using demo_rpc_parses(2) by (auto split: sum.splits option.splits)
  from compiled_header_nested [OF demo_rpc_parses(1) this] show ?thesis by simp
qed

end
