(* ===== verification/Yapps_Parsetree.thy ===== *)
theory Yapps_Parsetree
  imports Py_Str
begin

text \<open>
  \<^verbatim>\<open>src/rrr/pylib/yapps/parsetree.py\<close>, first half: the nodes of a grammar and the computation of which nodes accept
  the empty sequence and of their first and follow sets.  The shape of a grammar is a datatype with a number for
  every node object; what the methods \<^verbatim>\<open>setup\<close> and \<^verbatim>\<open>update\<close> change, the attributes of the objects, is a state indexed by
  these numbers.  The code is Python 2.
\<close>

section \<open>Nodes\<close>

datatype pnode =
    Terminal nat string string                \<comment> \<open>number, rule, token\<close>
  | Eval nat string string
  | NonTerminal nat string string string      \<comment> \<open>number, rule, name, arguments\<close>
  | Sequence nat string "pnode list"
  | Choice nat string "pnode list"
  | Option nat string pnode
  | Plus nat string pnode
  | Star nat string pnode

fun node_id :: "pnode \<Rightarrow> nat" where
  "node_id (Terminal i r t) = i"
| "node_id (Eval i r e) = i"
| "node_id (NonTerminal i r n a) = i"
| "node_id (Sequence i r cs) = i"
| "node_id (Choice i r cs) = i"
| "node_id (Option i r c) = i"
| "node_id (Plus i r c) = i"
| "node_id (Star i r c) = i"

fun node_rule :: "pnode \<Rightarrow> string" where
  "node_rule (Terminal i r t) = r"
| "node_rule (Eval i r e) = r"
| "node_rule (NonTerminal i r n a) = r"
| "node_rule (Sequence i r cs) = r"
| "node_rule (Choice i r cs) = r"
| "node_rule (Option i r c) = r"
| "node_rule (Plus i r c) = r"
| "node_rule (Star i r c) = r"

fun get_children :: "pnode \<Rightarrow> pnode list" where
  "get_children (Sequence i r cs) = cs"
| "get_children (Choice i r cs) = cs"
| "get_children (Option i r c) = [c]"
| "get_children (Plus i r c) = [c]"
| "get_children (Star i r c) = [c]"
| "get_children _ = []"

text \<open>\<^verbatim>\<open>__str__\<close> of the classes.\<close>

definition terminal_str :: "string \<Rightarrow> string" where
  "terminal_str token = token"

definition eval_str :: "string \<Rightarrow> string" where
  "eval_str expr = ''{{ '' @ py_strip expr @ '' }}''"

definition nonterminal_str :: "string \<Rightarrow> string" where
  "nonterminal_str name = name"

definition sequence_str :: "string list \<Rightarrow> string" where
  "sequence_str cs = ''( '' @ py_join '' '' cs @ '' )''"

definition choice_str :: "string list \<Rightarrow> string" where
  "choice_str cs = ''( '' @ py_join '' | '' cs @ '' )''"

definition option_str :: "string \<Rightarrow> string" where
  "option_str c = ''[ '' @ c @ '' ]''"

definition plus_str :: "string \<Rightarrow> string" where
  "plus_str c = c @ ''+''"

definition star_str :: "string \<Rightarrow> string" where
  "star_str c = c @ ''*''"

fun node_str :: "pnode \<Rightarrow> string" where
  "node_str (Terminal i r t) = terminal_str t"
| "node_str (Eval i r e) = eval_str e"
| "node_str (NonTerminal i r n a) = nonterminal_str n"
| "node_str (Sequence i r cs) = sequence_str (map node_str cs)"
| "node_str (Choice i r cs) = choice_str (map node_str cs)"
| "node_str (Option i r c) = option_str (node_str c)"
| "node_str (Plus i r c) = plus_str (node_str c)"
| "node_str (Star i r c) = star_str (node_str c)"

type_synonym grules = "(string \<times> pnode) list"

section \<open>State\<close>

record ystate =
  y_first :: "nat \<Rightarrow> string list"
  y_follow :: "nat \<Rightarrow> string list"
  y_eps :: "nat \<Rightarrow> bool"
  change_count :: nat
  y_err :: "string list"

definition new_ystate :: ystate where
  "new_ystate = \<lparr>y_first = (\<lambda>_. []), y_follow = (\<lambda>_. []), y_eps = (\<lambda>_. False), change_count = 0, y_err = []\<rparr>"

definition changed :: "ystate \<Rightarrow> ystate" where
  "changed st = st \<lparr>change_count := 1 + change_count st\<rparr>"

definition set_subtract :: "string list \<Rightarrow> string list \<Rightarrow> string list" where
  "set_subtract a b = filter (\<lambda>x. x \<notin> set b) a"

definition subset :: "string list \<Rightarrow> string list \<Rightarrow> bool" where
  "subset a b \<longleftrightarrow> (\<forall>x \<in> set a. x \<in> set b)"

definition equal_set :: "string list \<Rightarrow> string list \<Rightarrow> bool" where
  "equal_set a b \<longleftrightarrow> (if length a \<noteq> length b then False else if a = b then True else subset a b \<and> subset b a)"

text \<open>The list objects the methods extend.\<close>

datatype ycell = First nat | Follow nat

definition cell_get :: "ystate \<Rightarrow> ycell \<Rightarrow> string list" where
  "cell_get st c = (case c of First i \<Rightarrow> y_first st i | Follow i \<Rightarrow> y_follow st i)"

definition cell_set :: "ycell \<Rightarrow> string list \<Rightarrow> ystate \<Rightarrow> ystate" where
  "cell_set c v st =
     (case c of First i \<Rightarrow> st \<lparr>y_first := (y_first st)(i := v)\<rparr> | Follow i \<Rightarrow> st \<lparr>y_follow := (y_follow st)(i := v)\<rparr>)"

fun add_to :: "ycell \<Rightarrow> string list \<Rightarrow> ystate \<Rightarrow> ystate" where
  "add_to c [] st = st"
| "add_to c (x # xs) st =
     add_to c xs (if x \<notin> set (cell_get st c) then changed (cell_set c (cell_get st c @ [x]) st) else st)"

definition equate :: "ycell \<Rightarrow> ycell \<Rightarrow> ystate \<Rightarrow> ystate" where
  "equate a b st = (let st = add_to a (cell_get st b) st in add_to b (cell_get st a) st)"

section \<open>Nodes that accept the empty sequence\<close>

definition set_eps :: "nat \<Rightarrow> bool \<Rightarrow> ystate \<Rightarrow> ystate" where
  "set_eps i b st = st \<lparr>y_eps := (y_eps st)(i := b)\<rparr>"

text \<open>What the \<^verbatim>\<open>setup\<close> methods do after the \<^verbatim>\<open>setup\<close> of the children, class by class.\<close>

definition eval_setup :: "nat \<Rightarrow> ystate \<Rightarrow> ystate" where
  "eval_setup i st = (if \<not> y_eps st i then changed (set_eps i True st) else st)"

definition nonterminal_setup :: "grules \<Rightarrow> nat \<Rightarrow> string \<Rightarrow> ystate \<Rightarrow> ystate" where
  "nonterminal_setup rules i n st =
     (case map_of rules n of
        Some target \<Rightarrow>
          if y_eps st i \<noteq> y_eps st (node_id target) then changed (set_eps i (y_eps st (node_id target)) st) else st
      | None \<Rightarrow> st \<lparr>y_err := y_err st @ [''Error: no rule <'' @ n @ ''>'']\<rparr>)"

definition sequence_setup :: "nat \<Rightarrow> pnode list \<Rightarrow> ystate \<Rightarrow> ystate" where
  "sequence_setup i cs st =
     (if \<not> y_eps st i \<and> (\<forall>c \<in> set cs. y_eps st (node_id c)) then changed (set_eps i True st) else st)"

fun choice_eps :: "nat \<Rightarrow> pnode list \<Rightarrow> ystate \<Rightarrow> ystate" where
  "choice_eps i [] st = st"
| "choice_eps i (c # cs) st = choice_eps i cs (if y_eps st (node_id c) then changed (set_eps i True st) else st)"

definition choice_setup :: "nat \<Rightarrow> pnode list \<Rightarrow> ystate \<Rightarrow> ystate" where
  "choice_setup i cs st = (if \<not> y_eps st i then choice_eps i cs st else st)"

definition option_setup :: "nat \<Rightarrow> ystate \<Rightarrow> ystate" where
  "option_setup i st = (if \<not> y_eps st i then changed (set_eps i True st) else st)"

definition plus_setup :: "nat \<Rightarrow> nat \<Rightarrow> ystate \<Rightarrow> ystate" where
  "plus_setup i j st = (if y_eps st i \<noteq> y_eps st j then changed (set_eps i (y_eps st j) st) else st)"

definition star_setup :: "nat \<Rightarrow> ystate \<Rightarrow> ystate" where
  "star_setup i st = (if \<not> y_eps st i then changed (set_eps i True st) else st)"

fun node_setup :: "grules \<Rightarrow> pnode \<Rightarrow> ystate \<Rightarrow> ystate" and setups :: "grules \<Rightarrow> pnode list \<Rightarrow> ystate \<Rightarrow> ystate" where
  "node_setup rules (Terminal i r t) st = st"
| "node_setup rules (Eval i r e) st = eval_setup i st"
| "node_setup rules (NonTerminal i r n a) st = nonterminal_setup rules i n st"
| "node_setup rules (Sequence i r cs) st = sequence_setup i cs (setups rules cs st)"
| "node_setup rules (Choice i r cs) st = choice_setup i cs (setups rules cs st)"
| "node_setup rules (Option i r c) st = option_setup i (node_setup rules c st)"
| "node_setup rules (Plus i r c) st = plus_setup i (node_id c) (node_setup rules c st)"
| "node_setup rules (Star i r c) st = star_setup i (node_setup rules c st)"
| "setups rules [] st = st"
| "setups rules (c # cs) st = setups rules cs (node_setup rules c st)"

section \<open>First and follow sets\<close>

definition node_update :: "nat \<Rightarrow> ystate \<Rightarrow> ystate" where
  "node_update i st = (if y_eps st i then add_to (First i) (y_follow st i) st else st)"

text \<open>The target of a nonterminal, the node itself if there is no such rule.\<close>

definition target_id :: "grules \<Rightarrow> string \<Rightarrow> nat \<Rightarrow> nat" where
  "target_id rules n i = (case map_of rules n of Some target \<Rightarrow> node_id target | None \<Rightarrow> i)"

text \<open>The loop of \<^verbatim>\<open>Sequence.update\<close> over the children; \<open>nx\<close> is the list that follows a child.\<close>

fun seq_links :: "nat \<Rightarrow> bool \<Rightarrow> pnode list \<Rightarrow> ystate \<Rightarrow> ystate" where
  "seq_links i nul [] st = st"
| "seq_links i nul (g # gs) st =
     (let st = (if nul then add_to (First i) (y_first st (node_id g)) st else st);
          nx = (case gs of [] \<Rightarrow> Follow i | g' # _ \<Rightarrow> First (node_id g'))
      in seq_links i (nul \<and> y_eps st (node_id g)) gs (add_to (Follow (node_id g)) (cell_get st nx) st))"

fun choice_up :: "nat \<Rightarrow> pnode list \<Rightarrow> ystate \<Rightarrow> ystate" where
  "choice_up i [] st = st"
| "choice_up i (g # gs) st =
     (let st = add_to (First i) (y_first st (node_id g)) st
      in choice_up i gs (add_to (Follow i) (y_follow st (node_id g)) st))"

fun choice_down :: "nat \<Rightarrow> pnode list \<Rightarrow> ystate \<Rightarrow> ystate" where
  "choice_down i [] st = st"
| "choice_down i (g # gs) st = choice_down i gs (add_to (Follow (node_id g)) (y_follow st i) st)"

text \<open>What the \<^verbatim>\<open>update\<close> methods do around the \<^verbatim>\<open>update\<close> of the children, class by class.\<close>

definition terminal_update :: "nat \<Rightarrow> string \<Rightarrow> ystate \<Rightarrow> ystate" where
  "terminal_update i t st =
     (let st = node_update i st in if y_first st i \<noteq> [t] then changed (cell_set (First i) [t] st) else st)"

definition nonterminal_update :: "nat \<Rightarrow> nat \<Rightarrow> ystate \<Rightarrow> ystate" where
  "nonterminal_update i j st = equate (Follow i) (Follow j) (equate (First i) (First j) (node_update i st))"

definition sequence_update :: "nat \<Rightarrow> pnode list \<Rightarrow> ystate \<Rightarrow> ystate" where
  "sequence_update i cs st =
     (let st = seq_links i True cs st in
      if cs \<noteq> [] then add_to (Follow i) (y_follow st (node_id (last cs))) st else st)"

definition choice_update :: "nat \<Rightarrow> pnode list \<Rightarrow> ystate \<Rightarrow> ystate" where
  "choice_update i cs st = node_update i (choice_down i cs (choice_up i cs st))"

definition wrapper_update :: "nat \<Rightarrow> nat \<Rightarrow> ystate \<Rightarrow> ystate" where
  "wrapper_update i j st = equate (Follow i) (Follow j) (add_to (First i) (y_first st j) st)"

definition plus_update :: "nat \<Rightarrow> nat \<Rightarrow> ystate \<Rightarrow> ystate" where
  "plus_update i j st = (let st = wrapper_update i j st in add_to (Follow j) (y_first st j) st)"

definition star_update :: "nat \<Rightarrow> nat \<Rightarrow> ystate \<Rightarrow> ystate" where
  "star_update i j st = (let st = wrapper_update i j st in add_to (Follow j) (y_first st j) st)"

fun update :: "grules \<Rightarrow> pnode \<Rightarrow> ystate \<Rightarrow> ystate" and updates :: "grules \<Rightarrow> pnode list \<Rightarrow> ystate \<Rightarrow> ystate" where
  "update rules (Terminal i r t) st = terminal_update i t st"
| "update rules (Eval i r e) st = node_update i st"
| "update rules (NonTerminal i r n a) st = nonterminal_update i (target_id rules n i) st"
| "update rules (Sequence i r cs) st = sequence_update i cs (updates rules cs (node_update i st))"
| "update rules (Choice i r cs) st = choice_update i cs (updates rules cs (node_update i st))"
| "update rules (Option i r c) st = wrapper_update i (node_id c) (update rules c (node_update i st))"
| "update rules (Plus i r c) st = plus_update i (node_id c) (update rules c (node_update i st))"
| "update rules (Star i r c) st = star_update i (node_id c) (update rules c (node_update i st))"
| "updates rules [] st = st"
| "updates rules (c # cs) st = updates rules cs (update rules c st)"

section \<open>The main loop\<close>

fun run_rounds :: "(ystate \<Rightarrow> ystate) \<Rightarrow> nat \<Rightarrow> ystate \<Rightarrow> ystate option" where
  "run_rounds f 0 st = None"
| "run_rounds f (Suc fuel) st =
     (let st = f st in if change_count st = 0 then Some st else run_rounds f fuel (st \<lparr>change_count := 0\<rparr>))"

text \<open>The nodes of the goals, in order; \<^verbatim>\<open>rules\<close> has an entry for every goal.\<close>

definition goal_nodes :: "grules \<Rightarrow> string list \<Rightarrow> pnode list" where
  "goal_nodes rules goals = List.map_filter (map_of rules) goals"

text \<open>\<open>None\<close> is no end within the fuel.\<close>

definition calculate :: "nat \<Rightarrow> grules \<Rightarrow> string list \<Rightarrow> ystate \<Rightarrow> ystate option" where
  "calculate fuel rules goals st =
     (case run_rounds (setups rules (goal_nodes rules goals)) fuel st of
        None \<Rightarrow> None
      | Some st \<Rightarrow> run_rounds (updates rules (goal_nodes rules goals)) fuel st)"

end
