(* ===== verification/Yapps_Output.thy ===== *)
theory Yapps_Output
  imports Yapps_Parsetree
begin

text \<open>
  \<^verbatim>\<open>src/rrr/pylib/yapps/parsetree.py\<close>, second half: the object \<^verbatim>\<open>Generator\<close>, the tests on the next token, and the text of the
  generated parser.  What a method writes is the text added to the output file and the lines added to the standard error.
  A test is kept as a value of \<open>ptest\<close> until it is written, so that its meaning for a token can be stated.
\<close>

section \<open>Generator\<close>

type_synonym token_def = "string \<times> string \<times> string option"   \<comment> \<open>name, regular expression, statement\<close>

record generator =
  g_name :: string
  g_options :: "(string \<times> bool) list"
  g_preparser :: string
  g_postparser :: "string option"
  g_tokens :: "(string \<times> string) list"
  g_ignore :: "(string \<times> string option) list"
  g_terminals :: "string list"
  g_rules :: grules
  g_params :: "(string \<times> string) list"
  g_goals :: "string list"

definition add_token :: "token_def \<Rightarrow> generator \<times> string list \<Rightarrow> generator \<times> string list" where
  "add_token d gw =
     (case (d, gw) of ((n, t, s), (g, warns)) \<Rightarrow>
        let g = (if n = ''#ignore'' then g \<lparr>g_ignore := AList.update t s (g_ignore g)\<rparr> else g);
            n = (if n = ''#ignore'' then t else n);
            warns = (case map_of (g_tokens g) n of
                       Some t' \<Rightarrow> if t' \<noteq> t then warns @ [''Warning: token '' @ n @ '' defined more than once.''] else warns
                     | None \<Rightarrow> warns)
        in (g \<lparr>g_tokens := AList.update n t (g_tokens g), g_terminals := g_terminals g @ [n]\<rparr>, warns))"

definition add_rule :: "string \<times> string \<times> pnode \<Rightarrow> generator \<Rightarrow> generator" where
  "add_rule d g =
     (case d of (n, p, r) \<Rightarrow>
        g \<lparr>g_params := AList.update n p (g_params g), g_rules := AList.update n r (g_rules g), g_goals := g_goals g @ [n]\<rparr>)"

definition new_generator :: "string \<Rightarrow> (string \<times> bool) list \<Rightarrow> token_def list \<Rightarrow> (string \<times> string \<times> pnode) list \<Rightarrow> generator \<times> string list" where
  "new_generator name options tokens rules =
     (let g = \<lparr>g_name = name, g_options = options, g_preparser = [], g_postparser = None, g_tokens = [], g_ignore = [],
               g_terminals = [], g_rules = [], g_params = [], g_goals = []\<rparr>;
          (g, warns) = fold add_token tokens (g, [])
      in (fold add_rule rules g, warns))"

definition has_option :: "generator \<Rightarrow> string \<Rightarrow> bool" where
  "has_option g name = (case map_of (g_options g) name of Some b \<Rightarrow> b | None \<Rightarrow> False)"

definition non_ignored_tokens :: "generator \<Rightarrow> string list" where
  "non_ignored_tokens g = filter (\<lambda>x. x \<notin> fst ` set (g_ignore g)) (g_terminals g)"

abbreviation insensitive :: "generator \<Rightarrow> bool" where
  "insensitive g \<equiv> has_option g ''context-insensitive-scanner''"

section \<open>Python literals\<close>

definition repr_hex :: "nat \<Rightarrow> char" where
  "repr_hex n = ''0123456789abcdef'' ! n"

definition repr_char :: "char \<Rightarrow> char \<Rightarrow> string" where
  "repr_char q c =
     (if c = q \<or> c = CHR 0x5C then [CHR 0x5C, c]
      else if c = CHR 0x09 then [CHR 0x5C, CHR ''t'']
      else if c = CHR 0x0A then [CHR 0x5C, CHR ''n'']
      else if c = CHR 0x0D then [CHR 0x5C, CHR ''r'']
      else
        let n = of_char c :: nat in
        if n < 32 \<or> 127 \<le> n then [CHR 0x5C, CHR ''x'', repr_hex (n div 16), repr_hex (n mod 16)] else [c])"

definition str_repr :: "string \<Rightarrow> string" where
  "str_repr s =
     (let q = (if CHR 0x27 \<in> set s \<and> CHR 0x22 \<notin> set s then CHR 0x22 else CHR 0x27)
      in q # concat (map (repr_char q) s) @ [q])"

definition list_items :: "string list \<Rightarrow> string" where
  "list_items xs = py_join '', '' (map str_repr xs)"

definition list_repr :: "string list \<Rightarrow> string" where
  "list_repr xs = ''['' @ list_items xs @ '']''"

section \<open>Tests on the next token\<close>

datatype ptest = Never | Always | Is string | IsNot string | In "string list" | NotIn "string list"

fun holds :: "ptest \<Rightarrow> string \<Rightarrow> bool" where
  "holds Never v = False"
| "holds Always v = True"
| "holds (Is x) v \<longleftrightarrow> v = x"
| "holds (IsNot x) v \<longleftrightarrow> v \<noteq> x"
| "holds (In xs) v \<longleftrightarrow> v \<in> set xs"
| "holds (NotIn xs) v \<longleftrightarrow> v \<notin> set xs"

fun test_text :: "string \<Rightarrow> ptest \<Rightarrow> string" where
  "test_text e Never = ''0''"
| "test_text e Always = ''1''"
| "test_text e (Is x) = e @ '' == '' @ str_repr x"
| "test_text e (IsNot x) = e @ '' != '' @ str_repr x"
| "test_text e (In xs) = e @ '' in '' @ list_repr xs"
| "test_text e (NotIn xs) = e @ '' not in '' @ list_repr xs"

definition not_in_test :: "string list \<Rightarrow> string list \<Rightarrow> ptest" where
  "not_in_test full xs =
     (if xs = [] then Always else if length xs = 1 then IsNot (xs ! 0) else NotIn xs)"

definition in_test :: "string list \<Rightarrow> string list \<Rightarrow> ptest" where
  "in_test full xs =
     (if xs = [] then Never
      else if length xs = 1 then Is (xs ! 0)
      else if full \<noteq> [] \<and> length full div 2 < length xs then not_in_test full (filter (\<lambda>x. x \<notin> set xs) full)
      else In xs)"

definition peek_call :: "generator \<Rightarrow> string list \<Rightarrow> string" where
  "peek_call g a =
     (let a_set = list_items a;
          a_set = (if equal_set a (non_ignored_tokens g) then [] else a_set);
          a_set = (if insensitive g then [] else a_set);
          a_set = (if a_set \<noteq> [] then a_set @ '','' else a_set)
      in ''self._peek('' @ a_set @ '' context=_context)'')"

definition peek_test :: "generator \<Rightarrow> string list \<Rightarrow> string list \<Rightarrow> ptest \<times> string list" where
  "peek_test g a b =
     (if subset a b then (Always, a)
      else let a = (if insensitive g then non_ignored_tokens g else a) in (in_test a b, a))"

definition not_peek_test :: "generator \<Rightarrow> string list \<Rightarrow> string list \<Rightarrow> ptest \<times> string list" where
  "not_peek_test g a b = (if subset a b then Never else not_in_test a b, a)"

text \<open>The text of a test made of a peek at the tokens \<open>a\<close>.\<close>

definition peek_text :: "generator \<Rightarrow> ptest \<times> string list \<Rightarrow> string" where
  "peek_text g ta = (case ta of (t, a) \<Rightarrow> test_text (peek_call g a) t)"

section \<open>Text of the nodes\<close>

type_synonym out = "string \<times> string list"

definition wr :: "string \<Rightarrow> out" where
  "wr s = (s, [])"

definition warn :: "string list \<Rightarrow> out" where
  "warn ls = ([], ls)"

definition both :: "out \<Rightarrow> out \<Rightarrow> out" where
  "both a b = (fst a @ fst b, snd a @ snd b)"

definition outs :: "out list \<Rightarrow> out" where
  "outs os = foldr both os ([], [])"

abbreviation "INDENT \<equiv> ''    ''"

text \<open>\<^verbatim>\<open>[a-zA-Z_][a-zA-Z_0-9]*$\<close>; the dollar also matches before a final newline.\<close>

definition id_start :: "char \<Rightarrow> bool" where
  "id_start c \<longleftrightarrow> (let n = of_char c :: nat in 65 \<le> n \<and> n \<le> 90 \<or> 97 \<le> n \<and> n \<le> 122 \<or> n = 95)"

definition id_char :: "char \<Rightarrow> bool" where
  "id_char c \<longleftrightarrow> id_start c \<or> char_digit c \<noteq> None"

definition token_variable :: "string \<Rightarrow> bool" where
  "token_variable s \<longleftrightarrow>
     (case s of [] \<Rightarrow> False | c # cs \<Rightarrow> id_start c \<and> (let r = dropWhile id_char cs in r = [] \<or> r = [CHR 0x0A]))"

definition terminal_output :: "string \<Rightarrow> string \<Rightarrow> out" where
  "terminal_output indent token =
     wr (indent @ (if token_variable token then token @ '' = '' else []) @
         ''self._scan('' @ str_repr token @ '', context=_context)'' @ nl)"

definition eval_output :: "string \<Rightarrow> string \<Rightarrow> out" where
  "eval_output indent expr = wr (indent @ py_strip expr @ nl)"

definition nonterminal_output :: "string \<Rightarrow> string \<Rightarrow> string \<Rightarrow> out" where
  "nonterminal_output indent name args =
     (let args = (if args \<noteq> [] then args @ '', '' else args) @ ''_context''
      in wr (indent @ name @ '' = '' @ ''self.'' @ name @ ''('' @ args @ '')'' @ nl))"

text \<open>The check after an optional or repeated clause when the scanner may return any token.\<close>

definition after_check :: "generator \<Rightarrow> string \<Rightarrow> string list \<Rightarrow> string list \<Rightarrow> out" where
  "after_check g indent first follow =
     (if insensitive g then
        wr (indent @ ''if '' @ peek_text g (not_peek_test g (non_ignored_tokens g) follow) @ '':'' @ nl @
            indent @ INDENT @ ''raise runtime.SyntaxError(pos=self._scanner.get_pos(), context=_context, msg='' @ sq @ ''Need one of '' @ sq @
            '' + '' @ sq @ '', '' @ sq @ ''.join('' @ list_repr first @ ''))'' @ nl)
      else wr [])"

text \<open>The output of \<^verbatim>\<open>Option\<close>, \<^verbatim>\<open>Plus\<close> and \<^verbatim>\<open>Star\<close> for node \<open>i\<close> with child \<open>j\<close>, given that of the child as a function of the indentation.\<close>

definition option_output :: "generator \<Rightarrow> ystate \<Rightarrow> nat \<Rightarrow> nat \<Rightarrow> string \<Rightarrow> string \<Rightarrow> (string \<Rightarrow> out) \<Rightarrow> out" where
  "option_output g st i j rule indent child =
     outs [if y_eps st j then warn [''Warning in rule '' @ rule @ '': contents may be empty.''] else wr [],
           wr (indent @ ''if '' @ peek_text g (peek_test g (y_first st i) (y_first st j)) @ '':'' @ nl),
           child (indent @ INDENT),
           after_check g indent (y_first st i) (y_follow st i)]"

text \<open>\<^verbatim>\<open>gen.add_to\<close> on a list of its own; the counter of changes is no longer read.\<close>

fun add_list :: "string list \<Rightarrow> string list \<Rightarrow> string list" where
  "add_list xs [] = xs"
| "add_list xs (y # ys) = add_list (if y \<notin> set xs then xs @ [y] else xs) ys"

definition plus_output :: "generator \<Rightarrow> ystate \<Rightarrow> nat \<Rightarrow> nat \<Rightarrow> string \<Rightarrow> string \<Rightarrow> (string \<Rightarrow> out) \<Rightarrow> out" where
  "plus_output g st i j rule indent child =
     outs [if y_eps st j then
             warn [''Warning in rule '' @ rule @ '':'',
                   '' * The repeated pattern could be empty.  The resulting parser may not work properly.'']
           else wr [],
           wr (indent @ ''while 1:'' @ nl),
           child (indent @ INDENT),
           (let union = add_list (y_first st i) (y_follow st i)
            in wr (indent @ INDENT @ ''if '' @ peek_text g (not_peek_test g union (y_first st j)) @ '': break'' @ nl)),
           after_check g indent (y_first st i) (y_follow st i)]"

definition star_output :: "generator \<Rightarrow> ystate \<Rightarrow> nat \<Rightarrow> nat \<Rightarrow> string \<Rightarrow> string \<Rightarrow> (string \<Rightarrow> out) \<Rightarrow> out" where
  "star_output g st i j rule indent child =
     outs [if y_eps st j then
             warn [''Warning in rule '' @ rule @ '':'',
                   '' * The repeated pattern could be empty.  The resulting parser probably will not work properly.'']
           else wr [],
           wr (indent @ ''while '' @ peek_text g (peek_test g (y_follow st i) (y_first st j)) @ '':'' @ nl),
           child (indent @ INDENT),
           after_check g indent (y_first st i) (y_follow st i)]"

section \<open>Choices\<close>

text \<open>
  The loop over \<^verbatim>\<open>testset\<close> walks the list it removes from: the index moves on although the list has become shorter.
\<close>

function scan_testset :: "string list \<Rightarrow> nat \<Rightarrow> string list \<times> string list \<times> string list \<Rightarrow> string list \<times> string list \<times> string list" where
  "scan_testset seen k (testset, removed, unseen) =
     (if k < length testset then
        let x = testset ! k in
        if x \<in> set seen then scan_testset seen (k + 1) (remove1 x testset, removed @ [x], remove1 x unseen)
        else scan_testset seen (k + 1) (testset, removed, remove1 x unseen)
      else (testset, removed, unseen))"
  by pat_completeness auto
termination
  by (relation "measure (\<lambda>(seen, k, testset, removed, unseen). length testset - k)") (auto simp: length_remove1)

declare scan_testset.simps [simp del]

record choice_state =
  c_first_test :: bool        \<comment> \<open>the next test is written with \<^verbatim>\<open>if\<close>\<close>
  c_seen :: "string list"
  c_unseen :: "string list"

datatype branch = Plain | Otherwise "string list" | Guard ptest

text \<open>One round of the loop over the clauses: the branch that is written, if any, and the tokens that were removed.\<close>

definition choice_clause :: "string list \<Rightarrow> choice_state \<Rightarrow> branch option \<times> string list \<times> choice_state" where
  "choice_clause first cs =
     (let (testset, removed, unseen) = scan_testset (c_seen cs) 0 (first, [], c_unseen cs);
          cs' = cs \<lparr>c_seen := c_seen cs @ testset, c_unseen := unseen\<rparr>
      in if testset = [] then (None, removed, cs')
         else
           (Some (if unseen = [] then (if c_first_test cs then Plain else Otherwise testset) else Guard (in_test unseen testset)),
            removed, cs' \<lparr>c_first_test := False\<rparr>))"

definition choice_warning :: "string \<Rightarrow> string \<Rightarrow> bool \<Rightarrow> string list \<Rightarrow> out" where
  "choice_warning rule self none_left removed =
     (if removed = [] then wr []
      else warn [(if none_left then ''Error in rule '' else ''Warning in rule '') @ rule @ '':'', '' * '' @ self,
                 '' * These tokens could be matched by more than one clause:'', '' * '' @ py_join '' '' removed])"

definition branch_output :: "string \<Rightarrow> bool \<Rightarrow> branch \<Rightarrow> (string \<Rightarrow> out) \<Rightarrow> out" where
  "branch_output indent first_test b child =
     (case b of
        Plain \<Rightarrow> child indent
      | Otherwise testset \<Rightarrow>
          let t = test_text [] (in_test [] testset) in
          outs [wr (indent @ ''else:'' @ (if int (length t) < 70 - int (length indent) then '' #'' @ t else []) @ nl), child (indent @ INDENT)]
      | Guard t \<Rightarrow>
          outs [wr (indent @ (if first_test then ''if'' else ''elif'') @ '' '' @ test_text ''_token'' t @ '':'' @ nl), child (indent @ INDENT)])"

definition start_choice :: "generator \<Rightarrow> string list \<Rightarrow> choice_state" where
  "start_choice g first =
     \<lparr>c_first_test = True, c_seen = [], c_unseen = (if insensitive g then non_ignored_tokens g else first)\<rparr>"

definition choice_end :: "string \<Rightarrow> string \<Rightarrow> choice_state \<Rightarrow> out" where
  "choice_end indent rule cs =
     (if c_unseen cs \<noteq> [] then
        wr (indent @ ''else:'' @ nl @ indent @ INDENT @ ''raise runtime.SyntaxError(_token[0], '' @
            sq @ ''Could not match '' @ rule @ sq @ '')'' @ nl)
      else wr [])"

fun node_output :: "generator \<Rightarrow> ystate \<Rightarrow> string \<Rightarrow> pnode \<Rightarrow> out" and sequence_outputs :: "generator \<Rightarrow> ystate \<Rightarrow> string \<Rightarrow> pnode list \<Rightarrow> out" and choice_outputs :: "generator \<Rightarrow> ystate \<Rightarrow> string \<Rightarrow> string \<Rightarrow> string \<Rightarrow> choice_state \<Rightarrow> pnode list \<Rightarrow> out" where
  "node_output g st indent (Terminal i r t) = terminal_output indent t"
| "node_output g st indent (Eval i r e) = eval_output indent e"
| "node_output g st indent (NonTerminal i r n a) = nonterminal_output indent n a"
| "node_output g st indent (Sequence i r cs) =
     (if cs \<noteq> [] then sequence_outputs g st indent cs else wr (indent @ ''pass'' @ nl))"
| "node_output g st indent (Choice i r cs) =
     both (wr (indent @ ''_token = '' @ peek_call g (y_first st i) @ nl))
          (choice_outputs g st indent r (choice_str (map node_str cs)) (start_choice g (y_first st i)) cs)"
| "node_output g st indent (Option i r c) = option_output g st i (node_id c) r indent (\<lambda>ind. node_output g st ind c)"
| "node_output g st indent (Plus i r c) = plus_output g st i (node_id c) r indent (\<lambda>ind. node_output g st ind c)"
| "node_output g st indent (Star i r c) = star_output g st i (node_id c) r indent (\<lambda>ind. node_output g st ind c)"
| "sequence_outputs g st indent [] = wr []"
| "sequence_outputs g st indent (c # cs) = both (node_output g st indent c) (sequence_outputs g st indent cs)"
| "choice_outputs g st indent r self s [] = choice_end indent r s"
| "choice_outputs g st indent r self s (c # cs) =
     (case choice_clause (y_first st (node_id c)) s of
        (b, removed, s') \<Rightarrow>
          outs [choice_warning r self (b = None) removed,
                case b of None \<Rightarrow> wr [] | Some br \<Rightarrow> branch_output indent (c_first_test s) br (\<lambda>ind. node_output g st ind c),
                choice_outputs g st indent r self s' cs])"

section \<open>The generated module\<close>

text \<open>\<open>order\<close> is the order in which Python iterates over a dictionary.\<close>

definition repr_ignore :: "((string \<times> string option) list \<Rightarrow> (string \<times> string option) list) \<Rightarrow> generator \<Rightarrow> string" where
  "repr_ignore order g =
     ''{'' @ concat (map (\<lambda>(t, s). str_repr t @ '':'' @ (case s of None \<Rightarrow> ''None'' | Some x \<Rightarrow> x) @ '','') (order (g_ignore g))) @ ''}''"

definition scanner_text :: "((string \<times> string option) list \<Rightarrow> (string \<times> string option) list) \<Rightarrow> generator \<Rightarrow> string" where
  "scanner_text order g =
     ''class '' @ g_name g @ ''Scanner(runtime.Scanner):'' @ nl @ ''    patterns = ['' @ nl @
     concat (map (\<lambda>p. ''        ('' @ str_repr p @ '', re.compile('' @ str_repr (the (map_of (g_tokens g) p)) @ '')),'' @ nl) (g_terminals g)) @
     ''    ]'' @ nl @ ''    def __init__(self, str,*args,**kw):'' @ nl @
     ''        runtime.Scanner.__init__(self,None,'' @ repr_ignore order g @ '',str,*args,**kw)'' @ nl @ nl"

definition params_of :: "generator \<Rightarrow> string \<Rightarrow> string" where
  "params_of g r = (case map_of (g_params g) r of Some p \<Rightarrow> p | None \<Rightarrow> [])"

definition rule_output :: "generator \<Rightarrow> ystate \<Rightarrow> string \<Rightarrow> out" where
  "rule_output g st r =
     outs [wr (INDENT @ ''def '' @ r @ ''(self'' @ (if params_of g r \<noteq> [] then '', '' @ params_of g r else []) @ '', _parent=None):'' @ nl @
               INDENT @ INDENT @ ''_context = self.Context(_parent, self._scanner, '' @ str_repr r @ '', ['' @ params_of g r @ ''])'' @ nl),
           (case map_of (g_rules g) r of Some n \<Rightarrow> node_output g st (INDENT @ INDENT) n | None \<Rightarrow> wr []),
           wr nl]"

definition main_text :: string where
  "main_text =
     ''if __name__ == '' @ sq @ ''__main__'' @ sq @ '':'' @ nl @
     INDENT @ ''from sys import argv, stdin'' @ nl @
     INDENT @ ''if len(argv) >= 2:'' @ nl @
     INDENT @ INDENT @ ''if len(argv) >= 3:'' @ nl @
     INDENT @ INDENT @ INDENT @ ''f = open(argv[2],'' @ sq @ ''r'' @ sq @ '')'' @ nl @
     INDENT @ INDENT @ ''else:'' @ nl @
     INDENT @ INDENT @ INDENT @ ''f = stdin'' @ nl @
     INDENT @ INDENT @ ''print parse(argv[1], f.read())'' @ nl @
     INDENT @ ''else: print >>sys.stderr, '' @ sq @ ''Args:  <rule> [<filename>]'' @ sq @ nl"

definition generated_text :: "((string \<times> string option) list \<Rightarrow> (string \<times> string option) list) \<Rightarrow> generator \<Rightarrow> ystate \<Rightarrow> out" where
  "generated_text order g st =
     outs [wr (g_preparser g @ ''# Begin -- grammar generated by Yapps'' @ nl @ ''import sys, re'' @ nl @ ''from yapps import runtime'' @ nl @ nl @
               scanner_text order g @
               ''class '' @ g_name g @ ''(runtime.Parser):'' @ nl @ INDENT @ ''Context = runtime.Context'' @ nl),
           outs (map (rule_output g st) (g_goals g)),
           wr (nl @ ''def parse(rule, text):'' @ nl @
               ''    P = '' @ g_name g @ ''('' @ g_name g @ ''Scanner(text))'' @ nl @
               ''    return runtime.wrap_error_reporter(P, rule)'' @ nl @ nl),
           (case g_postparser g of
              Some post \<Rightarrow> wr (''# End -- grammar generated by Yapps'' @ nl @ post)
            | None \<Rightarrow> wr (main_text @ ''# End -- grammar generated by Yapps'' @ nl))]"

text \<open>\<open>None\<close> if the sets are not computed within the fuel.\<close>

definition generate_output :: "nat \<Rightarrow> ((string \<times> string option) list \<Rightarrow> (string \<times> string option) list) \<Rightarrow> generator \<Rightarrow> out option" where
  "generate_output fuel order g =
     map_option (\<lambda>st. both (warn (y_err st)) (generated_text order g st)) (calculate fuel (g_rules g) (g_goals g) new_ystate)"

section \<open>Dumps\<close>

fun class_name :: "pnode \<Rightarrow> string" where
  "class_name (Terminal _ _ _) = ''Terminal''"
| "class_name (Eval _ _ _) = ''Eval''"
| "class_name (NonTerminal _ _ _ _) = ''NonTerminal''"
| "class_name (Sequence _ _ _) = ''Sequence''"
| "class_name (Choice _ _ _) = ''Choice''"
| "class_name (Option _ _ _) = ''Option''"
| "class_name (Plus _ _ _) = ''Plus''"
| "class_name (Star _ _ _) = ''Star''"

definition node_lines :: "ystate \<Rightarrow> pnode \<Rightarrow> string list" where
  "node_lines st n =
     [''Rule '' @ node_str n @ '' of class '' @ class_name n,
      ''     FIRST: '' @ py_join '', '' (sort (y_first st (node_id n)) @ (if y_eps st (node_id n) then [''(null)''] else [])),
      ''    FOLLOW: '' @ py_join '', '' (sort (y_follow st (node_id n)))]"

function dump_queue :: "ystate \<Rightarrow> pnode list \<Rightarrow> string list" where
  "dump_queue st [] = []"
| "dump_queue st (n # queue) = node_lines st n @ dump_queue st (queue @ get_children n)"
  by pat_completeness auto
termination
proof (relation "measure (\<lambda>(st, queue). size_list size queue)", goal_cases)
  case (2 st n queue)
  show ?case by (cases n) auto
qed simp

definition dump_rule :: "generator \<Rightarrow> ystate \<Rightarrow> string \<Rightarrow> string list" where
  "dump_rule g st r =
     [''    _____'' @ replicate (length r) CHR ''_'',
      take 79 (''___/Rule '' @ r @ [CHR 0x5C] @ replicate 80 CHR ''_'')] @
     (case map_of (g_rules g) r of Some n \<Rightarrow> dump_queue st [n] | None \<Rightarrow> [])"

definition dump_information :: "nat \<Rightarrow> generator \<Rightarrow> (string list \<times> string list) option" where
  "dump_information fuel g =
     map_option (\<lambda>st. (concat (map (dump_rule g st) (g_goals g)), y_err st)) (calculate fuel (g_rules g) (g_goals g) new_ystate)"

end
