(* ===== verification/Yapps_Output_Correct.thy ===== *)
theory Yapps_Output_Correct
  imports Yapps_Output
begin

text \<open>
  The tests on the next token mean what their names say, and the chain of tests written for a choice selects the first
  clause that the token can start.
\<close>

section \<open>Tests\<close>

lemma holds_not_in_test: "holds (not_in_test full xs) v \<longleftrightarrow> v \<notin> set xs"
  by (auto simp: not_in_test_def length_Suc_conv)

lemma holds_in_test:
  assumes "v \<in> set full \<union> set xs"
  shows "holds (in_test full xs) v \<longleftrightarrow> v \<in> set xs"
proof (cases "length xs = 1")
  case True
  then show ?thesis by (auto simp: in_test_def length_Suc_conv)
next
  case False
  then show ?thesis using assms by (auto simp: in_test_def holds_not_in_test)
qed

lemma subset_iff_set [simp]: "subset a b \<longleftrightarrow> set a \<subseteq> set b"
  by (auto simp: subset_def)

text \<open>
  (C23) The tests on the next token: \<^verbatim>\<open>in_test\<close> decides membership in the set for every token of the set or of the full
  list, although it may test for the complement; \<^verbatim>\<open>peek_test\<close> and \<^verbatim>\<open>not_peek_test\<close> decide membership for every token
  the peek can return.
\<close>

theorem token_tests_correct:
  "(v \<in> set full \<union> set xs \<longrightarrow> holds (in_test full xs) v = (v \<in> set xs)) \<and>
   (v \<in> set a \<and> (insensitive g \<longrightarrow> v \<in> set (non_ignored_tokens g)) \<longrightarrow>
      holds (fst (peek_test g a b)) v = (v \<in> set b) \<and> holds (fst (not_peek_test g a b)) v = (v \<notin> set b))"
  by (auto simp: holds_in_test peek_test_def not_peek_test_def holds_not_in_test Let_def)

theorem token_tests_correct_witness:
  "holds (in_test [''1'', ''2'', ''3'', ''4'', ''5''] [''1'', ''2'', ''3'']) ''2'' \<and>
   in_test [''1'', ''2'', ''3'', ''4'', ''5''] [''1'', ''2'', ''3''] = NotIn [''4'', ''5''] \<and>
   \<not> holds (fst (not_peek_test (fst (new_generator ''G'' [] [] [])) [''A'', ''B''] [''B''])) ''B''"
  using token_tests_correct [of "''2''" "[''1'', ''2'', ''3'', ''4'', ''5'']" "[''1'', ''2'', ''3'']" "[]"]
    token_tests_correct [of "''B''" "[]" "[]" "[''A'', ''B'']" "fst (new_generator ''G'' [] [] [])" "[''B'']"]
  by (simp add: in_test_def not_in_test_def new_generator_def has_option_def)

section \<open>Choices\<close>

text \<open>A token that no clause before has seen stays where it is.\<close>

lemma scan_testset_unseen:
  assumes "scan_testset seen k (testset, removed, unseen) = (testset', removed', unseen')" "v \<notin> set seen"
  shows "(v \<in> set testset' \<longleftrightarrow> v \<in> set testset) \<and> (v \<in> set unseen \<longrightarrow> v \<in> set unseen' \<or> v \<in> set testset')"
  using assms
proof (induction seen k "(testset, removed, unseen)" arbitrary: testset removed unseen rule: scan_testset.induct)
  case (1 seen k testset removed unseen)
  show ?case
  proof (cases "k < length testset")
    case False
    then show ?thesis using 1(3) by (simp add: scan_testset.simps)
  next
    case k: True
    define x where "x = testset ! k"
    then have x: "x \<in> set testset" using k by simp
    show ?thesis
    proof (cases "x \<in> set seen")
      case True
      then have "scan_testset seen (k + 1) (remove1 x testset, removed @ [x], remove1 x unseen) = (testset', removed', unseen')"
        using 1(3) k by (simp add: scan_testset.simps x_def Let_def)
      moreover have "v \<noteq> x" using True 1(4) by auto
      ultimately show ?thesis
        using 1(1) [OF k x_def True] 1(4) by auto
    next
      case False
      then have "scan_testset seen (k + 1) (testset, removed, remove1 x unseen) = (testset', removed', unseen')"
        using 1(3) k by (simp add: scan_testset.simps x_def Let_def)
      then show ?thesis
        using 1(2) [OF k x_def False] 1(4) x by (cases "v = x") auto
    qed
  qed
qed

text \<open>The branches written for clauses with the first sets \<open>fs\<close>, and the clause a token takes in the generated code.\<close>

fun choice_plan :: "string list list \<Rightarrow> choice_state \<Rightarrow> branch option list \<times> choice_state" where
  "choice_plan [] cs = ([], cs)"
| "choice_plan (f # fs) cs =
     (case choice_clause f cs of (b, _, cs') \<Rightarrow> (case choice_plan fs cs' of (bs, cs'') \<Rightarrow> (b # bs, cs'')))"

fun takes :: "branch option \<Rightarrow> string \<Rightarrow> bool" where
  "takes None v = False"
| "takes (Some (Guard t)) v = holds t v"
| "takes (Some _) v = True"

fun first_index :: "('a \<Rightarrow> bool) \<Rightarrow> 'a list \<Rightarrow> nat option" where
  "first_index P [] = None"
| "first_index P (x # xs) = (if P x then Some 0 else map_option Suc (first_index P xs))"

lemma first_index_None: "first_index P xs = None \<longleftrightarrow> (\<forall>x \<in> set xs. \<not> P x)"
  by (induction xs) auto

lemma choice_clause_takes:
  assumes clause: "choice_clause f cs = (b, removed, cs')" and v: "v \<in> set (c_unseen cs)" "v \<notin> set (c_seen cs)"
  shows "takes b v = (v \<in> set f) \<and> (v \<notin> set f \<longrightarrow> v \<in> set (c_unseen cs') \<and> v \<notin> set (c_seen cs'))"
proof -
  obtain testset rem unseen where scan: "scan_testset (c_seen cs) 0 (f, [], c_unseen cs) = (testset, rem, unseen)"
    by (cases "scan_testset (c_seen cs) 0 (f, [], c_unseen cs)") auto
  have t: "v \<in> set testset \<longleftrightarrow> v \<in> set f" and u: "v \<in> set unseen \<or> v \<in> set testset"
    using scan_testset_unseen [OF scan v(2)] v(1) by auto
  then have test: "holds (in_test unseen testset) v \<longleftrightarrow> v \<in> set f"
    using holds_in_test [of v unseen testset] by auto
  show ?thesis
  proof (cases "testset = []")
    case True
    then show ?thesis using clause t u v(2) by (auto simp: choice_clause_def scan)
  next
    case False
    show ?thesis
    proof (cases "unseen = []")
      case True
      then show ?thesis using clause t u False by (auto simp: choice_clause_def scan)
    next
      case unseen: False
      have "b = Some (Guard (in_test unseen testset))" "c_unseen cs' = unseen" "c_seen cs' = c_seen cs @ testset"
        using clause False unseen by (auto simp: choice_clause_def scan)
      then show ?thesis using test t u v(2) by auto
    qed
  qed
qed

lemma choice_plan_dispatch:
  assumes "choice_plan fs cs = (bs, cs')" "v \<in> set (c_unseen cs)" "v \<notin> set (c_seen cs)"
  shows "first_index (\<lambda>b. takes b v) bs = first_index (\<lambda>f. v \<in> set f) fs \<and>
    ((\<forall>f \<in> set fs. v \<notin> set f) \<longrightarrow> v \<in> set (c_unseen cs'))"
  using assms
proof (induction fs arbitrary: cs bs)
  case (Cons f fs)
  obtain b removed cs1 where clause: "choice_clause f cs = (b, removed, cs1)"
    by (cases "choice_clause f cs") auto
  obtain bs1 where rest: "choice_plan fs cs1 = (bs1, cs')" and bs: "bs = b # bs1"
    using Cons.prems(1) clause by (auto split: prod.splits)
  note step = choice_clause_takes [OF clause Cons.prems(2,3)]
  show ?case
  proof (cases "v \<in> set f")
    case True
    then show ?thesis using step bs by simp
  next
    case False
    then show ?thesis using step Cons.IH [OF rest] bs by simp
  qed
qed simp

text \<open>
  The written branches as a Python statement, if they are one: conditions with the numbers of their clauses, and what
  happens if none holds.  An \<^verbatim>\<open>else\<close> needs an \<^verbatim>\<open>if\<close> before it, only one may follow the tests, and a clause written
  without a test stands alone.  Whatever else is written does not compile.
\<close>

datatype outcome = Runs nat | Raises | Falls_Through

type_synonym chain = "(ptest \<times> nat) list \<times> outcome"

fun elif_chain :: "nat \<Rightarrow> branch option list \<Rightarrow> bool \<Rightarrow> chain option" where
  "elif_chain k [] final = Some ([], if final then Raises else Falls_Through)"
| "elif_chain k (None # bs) final = elif_chain (Suc k) bs final"
| "elif_chain k (Some (Guard t) # bs) final = map_option (\<lambda>(es, e). ((t, k) # es, e)) (elif_chain (Suc k) bs final)"
| "elif_chain k (Some (Otherwise xs) # bs) final = (if set bs \<subseteq> {None} \<and> \<not> final then Some ([], Runs k) else None)"
| "elif_chain k (Some Plain # bs) final = None"

fun if_chain :: "nat \<Rightarrow> branch option list \<Rightarrow> bool \<Rightarrow> chain option" where
  "if_chain k [] final = (if final then None else Some ([], Falls_Through))"
| "if_chain k (None # bs) final = if_chain (Suc k) bs final"
| "if_chain k (Some (Guard t) # bs) final = map_option (\<lambda>(es, e). ((t, k) # es, e)) (elif_chain (Suc k) bs final)"
| "if_chain k (Some (Otherwise xs) # bs) final = None"
| "if_chain k (Some Plain # bs) final = (if set bs \<subseteq> {None} \<and> \<not> final then Some ([], Runs k) else None)"

definition run_chain :: "chain \<Rightarrow> string \<Rightarrow> outcome" where
  "run_chain ch v = (case ch of (es, e) \<Rightarrow> case find (\<lambda>(t, k). holds t v) es of Some (t, k) \<Rightarrow> Runs k | None \<Rightarrow> e)"

definition dispatched :: "nat \<Rightarrow> nat option \<Rightarrow> bool \<Rightarrow> outcome" where
  "dispatched k i final = (case i of Some n \<Rightarrow> Runs (k + n) | None \<Rightarrow> if final then Raises else Falls_Through)"

lemma dispatched_simps [simp]:
  "dispatched k (Some 0) final = Runs k" "dispatched k (map_option Suc i) final = dispatched (Suc k) i final"
  "dispatched k None final = (if final then Raises else Falls_Through)"
  by (simp_all add: dispatched_def split: option.split)

lemma run_elif_chain:
  "elif_chain k bs final = Some ch \<Longrightarrow> run_chain ch v = dispatched k (first_index (\<lambda>b. takes b v) bs) final"
proof (induction k bs final arbitrary: ch rule: elif_chain.induct)
  case (3 k t bs final)
  then obtain es e where "elif_chain (Suc k) bs final = Some (es, e)" "ch = ((t, k) # es, e)" by auto
  then show ?case using "3.IH" by (simp add: run_chain_def)
qed (auto simp: run_chain_def split: if_splits)

lemma run_if_chain:
  "if_chain k bs final = Some ch \<Longrightarrow> run_chain ch v = dispatched k (first_index (\<lambda>b. takes b v) bs) final"
proof (induction k bs final arbitrary: ch rule: if_chain.induct)
  case (3 k t bs final)
  then obtain es e where "elif_chain (Suc k) bs final = Some (es, e)" "ch = ((t, k) # es, e)" by auto
  then show ?case using run_elif_chain [of "Suc k" bs final "(es, e)" v] by (simp add: run_chain_def)
qed (auto simp: run_chain_def split: if_splits)

text \<open>The text of the branches, and that it is what \<^verbatim>\<open>Choice.output\<close> writes between the assignment and the last \<^verbatim>\<open>else\<close>.\<close>

fun chain_text :: "string \<Rightarrow> bool \<Rightarrow> (branch option \<times> (string \<Rightarrow> string)) list \<Rightarrow> string" where
  "chain_text indent first_test [] = []"
| "chain_text indent first_test ((None, clause) # xs) = chain_text indent first_test xs"
| "chain_text indent first_test ((Some b, clause) # xs) =
     fst (branch_output indent first_test b (\<lambda>ind. wr (clause ind))) @ chain_text indent False xs"

lemma branch_output_text:
  "fst (branch_output indent first_test b child) = fst (branch_output indent first_test b (\<lambda>ind. wr (fst (child ind))))"
  by (cases b) (simp_all add: branch_output_def outs_def both_def wr_def Let_def)

lemma choice_clause_first_test:
  "choice_clause f s = (b, removed, s') \<Longrightarrow> c_first_test s' \<longleftrightarrow> c_first_test s \<and> b = None"
  by (auto simp: choice_clause_def Let_def split: prod.splits if_splits)

lemma choice_outputs_text:
  "choice_plan (map (\<lambda>c. y_first st (node_id c)) cs) s = (bs, s') \<Longrightarrow>
   fst (choice_outputs g st indent r self s cs) =
     chain_text indent (c_first_test s) (zip bs (map (\<lambda>c ind. fst (node_output g st ind c)) cs)) @ fst (choice_end indent r s')"
proof (induction cs arbitrary: s bs)
  case (Cons c cs)
  obtain b removed s1 where clause: "choice_clause (y_first st (node_id c)) s = (b, removed, s1)"
    by (cases "choice_clause (y_first st (node_id c)) s") auto
  obtain bs1 where rest: "choice_plan (map (\<lambda>c. y_first st (node_id c)) cs) s1 = (bs1, s')" and bs: "bs = b # bs1"
    using Cons.prems clause by (auto split: prod.splits)
  have w: "fst (choice_warning r self none removed) = []" for none by (simp add: choice_warning_def warn_def wr_def)
  show ?case
    using Cons.IH [OF rest] choice_clause_first_test [OF clause]
    by (cases b) (simp_all add: clause bs w outs_def both_def wr_def
        branch_output_text [where child = "\<lambda>ind. node_output g st ind c"])
qed simp

text \<open>
  (C11) The code written for a choice, if the chain of its tests is a Python conditional (which it is at least when no token
  starts two of its clauses), is right for every token of its first set (for every token that is not ignored, if the scanner does not use the context): the text written is the assignment
  of the next token, the chain and its last branch, and in that chain the token runs the first clause whose first set
  contains it; if there is none, the last branch raises a syntax error.
\<close>

theorem choice_dispatch:
  assumes "choice_plan (map (\<lambda>c. y_first st (node_id c)) cs) (start_choice g (y_first st i)) = (bs, s)"
    and "if_chain 0 bs (c_unseen s \<noteq> []) = Some ch"
    and "v \<in> set (if insensitive g then non_ignored_tokens g else y_first st i)"
  shows "fst (node_output g st indent (Choice i r cs)) =
      indent @ ''_token = '' @ peek_call g (y_first st i) @ nl @
      chain_text indent True (zip bs (map (\<lambda>c ind. fst (node_output g st ind c)) cs)) @
      (if c_unseen s \<noteq> [] then
         indent @ ''else:'' @ nl @ indent @ INDENT @ ''raise runtime.SyntaxError(_token[0], '' @
           sq @ ''Could not match '' @ r @ sq @ '')'' @ nl
       else []) \<and>
    run_chain ch v =
      (case first_index (\<lambda>c. v \<in> set (y_first st (node_id c))) cs of Some k \<Rightarrow> Runs k | None \<Rightarrow> Raises)"
proof -
  let ?fs = "map (\<lambda>c. y_first st (node_id c)) cs"
  have "v \<in> set (c_unseen (start_choice g (y_first st i)))" "v \<notin> set (c_seen (start_choice g (y_first st i)))"
    using assms(3) by (simp_all add: start_choice_def)
  note d = choice_plan_dispatch [OF assms(1) this]
  have i: "first_index (\<lambda>f. v \<in> set f) (map (\<lambda>c. y_first st (node_id c)) xs) = first_index (\<lambda>c. v \<in> set (y_first st (node_id c))) xs" for xs
    by (induction xs) simp_all
  have "run_chain ch v = dispatched 0 (first_index (\<lambda>f. v \<in> set f) ?fs) (c_unseen s \<noteq> [])"
    using run_if_chain [OF assms(2), of v] d by simp
  also have "\<dots> = (case first_index (\<lambda>f. v \<in> set f) ?fs of Some k \<Rightarrow> Runs k | None \<Rightarrow> Raises)"
    using d first_index_None [of "\<lambda>f. v \<in> set f" ?fs] by (auto simp: dispatched_def split: option.split)
  finally show ?thesis
    using choice_outputs_text [OF assms(1)] unfolding i
    by (simp add: both_def wr_def choice_end_def start_choice_def)
qed

text \<open>A choice between three clauses.\<close>

definition demo_plan :: "branch option list \<times> choice_state" where
  "demo_plan = choice_plan [[''A'', ''B''], [''C''], [''D'']] (start_choice (fst (new_generator ''G'' [] [] [])) [''A'', ''B'', ''C'', ''D''])"

lemma demo_plan_eq:
  "demo_plan = ([Some (Guard (NotIn [''C'', ''D''])), Some (Guard (Is ''C'')), Some (Otherwise [''D''])],
     \<lparr>c_first_test = False, c_seen = [''A'', ''B'', ''C'', ''D''], c_unseen = []\<rparr>)"
  by (simp add: demo_plan_def start_choice_def new_generator_def has_option_def choice_clause_def scan_testset.simps in_test_def
      not_in_test_def)

text \<open>The same choice as nodes of a grammar, with the first sets that \<^verbatim>\<open>update\<close> would find.\<close>

definition demo_choice_state :: ystate where
  "demo_choice_state = new_ystate \<lparr>y_first := (\<lambda>_. [])(0 := [''A'', ''B'', ''C'', ''D''], 1 := [''A'', ''B''], 2 := [''C''], 3 := [''D''])\<rparr>"

theorem choice_dispatch_witness:
  "\<exists>ch. if_chain 0 (fst demo_plan) (c_unseen (snd demo_plan) \<noteq> []) = Some ch \<and> run_chain ch ''D'' = Runs 2"
proof -
  let ?g = "fst (new_generator ''G'' [] [] [])"
  let ?cs = "[NonTerminal 1 ''r'' ''ab'' [], Terminal 2 ''r'' ''C'', Terminal 3 ''r'' ''D'']"
  have plan: "choice_plan (map (\<lambda>c. y_first demo_choice_state (node_id c)) ?cs) (start_choice ?g (y_first demo_choice_state 0)) =
    (fst demo_plan, snd demo_plan)"
    by (simp add: demo_plan_def demo_choice_state_def del: choice_plan.simps)
  obtain ch where ch: "if_chain 0 (fst demo_plan) (c_unseen (snd demo_plan) \<noteq> []) = Some ch" by (simp add: demo_plan_eq)
  have "''D'' \<in> set (if insensitive ?g then non_ignored_tokens ?g else y_first demo_choice_state 0)"
    by (simp add: new_generator_def has_option_def demo_choice_state_def)
  from choice_dispatch [OF plan ch this, THEN conjunct2] ch show ?thesis
    by (simp add: demo_choice_state_def)
qed

text \<open>Clauses that share no token: nothing is reported, and a branch without test is the last one.\<close>

fun else_last :: "branch option list \<Rightarrow> bool" where
  "else_last [] = True"
| "else_last (None # bs) = else_last bs"
| "else_last (Some (Guard t) # bs) = else_last bs"
| "else_last (Some _ # bs) = (set bs \<subseteq> {None})"

lemma scan_testset_disjoint:
  "set testset \<inter> set seen = {} \<Longrightarrow>
   \<exists>unseen'. scan_testset seen k (testset, removed, unseen) = (testset, removed, unseen') \<and> set unseen - set testset \<subseteq> set unseen'"
proof (induction "length testset - k" arbitrary: k unseen)
  case 0
  then show ?case by (auto simp: scan_testset.simps)
next
  case (Suc m)
  define x where "x = testset ! k"
  have k: "k < length testset" and m: "m = length testset - (k + 1)" using Suc.hyps(2) by simp_all
  then have x: "x \<in> set testset" by (simp add: x_def)
  then have new: "x \<notin> set seen" using Suc.prems by auto
  obtain unseen' where u: "scan_testset seen (k + 1) (testset, removed, remove1 x unseen) = (testset, removed, unseen')"
    "set (remove1 x unseen) - set testset \<subseteq> set unseen'"
    using Suc.hyps(1) [OF m Suc.prems, of "remove1 x unseen"] by blast
  have "set unseen - set testset \<subseteq> set (remove1 x unseen) - set testset"
    using x by (metis Diff_iff in_set_remove1 subsetI)
  then show ?case
    using u k new by (auto simp: scan_testset.simps [of seen k] x_def [symmetric])
qed

lemma choice_clause_disjoint:
  assumes "set f \<inter> set (c_seen cs) = {}"
  obtains b cs' where "choice_clause f cs = (b, [], cs')" "c_seen cs' = c_seen cs @ f" "set (c_unseen cs) - set f \<subseteq> set (c_unseen cs')"
    "f = [] \<Longrightarrow> b = None" "c_unseen cs' \<noteq> [] \<Longrightarrow> b = None \<or> (\<exists>t. b = Some (Guard t))"
proof -
  obtain unseen where scan: "scan_testset (c_seen cs) 0 (f, [], c_unseen cs) = (f, [], unseen)"
    "set (c_unseen cs) - set f \<subseteq> set unseen"
    using scan_testset_disjoint [OF assms] by blast
  show thesis
  proof (cases "f = []")
    case True
    then show thesis using scan by (intro that [of None "cs \<lparr>c_unseen := unseen\<rparr>"]) (simp_all add: choice_clause_def)
  next
    case False
    let ?b = "if unseen = [] then (if c_first_test cs then Plain else Otherwise f) else Guard (in_test unseen f)"
    show thesis
      using scan False
      by (intro that [of "Some ?b" "cs \<lparr>c_seen := c_seen cs @ f, c_unseen := unseen, c_first_test := False\<rparr>"])
        (simp_all add: choice_clause_def)
  qed
qed

lemma empty_clauses: "set fs \<subseteq> {[]} \<Longrightarrow> set (fst (choice_plan fs cs)) \<subseteq> {None}"
proof (induction fs arbitrary: cs)
  case (Cons f fs)
  obtain b cs' where "choice_clause f cs = (b, [], cs')" "b = None"
    using Cons.prems choice_clause_disjoint [of f cs] by force
  then show ?case
    using Cons.IH [of cs'] Cons.prems by (auto split: prod.splits)
qed simp

fun apart :: "string list list \<Rightarrow> bool" where
  "apart [] = True"
| "apart (f # fs) \<longleftrightarrow> set f \<inter> set (concat fs) = {} \<and> apart fs"

lemma choice_plan_else_last:
  "set (concat fs) \<subseteq> set (c_unseen cs) \<Longrightarrow> set (concat fs) \<inter> set (c_seen cs) = {} \<Longrightarrow> apart fs \<Longrightarrow>
   else_last (fst (choice_plan fs cs))"
proof (induction fs arbitrary: cs)
  case (Cons f fs)
  have "set f \<inter> set (c_seen cs) = {}" using Cons.prems(2) by auto
  then obtain b cs' where clause: "choice_clause f cs = (b, [], cs')" "c_seen cs' = c_seen cs @ f"
    "set (c_unseen cs) - set f \<subseteq> set (c_unseen cs')" "c_unseen cs' \<noteq> [] \<Longrightarrow> b = None \<or> (\<exists>t. b = Some (Guard t))"
    by (rule choice_clause_disjoint) blast
  have plan: "fst (choice_plan (f # fs) cs) = b # fst (choice_plan fs cs')"
    by (simp add: clause(1) split: prod.splits)
  have "set (concat fs) \<subseteq> set (c_unseen cs) - set f"
    using Cons.prems(1,3) by (simp add: subset_eq disjoint_iff) blast
  then have sub: "set (concat fs) \<subseteq> set (c_unseen cs')"
    using clause(3) by (rule subset_trans)
  have dis: "set (concat fs) \<inter> set (c_seen cs') = {}"
    using Cons.prems clause(2) by (auto simp: disjoint_iff)
  show ?case
  proof (cases "c_unseen cs' = []")
    case True
    then have "set fs \<subseteq> {[]}" using sub by auto
    then have "set (fst (choice_plan fs cs')) \<subseteq> {None}" by (rule empty_clauses)
    moreover have "else_last bs" if "set bs \<subseteq> {None}" for bs
      using that by (induction bs) auto
    ultimately show ?thesis
      unfolding plan by (cases b; cases "the b") auto
  next
    case False
    then show ?thesis
      using clause(4) Cons.IH [OF sub dis] Cons.prems(3) unfolding plan by auto
  qed
qed simp

text \<open>Then the chain is a Python conditional, if a test is written at all.\<close>

lemma scan_testset_nothing_unseen:
  assumes "scan_testset seen k (testset, removed, []) = (testset', removed', unseen')"
  shows "unseen' = []"
proof -
  have "snd (snd (scan_testset seen k (testset, removed, unseen))) = []" if "unseen = []" for unseen
    using that
  proof (induction seen k "(testset, removed, unseen)" arbitrary: testset removed unseen rule: scan_testset.induct)
    case (1 seen k testset removed unseen)
    then show ?case by (simp add: scan_testset.simps [of seen k] Let_def)
  qed
  then show ?thesis using assms by simp
qed

lemma choice_clause_shape:
  assumes "choice_clause f cs = (b, removed, cs')"
  shows "(c_unseen cs = [] \<longrightarrow> c_unseen cs' = []) \<and> (b = Some Plain \<longrightarrow> c_first_test cs) \<and>
    (\<forall>xs. b = Some (Otherwise xs) \<longrightarrow> \<not> c_first_test cs) \<and> (b \<noteq> None \<longrightarrow> (\<exists>t. b = Some (Guard t)) \<or> c_unseen cs' = [])"
  using assms by (auto simp: choice_clause_def Let_def split: prod.splits if_splits dest: scan_testset_nothing_unseen)

lemma choice_plan_unseen: "choice_plan fs cs = (bs, cs') \<Longrightarrow> c_unseen cs = [] \<Longrightarrow> c_unseen cs' = []"
proof (induction fs arbitrary: cs bs)
  case (Cons f fs)
  then show ?case using choice_clause_shape by (auto split: prod.splits)
qed simp

lemma elif_chain_ok:
  "choice_plan fs cs = (bs, cs') \<Longrightarrow> \<not> c_first_test cs \<Longrightarrow> else_last bs \<Longrightarrow> \<exists>ch. elif_chain k bs (c_unseen cs' \<noteq> []) = Some ch"
proof (induction fs arbitrary: cs bs k)
  case (Cons f fs)
  obtain b removed cs1 where clause: "choice_clause f cs = (b, removed, cs1)" by (cases "choice_clause f cs") auto
  obtain bs1 where rest: "choice_plan fs cs1 = (bs1, cs')" and bs: "bs = b # bs1"
    using Cons.prems(1) clause by (auto split: prod.splits)
  note sh = choice_clause_shape [OF clause] and un = choice_plan_unseen [OF rest]
  have "\<not> c_first_test cs1" using choice_clause_first_test [OF clause] Cons.prems(2) by simp
  note IH = Cons.IH [OF rest this, of "Suc k"]
  show ?case
  proof (cases b)
    case None
    then show ?thesis using IH Cons.prems(3) by (simp add: bs)
  next
    case (Some br)
    then show ?thesis using IH sh un Cons.prems(2,3) by (cases br) (auto simp: bs)
  qed
qed simp

lemma if_chain_ok:
  "choice_plan fs cs = (bs, cs') \<Longrightarrow> c_first_test cs \<Longrightarrow> else_last bs \<Longrightarrow> set bs \<subseteq> {None} \<longrightarrow> c_unseen cs' = [] \<Longrightarrow>
   \<exists>ch. if_chain k bs (c_unseen cs' \<noteq> []) = Some ch"
proof (induction fs arbitrary: cs bs k)
  case (Cons f fs)
  obtain b removed cs1 where clause: "choice_clause f cs = (b, removed, cs1)" by (cases "choice_clause f cs") auto
  obtain bs1 where rest: "choice_plan fs cs1 = (bs1, cs')" and bs: "bs = b # bs1"
    using Cons.prems(1) clause by (auto split: prod.splits)
  note sh = choice_clause_shape [OF clause] and un = choice_plan_unseen [OF rest] and ft = choice_clause_first_test [OF clause]
  show ?case
  proof (cases b)
    case None
    then show ?thesis using Cons.IH [OF rest, of "Suc k"] ft Cons.prems(2-4) by (simp add: bs)
  next
    case (Some br)
    then show ?thesis
      using elif_chain_ok [OF rest, of "Suc k"] ft sh un Cons.prems(2,3) by (cases br) (auto simp: bs)
  qed
qed simp

lemma apart_chain:
  assumes "set (concat fs) \<subseteq> set first" "apart fs" "\<not> insensitive g" "concat fs \<noteq> []"
    and "choice_plan fs (start_choice g first) = (bs, s)"
  shows "\<exists>ch. if_chain 0 bs (c_unseen s \<noteq> []) = Some ch"
proof (rule if_chain_ok [OF assms(5)])
  show "c_first_test (start_choice g first)" by (simp add: start_choice_def)
  show "else_last bs"
    using choice_plan_else_last [of fs "start_choice g first"] assms(1-3,5) by (simp add: start_choice_def)
  obtain v where v: "v \<in> set (concat fs)" using assms(4) by (metis list.set_intros(1) neq_Nil_conv)
  have "v \<in> set (c_unseen (start_choice g first))" "v \<notin> set (c_seen (start_choice g first))"
    using v assms(1,3) by (auto simp: start_choice_def)
  then have "first_index (\<lambda>b. takes b v) bs = first_index (\<lambda>f. v \<in> set f) fs"
    using choice_plan_dispatch [OF assms(5)] by blast
  moreover have "first_index (\<lambda>f. v \<in> set f) fs \<noteq> None" using v by (auto simp: first_index_None)
  ultimately have "\<exists>b \<in> set bs. takes b v" using first_index_None [of "\<lambda>b. takes b v" bs] by metis
  then show "set bs \<subseteq> {None} \<longrightarrow> c_unseen s = []" by auto
qed

text \<open>
  (C26) If no token can start two clauses of a choice, the generated chain is a well-formed conditional: a clause written
  without a test, as the only one or behind \<^verbatim>\<open>else\<close>, is the last one written.
\<close>

theorem choice_chain_well_formed:
  assumes "set (concat fs) \<subseteq> set first" "apart fs" "\<not> insensitive g"
  shows "else_last (fst (choice_plan fs (start_choice g first)))"
  using choice_plan_else_last [of fs "start_choice g first"] assms by (simp add: start_choice_def)

theorem choice_chain_well_formed_witness: "else_last (fst demo_plan) \<and> apart [[''A'', ''B''], [''C''], [''D'']]"
proof -
  have "set (concat [[''A'', ''B''], [''C''], [''D'']]) \<subseteq> set [''A'', ''B'', ''C'', ''D'']"
    and apart: "apart [[''A'', ''B''], [''C''], [''D'']]" and "\<not> insensitive (fst (new_generator ''G'' [] [] []))"
    by (simp_all add: new_generator_def has_option_def)
  from choice_chain_well_formed [OF this] apart show ?thesis
    unfolding demo_plan_def by (rule conjI)
qed

text \<open>
  Without that condition it is not: for two clauses that start with the same two tokens the loop skips the second token,
  so the second clause is written behind an \<^verbatim>\<open>else\<close> that follows no \<^verbatim>\<open>if\<close>.
\<close>

lemma ambiguous_choice_bad:
  "fst (choice_plan [[''A'', ''B''], [''A'', ''B'']] (start_choice (fst (new_generator ''G'' [] [] [])) [''A'', ''B''])) =
     [Some Plain, Some (Otherwise [''B''])]"
  by (simp add: start_choice_def new_generator_def has_option_def choice_clause_def scan_testset.simps)

end
