(* ===== verification/Yapps_Grammar.thy ===== *)
theory Yapps_Grammar
  imports Yapps_Output Rpcgen_Parser
begin

text \<open>
  The parser generator: \<^verbatim>\<open>yapps/grammar.py\<close>, the parser of grammar files (itself generated by Yapps), and \<^verbatim>\<open>yapps/main.py\<close>.
  The state of a parse is the scanner, the list of tokens that the rules share and extend, the number of the next node and
  the lines printed.  Rules that loop or call themselves take fuel; running out of it is \<open>Hang\<close>.
\<close>

section \<open>String literals\<close>

text \<open>\<^verbatim>\<open>eval\<close> of a string literal that the scanner accepts.\<close>

definition octal :: "char \<Rightarrow> nat option" where
  "octal c = (case char_digit c of Some d \<Rightarrow> if d < 8 then Some d else None | None \<Rightarrow> None)"

definition hexval :: "char \<Rightarrow> nat option" where
  "hexval c =
     (let n = of_char c :: nat in
      if 48 \<le> n \<and> n \<le> 57 then Some (n - 48)
      else if 97 \<le> n \<and> n \<le> 102 then Some (n - 87)
      else if 65 \<le> n \<and> n \<le> 70 then Some (n - 55)
      else None)"

definition simple_escape :: "char \<Rightarrow> char option" where
  "simple_escape c =
     map_of [(CHR 0x5C, CHR 0x5C), (CHR 0x27, CHR 0x27), (CHR 0x22, CHR 0x22), (CHR ''a'', CHR 0x07), (CHR ''b'', CHR 0x08),
             (CHR ''f'', CHR 0x0C), (CHR ''n'', CHR 0x0A), (CHR ''r'', CHR 0x0D), (CHR ''t'', CHR 0x09), (CHR ''v'', CHR 0x0B)] c"

text \<open>At most three octal digits.\<close>

fun octal_digits :: "nat \<Rightarrow> nat \<Rightarrow> string \<Rightarrow> nat \<times> string" where
  "octal_digits (Suc k) acc (c # cs) = (case octal c of Some d \<Rightarrow> octal_digits k (8 * acc + d) cs | None \<Rightarrow> (acc, c # cs))"
| "octal_digits _ acc cs = (acc, cs)"

lemma octal_digits_length: "length (snd (octal_digits k acc cs)) \<le> length cs"
  by (induction k acc cs rule: octal_digits.induct) (auto split: option.splits)

lemma octal_digits_shorter: "(n, rest) = octal_digits k acc cs \<Longrightarrow> length rest \<le> length cs"
  using octal_digits_length [of k acc cs] by (metis snd_conv)

function unescape :: "string \<Rightarrow> string res" where
  "unescape [] = Inr []"
| "unescape (c # cs) =
     (if c \<noteq> CHR 0x5C then bindE (unescape cs) (\<lambda>s. Inr (c # s))
      else case cs of
          [] \<Rightarrow> Inr [c]
        | d # ds \<Rightarrow>
            (case simple_escape d of
               Some e \<Rightarrow> bindE (unescape ds) (\<lambda>s. Inr (e # s))
             | None \<Rightarrow>
                 if octal d \<noteq> None then
                   (case octal_digits 3 0 (d # ds) of (n, rest) \<Rightarrow> bindE (unescape rest) (\<lambda>s. Inr (char_of (n mod 256) # s)))
                 else if d = CHR ''x'' then
                   (case ds of
                      a # b # rest \<Rightarrow>
                        (case (hexval a, hexval b) of
                           (Some m, Some n) \<Rightarrow> bindE (unescape rest) (\<lambda>s. Inr (char_of (16 * m + n) # s))
                         | _ \<Rightarrow> Inl ValueError)
                    | _ \<Rightarrow> Inl ValueError)
                 else bindE (unescape ds) (\<lambda>s. Inr (c # d # s))))"
  by pat_completeness auto
termination by (relation "measure length") (auto dest!: octal_digits_shorter)

declare unescape.simps(2) [simp del]

definition eval_literal :: "string \<Rightarrow> string res" where
  "eval_literal s =
     (case s of
        [] \<Rightarrow> Inl (ParseError [])
      | c # cs \<Rightarrow> if c \<in> {CHR ''r'', CHR ''R''} then Inr (butlast (tl cs)) else unescape (butlast cs))"

section \<open>Scanner\<close>

definition m_blank :: "string \<Rightarrow> nat option" where
  "m_blank s =
     (let n = length (takeWhile (\<lambda>c. c \<in> {CHR '' '', CHR 0x09, CHR 0x0D, CHR 0x0A}) s) in if 0 < n then Some n else None)"

text \<open>\<^verbatim>\<open>#.*?\r?\n\<close>: up to the first newline.\<close>

definition m_hash :: "string \<Rightarrow> nat option" where
  "m_hash s =
     (let n = length (takeWhile (\<lambda>c. c \<noteq> CHR 0x0A) s) in if startswith s ''#'' \<and> n < length s then Some (n + 1) else None)"

definition m_dollar :: "string \<Rightarrow> nat option" where
  "m_dollar s = (if s = [] \<or> s = nl then Some 0 else None)"

fun shortest :: "string \<Rightarrow> string \<Rightarrow> nat option" where
  "shortest close [] = (if close = [] then Some 0 else None)"
| "shortest close (c # cs) =
     (if startswith (c # cs) close then Some 0 else if c = CHR 0x0A then None else map_option Suc (shortest close cs))"

text \<open>\<^verbatim>\<open>open.+?close\<close> for two brackets of two characters.\<close>

definition m_between :: "string \<Rightarrow> string \<Rightarrow> string \<Rightarrow> nat option" where
  "m_between open_br close_br s =
     (if startswith s open_br then
        (case drop 2 s of
           [] \<Rightarrow> None
         | c # cs \<Rightarrow> if c = CHR 0x0A then None else map_option (\<lambda>n. n + 5) (shortest close_br cs))
      else None)"

fun str_body :: "char \<Rightarrow> string \<Rightarrow> nat option" where
  "str_body q [] = None"
| "str_body q (c # cs) =
     (if c = q then Some 1
      else if c = CHR 0x0A then None
      else if c = CHR 0x5C then
        (case cs of [] \<Rightarrow> None | d # ds \<Rightarrow> if d = CHR 0x0A then None else map_option (\<lambda>n. n + 2) (str_body q ds))
      else map_option Suc (str_body q cs))"

definition m_quoted :: "string \<Rightarrow> nat option" where
  "m_quoted s =
     (case s of [] \<Rightarrow> None | q # cs \<Rightarrow> if q \<in> {CHR 0x27, CHR 0x22} then map_option Suc (str_body q cs) else None)"

definition m_str :: "string \<Rightarrow> nat option" where
  "m_str s =
     (case s of
        [] \<Rightarrow> None
      | c # cs \<Rightarrow> if c \<in> {CHR ''r'', CHR ''R''} then map_option Suc (m_quoted cs) else m_quoted s)"

definition blank_pat :: string where
  "blank_pat = ''[ '' @ [CHR 0x09, CHR 0x0D, CHR 0x0A] @ '']+''"

definition hash_pat :: string where
  "hash_pat = ''#.*?'' @ [CHR 0x0D] @ ''?'' @ [CHR 0x0A]"

definition grammar_patterns :: "pattern list" where
  "grammar_patterns =
     map (\<lambda>w. (kw w, m_lit w)) [''rule'', ''ignore'', ''token'', ''option'', '':'', ''parser''] @
     [(blank_pat, m_blank), (hash_pat, m_hash), (''EOF'', m_dollar), (''ATTR'', m_between ''<<'' ''>>''),
      (''STMT'', m_between ''{{'' ''}}''), (''ID'', m_symbol), (''STR'', m_str), (''LP'', m_lit ''(''), (''RP'', m_lit '')''),
      (''LB'', m_lit ''[''), (''RB'', m_lit '']''), (''OR'', m_lit ''|''), (''STAR'', m_lit ''*''), (''PLUS'', m_lit ''+''),
      (''QUEST'', m_lit ''?''), (''COLON'', m_lit '':'')]"

definition grammar_scanner :: "string \<Rightarrow> string \<Rightarrow> scanner" where
  "grammar_scanner input filename = fst (new_scanner 0 grammar_patterns [blank_pat, hash_pat] input None (Some filename))"

section \<open>Parser state\<close>

record gstate =
  gs_scanner :: scanner
  gs_tokens :: "token_def list"
  gs_next :: nat
  gs_prints :: "string list"

type_synonym 'a grule = "gstate \<Rightarrow> ('a \<times> gstate) res"

definition bindG :: "'a grule \<Rightarrow> ('a \<Rightarrow> 'b grule) \<Rightarrow> 'b grule" where
  "bindG p f s = bindE (p s) (\<lambda>(x, s). f x s)"

definition returnG :: "'a \<Rightarrow> 'a grule" where
  "returnG x s = Inr (x, s)"

definition resG :: "'a res \<Rightarrow> 'a grule" where
  "resG r s = bindE r (\<lambda>x. Inr (x, s))"

definition ruleG :: "'a rule \<Rightarrow> 'a grule" where
  "ruleG p s = bindE (p (gs_scanner s)) (\<lambda>(x, sc). Inr (x, s \<lparr>gs_scanner := sc\<rparr>))"

definition scanG :: "string \<Rightarrow> string grule" where
  "scanG ty = ruleG (scan ty)"

definition peekG :: "string list \<Rightarrow> string grule" where
  "peekG types = ruleG (peek types)"

definition newG :: "(nat \<Rightarrow> pnode) \<Rightarrow> pnode grule" where
  "newG mk s = Inr (mk (gs_next s), s \<lparr>gs_next := gs_next s + 1\<rparr>)"

section \<open>Making nodes\<close>

text \<open>The name \<^verbatim>\<open>Sequence\<close> is not defined in the module: an empty list would raise.\<close>

definition cleanup_choice :: "string \<Rightarrow> pnode list \<Rightarrow> pnode grule" where
  "cleanup_choice rule lst =
     (if length lst = 0 then resG (Inl (GenericException ''NameError''))
      else if length lst = 1 then returnG (lst ! 0)
      else newG (\<lambda>i. Choice i rule lst))"

definition cleanup_sequence :: "string \<Rightarrow> pnode list \<Rightarrow> pnode grule" where
  "cleanup_sequence rule lst = (if length lst = 1 then returnG (lst ! 0) else newG (\<lambda>i. Sequence i rule lst))"

definition resolve_name :: "string \<Rightarrow> string \<Rightarrow> string \<Rightarrow> pnode grule" where
  "resolve_name rule name args s =
     (if name \<in> fst ` set (gs_tokens s) then
        newG (\<lambda>i. Terminal i rule name)
          (if args \<noteq> [] then
             s \<lparr>gs_prints := gs_prints s @ [''Warning: ignoring parameters on TOKEN '' @ name @ ''<<'' @ args @ ''>>'']\<rparr>
           else s)
      else newG (\<lambda>i. NonTerminal i rule name args) s)"

definition inner_text :: "string \<Rightarrow> string" where
  "inner_text s = take (length s - 4) (drop 2 s)"

definition insert_token :: "token_def \<Rightarrow> unit grule" where
  "insert_token t s = Inr ((), if t \<notin> set (gs_tokens s) then s \<lparr>gs_tokens := t # gs_tokens s\<rparr> else s)"

section \<open>The rules\<close>

definition after_rules :: "string list" where
  "after_rules = [''OR'', ''RP'', ''RB'', kw ''rule'', ''EOF'']"

definition clause_starts :: "string list" where
  "clause_starts = [''STR'', ''ID'', ''LP'', ''LB'', ''STMT'']"

definition Str :: "string grule" where
  "Str = bindG (scanG ''STR'') (\<lambda>s. resG (eval_literal s))"

definition OptParam :: "string grule" where
  "OptParam =
     bindG (peekG ([''ATTR'', kw '':'', ''PLUS'', ''STAR'', ''QUEST''] @ clause_starts @ after_rules)) (\<lambda>t.
     if t = ''ATTR'' then bindG (scanG ''ATTR'') (\<lambda>a. returnG (inner_text a)) else returnG [])"

fun ClauseA :: "nat \<Rightarrow> string \<Rightarrow> pnode grule" and ClauseA_loop :: "nat \<Rightarrow> string \<Rightarrow> pnode list \<Rightarrow> pnode grule" and ClauseB :: "nat \<Rightarrow> string \<Rightarrow> pnode list \<Rightarrow> pnode grule" and ClauseC :: "nat \<Rightarrow> string \<Rightarrow> pnode grule" and ClauseD :: "nat \<Rightarrow> string \<Rightarrow> pnode grule" where
  "ClauseA 0 rule = resG (Inl Hang)"
| "ClauseA (Suc n) rule = bindG (ClauseB n rule []) (\<lambda>b. ClauseA_loop n rule [b])"
| "ClauseA_loop 0 rule v = resG (Inl Hang)"
| "ClauseA_loop (Suc n) rule v =
     bindG (peekG after_rules) (\<lambda>t.
     if t = ''OR'' then bindG (scanG ''OR'') (\<lambda>_. bindG (ClauseB n rule []) (\<lambda>b. ClauseA_loop n rule (v @ [b])))
     else cleanup_choice rule v)"
| "ClauseB 0 rule v = resG (Inl Hang)"
| "ClauseB (Suc n) rule v =
     bindG (peekG (clause_starts @ after_rules)) (\<lambda>t.
     if t \<in> set clause_starts then bindG (ClauseC n rule) (\<lambda>c. ClauseB n rule (v @ [c]))
     else cleanup_sequence rule v)"
| "ClauseC 0 rule = resG (Inl Hang)"
| "ClauseC (Suc n) rule =
     bindG (ClauseD n rule) (\<lambda>d.
     bindG (peekG ([''PLUS'', ''STAR'', ''QUEST''] @ clause_starts @ after_rules)) (\<lambda>t.
     if t = ''PLUS'' then bindG (scanG ''PLUS'') (\<lambda>_. newG (\<lambda>i. Plus i rule d))
     else if t = ''STAR'' then bindG (scanG ''STAR'') (\<lambda>_. newG (\<lambda>i. Star i rule d))
     else if t = ''QUEST'' then bindG (scanG ''QUEST'') (\<lambda>_. newG (\<lambda>i. Option i rule d))
     else returnG d))"
| "ClauseD 0 rule = resG (Inl Hang)"
| "ClauseD (Suc n) rule =
     bindG (peekG clause_starts) (\<lambda>t.
     if t = ''STR'' then
       bindG (scanG ''STR'') (\<lambda>s.
       bindG (resG (eval_literal s)) (\<lambda>v.
       bindG (insert_token (s, v, None)) (\<lambda>_. newG (\<lambda>i. Terminal i rule s))))
     else if t = ''ID'' then
       bindG (scanG ''ID'') (\<lambda>name. bindG OptParam (\<lambda>args. resolve_name rule name args))
     else if t = ''LP'' then
       bindG (scanG ''LP'') (\<lambda>_. bindG (ClauseA n rule) (\<lambda>a. bindG (scanG ''RP'') (\<lambda>_. returnG a)))
     else if t = ''LB'' then
       bindG (scanG ''LB'') (\<lambda>_. bindG (ClauseA n rule) (\<lambda>a. bindG (scanG ''RB'') (\<lambda>_. newG (\<lambda>i. Option i rule a))))
     else bindG (scanG ''STMT'') (\<lambda>s. newG (\<lambda>i. Eval i rule (inner_text s))))"

fun Rules_loop :: "nat \<Rightarrow> (string \<times> string \<times> pnode) list \<Rightarrow> (string \<times> string \<times> pnode) list grule" where
  "Rules_loop 0 rul = resG (Inl Hang)"
| "Rules_loop (Suc n) rul =
     bindG (peekG [kw ''rule'', ''EOF'']) (\<lambda>t.
     if t = kw ''rule'' then
       bindG (scanG (kw ''rule'')) (\<lambda>_.
       bindG (scanG ''ID'') (\<lambda>name.
       bindG OptParam (\<lambda>p.
       bindG (scanG (kw '':'')) (\<lambda>_.
       bindG (ClauseA n name) (\<lambda>c. Rules_loop n (rul @ [(name, p, c)]))))))
     else returnG rul)"

fun Tokens_loop :: "nat \<Rightarrow> token_def list \<Rightarrow> token_def list grule" where
  "Tokens_loop 0 tok = resG (Inl Hang)"
| "Tokens_loop (Suc n) tok =
     bindG (peekG [kw ''token'', kw ''ignore'', ''EOF'', kw ''rule'']) (\<lambda>t.
     if t \<in> {kw ''token'', kw ''ignore''} then
       bindG (peekG [kw ''token'', kw ''ignore'']) (\<lambda>t.
       if t = kw ''token'' then
         bindG (scanG (kw ''token'')) (\<lambda>_.
         bindG (scanG ''ID'') (\<lambda>name.
         bindG (scanG (kw '':'')) (\<lambda>_.
         bindG Str (\<lambda>s. Tokens_loop n (tok @ [(name, s, None)])))))
       else
         bindG (scanG (kw ''ignore'')) (\<lambda>_.
         bindG (scanG (kw '':'')) (\<lambda>_.
         bindG Str (\<lambda>s.
         bindG (peekG [''STMT'', kw ''token'', kw ''ignore'', ''EOF'', kw ''rule'']) (\<lambda>t.
         if t = ''STMT'' then bindG (scanG ''STMT'') (\<lambda>stmt. Tokens_loop n (tok @ [(''#ignore'', s, Some (inner_text stmt))]))
         else Tokens_loop n (tok @ [(''#ignore'', s, None)]))))))
     else returnG tok)"

fun Options_loop :: "nat \<Rightarrow> (string \<times> bool) list \<Rightarrow> (string \<times> bool) list grule" where
  "Options_loop 0 opts = resG (Inl Hang)"
| "Options_loop (Suc n) opts =
     bindG (peekG [kw ''option'', kw ''token'', kw ''ignore'', ''EOF'', kw ''rule'']) (\<lambda>t.
     if t = kw ''option'' then
       bindG (scanG (kw ''option'')) (\<lambda>_.
       bindG (scanG (kw '':'')) (\<lambda>_.
       bindG Str (\<lambda>s. Options_loop n (AList.update s True opts))))
     else returnG opts)"

definition set_tokens :: "token_def list \<Rightarrow> unit grule" where
  "set_tokens toks s = Inr ((), s \<lparr>gs_tokens := toks\<rparr>)"

definition get_tokens :: "token_def list grule" where
  "get_tokens s = Inr (gs_tokens s, s)"

text \<open>The generator with the warnings its constructor prints.\<close>

definition Parser :: "nat \<Rightarrow> (generator \<times> string list) grule" where
  "Parser n =
     bindG (scanG (kw ''parser'')) (\<lambda>_.
     bindG (scanG ''ID'') (\<lambda>name.
     bindG (scanG (kw '':'')) (\<lambda>_.
     bindG (Options_loop n []) (\<lambda>opts.
     bindG (Tokens_loop n []) (\<lambda>toks.
     bindG (set_tokens toks) (\<lambda>_.
     bindG (Rules_loop n []) (\<lambda>rules.
     bindG (scanG ''EOF'') (\<lambda>_.
     bindG get_tokens (\<lambda>toks.
     returnG (new_generator name opts toks rules))))))))))"

section \<open>Generating a parser\<close>

definition DIVIDER :: string where
  "DIVIDER = nl @ ''%%'' @ nl"

text \<open>The text before, of and after the parser description.\<close>

definition split_grammar :: "string \<Rightarrow> string option \<times> string \<times> string option" where
  "split_grammar s =
     (let (pre, s) = (case py_find DIVIDER s of Some f \<Rightarrow> (Some (take f s @ nl @ nl), drop (f + length DIVIDER) s) | None \<Rightarrow> (None, s));
          (s, post) = (case py_find DIVIDER s of Some f \<Rightarrow> (take f s, Some (nl @ nl @ drop (f + length DIVIDER) s)) | None \<Rightarrow> (s, None))
      in (pre, s, post))"

definition output_name :: "string \<Rightarrow> string \<Rightarrow> string res" where
  "output_name inputfilename outputfilename =
     (if outputfilename \<noteq> [] then Inr outputfilename
      else if endswith inputfilename ''.g'' then Inr (take (length inputfilename - 2) inputfilename @ ''.py'')
      else Inl (GenericException ''Must specify output filename if input filename is not *.g''))"

text \<open>\<^verbatim>\<open>wrap_error_reporter\<close> on the rule \<^verbatim>\<open>Parser\<close>: \<open>None\<close> after a syntax error, and what the parser printed.\<close>

definition parse_grammar :: "nat \<Rightarrow> scanner \<Rightarrow> ((generator \<times> string list) \<times> string list) option res" where
  "parse_grammar n sc =
     (case Parser n \<lparr>gs_scanner = sc, gs_tokens = [], gs_next = 0, gs_prints = []\<rparr> of
        Inr (g, s) \<Rightarrow> Inr (Some (g, gs_prints s))
      | Inl (ParseError _) \<Rightarrow> Inr None
      | Inl e \<Rightarrow> Inl e)"

definition yapps_options :: "string list" where
  "yapps_options = [''context-insensitive-scanner'']"

record gen_result =
  gr_rc :: int
  gr_file :: "(string \<times> string) option"
  gr_stdout :: "string list"
  gr_stderr :: "string list"

definition option_warnings :: "generator \<Rightarrow> string list" where
  "option_warnings g =
     map (\<lambda>f. ''Warning: unrecognized option '' @ f) (filter (\<lambda>f. f \<notin> set yapps_options) (map fst (g_options g)))"

definition finish_generator :: "string option \<Rightarrow> string option \<Rightarrow> (string \<times> bool) list \<Rightarrow> generator \<Rightarrow> generator" where
  "finish_generator pre post flags g =
     g \<lparr>g_preparser := (case pre of Some p \<Rightarrow> p | None \<Rightarrow> g_preparser g),
        g_postparser := (case post of Some p \<Rightarrow> Some p | None \<Rightarrow> g_postparser g),
        g_options := fold (\<lambda>(f, b). AList.update f b) flags (g_options g)\<rparr>"

text \<open>\<open>files\<close> gives the contents of the readable files; \<open>fuel\<close> bounds the loops of the parser and of the sets.
  The report of a syntax error is not among the lines of the result.\<close>

definition generate :: "nat \<Rightarrow> ((string \<times> string option) list \<Rightarrow> (string \<times> string option) list) \<Rightarrow> (string \<Rightarrow> string option) \<Rightarrow>
    string \<Rightarrow> string \<Rightarrow> bool \<Rightarrow> (string \<times> bool) list \<Rightarrow> gen_result res" where
  "generate fuel order files inputfilename outputfilename dump flags =
     bindE (output_name inputfilename outputfilename) (\<lambda>outname.
     case files inputfilename of
       None \<Rightarrow> Inl IOError
     | Some txt \<Rightarrow>
         (case split_grammar txt of (pre, s, post) \<Rightarrow>
            let sc = grammar_scanner s inputfilename;
                sc = (case pre of Some p \<Rightarrow> sc \<lparr>sc_del_line := sc_del_line sc + newlines p\<rparr> | None \<Rightarrow> sc)
            in bindE (parse_grammar fuel sc) (\<lambda>parsed.
               case parsed of
                 None \<Rightarrow> Inr \<lparr>gr_rc = 1, gr_file = None, gr_stdout = [], gr_stderr = []\<rparr>
               | Some ((g, warns), prints) \<Rightarrow>
                   let warns = warns @ option_warnings g; g = finish_generator pre post flags g in
                   if dump then
                     (case dump_information fuel g of
                        None \<Rightarrow> Inl Hang
                      | Some (ls, errs) \<Rightarrow> Inr \<lparr>gr_rc = 0, gr_file = None, gr_stdout = prints @ ls, gr_stderr = warns @ errs\<rparr>)
                   else
                     (case generate_output fuel order g of
                        None \<Rightarrow> Inl Hang
                      | Some (out, errs) \<Rightarrow>
                          Inr \<lparr>gr_rc = 0, gr_file = Some (outname, out), gr_stdout = prints, gr_stderr = warns @ errs\<rparr>))))"

section \<open>The command line\<close>

text \<open>\<open>opts\<close> and \<open>args\<close> are the result of \<^verbatim>\<open>getopt\<close>; the flags, whether to dump, and the warnings.\<close>

definition option_step :: "string \<times> string \<Rightarrow> (string \<times> bool) list \<times> bool \<times> string list \<Rightarrow> (string \<times> bool) list \<times> bool \<times> string list" where
  "option_step opt st =
     (case (opt, st) of ((o1, o2), (flags, dump, warns)) \<Rightarrow>
        if o1 = ''-f'' \<and> o2 \<in> set yapps_options then (AList.update o2 True flags, dump, warns)
        else if (o1, o2) = (''--dump'', []) then (flags, True, warns)
        else if (o1, o2) = (''--use-devel-grammar'', []) then (flags, dump, warns)
        else (flags, dump, warns @ [''Warning: unrecognized option '' @ o1 @ '' '' @ o2]))"

definition usage_lines :: "string \<Rightarrow> string list" where
  "usage_lines prog =
     [''Usage:'', ''  python '' @ prog @ '' [flags] input.g [output.py]'', ''Flags:'',
      take 35 (''  --dump'' @ replicate 40 CHR '' '') @ ''Dump out grammar information'',
      take 35 (''  --use-devel-grammar'' @ replicate 40 CHR '' '') @
        ''Use the devel grammar parser from yapps_grammar.py instead of the stable grammar from grammar.py'',
      take 35 (''  -fcontext-insensitive-scanner'' @ replicate 40 CHR '' '') @ ''Scan all tokens (see docs)'']"

text \<open>The exit code with what is written.  There is no module \<^verbatim>\<open>yapps_grammar\<close> to import.\<close>

definition yapps_main :: "nat \<Rightarrow> ((string \<times> string option) list \<Rightarrow> (string \<times> string option) list) \<Rightarrow> (string \<Rightarrow> string option) \<Rightarrow>
    string \<Rightarrow> (string \<times> string) list \<Rightarrow> string list \<Rightarrow> gen_result res" where
  "yapps_main fuel order files prog opts args =
     (if args = [] \<or> 2 < length args then Inr \<lparr>gr_rc = 0, gr_file = None, gr_stdout = [], gr_stderr = usage_lines prog\<rparr>
      else
        (case fold option_step opts ([], False, []) of (flags, dump, warns) \<Rightarrow>
           if (''--use-devel-grammar'', []) \<in> set opts then Inl (GenericException ''ImportError'') else
           bindE (generate fuel order files (args ! 0) (if length args = 2 then args ! 1 else []) dump flags) (\<lambda>r.
           Inr (r \<lparr>gr_stderr := warns @ gr_stderr r\<rparr>))))"

end
