(* ===== verification/Spec2Isabelle.thy ===== *)
theory Spec2Isabelle
  imports Simplerpc_Correct Run_Heartbeat Run_All Rpcgen_Correct Yapps_Output_Correct Yapps_Grammar
begin

text \<open>
  A verification library for the Python side of a framework for replicated transactional servers: the RPC library its
  controllers talk through, the compiler that writes RPC stubs, the parser generator under that compiler, and the controller
  that starts servers and clients of a benchmark and collects their statistics.

  \<^bold>\<open>The program.\<close>  \<^verbatim>\<open>scripts/run_all.py\<close> generates YAML configurations (with \<^verbatim>\<open>pylib/placement_strategy.py\<close>) and runs
  \<^verbatim>\<open>run.py\<close> once per experiment.  \<^verbatim>\<open>run.py\<close> reads the configuration, starts the C++ servers on the machines, and talks to their
  control ports through \<^verbatim>\<open>src/rrr/pylib/simplerpc\<close>: one process keeps the servers alive, the other asks the clients for
  their statistics and prints reports.  The stubs for these calls come from \<^verbatim>\<open>src/rrr/pylib/simplerpcgen\<close>, whose parser was
  generated by \<^verbatim>\<open>src/rrr/pylib/yapps\<close>.

  \<^bold>\<open>Conventions\<close> (\<open>Py_Prelude\<close>, \<open>Py_Str\<close>, \<open>Py_Float\<close>, \<open>Py_Args\<close>, \<open>Py_Yaml\<close>).  An exception is a value of \<open>pyerr\<close>, a computation that
  may raise a value of \<open>'a res\<close>; loops are \<open>foldE\<close> and \<open>mapE\<close>.  A dictionary is an association list in insertion order.  A float
  is a rational number, every operation followed by the rounding \<open>rnd\<close> of double precision.  \<^verbatim>\<open>argparse\<close> works on lines
  already cut into options and values, \<^verbatim>\<open>yaml\<close> on values instead of text.  Where Python leaves an iteration order open it is an
  argument.  \<open>Hang\<close> is a call that never returns, \<open>Abort\<close> the death of the process, and \<open>Undefined\<close>
  undefined behaviour of the C++ layer, after which nothing is claimed.

  \<^bold>\<open>RPC library.\<close>
  \<^item> \<open>Sparse_Int\<close> is the class \<^verbatim>\<open>SparseInt\<close> of \<^verbatim>\<open>base/basetypes.cpp\<close> on words of 32 and 64 bits; \<open>Pyrpc\<close> the marshal operations of
    \<^verbatim>\<open>_pyrpc.cpp\<close>; \<open>Marshal\<close> the class \<^verbatim>\<open>Marshal\<close> of \<^verbatim>\<open>marshal.py\<close>.
  \<^item> \<open>Marshal_Types\<close> gives the type names an abstract syntax and states the contract of a coder as the locale \<open>wire_codec\<close>;
    \<open>Marshal_Roundtrip\<close> interprets it on \<open>write_obj\<close> and \<open>read_obj\<close>: what is written at a type is read back.  It also has the errors of
    reading arbitrary bytes by type, the round trip of \<^verbatim>\<open>DepId\<close> (which \<open>ty_ok\<close> leaves out, since only writing has a case for it), and the
    values that do not come back (64-bit integers whose code takes eight bytes).
  \<^item> \<open>Rpc_Wire\<close> is the framing of requests and replies (\<^verbatim>\<open>rpc/client.cpp\<close>, \<^verbatim>\<open>rpc/server.cpp\<close>); the locale \<open>packet_stream\<close> is what
    the two packet parsers owe to the loops that read them from pieces of a stream.  The client's loop is \<^verbatim>\<open>Client::handle_read\<close>, which
    the poll loop of the extension module calls; \<open>next_reply\<close> describes its rounds as long as only pending calls are answered.
  \<^item> \<open>Simplerpc\<close> is \<^verbatim>\<open>client.py\<close>, \<^verbatim>\<open>server.py\<close> and \<^verbatim>\<open>future.py\<close>; \<open>Simplerpc_Correct\<close> shows that a call delivers arguments and results
    through the whole stack, that replies reach their futures, that errors and time limits are reported, and that the tables
    of a server agree.  A time-out and the storing of its error code are one step (\<open>timed_wait\<close>); the race between the two is left out.

  \<^bold>\<open>Controller.\<close>
  \<^item> \<open>Run_Txn\<close> is the class \<^verbatim>\<open>TxnInfo\<close> of \<^verbatim>\<open>run.py\<close> (what a run of heartbeats records, percentiles in floating point, reports);
    \<open>Run_Client\<close> is \<^verbatim>\<open>ClientController\<close> with its loop, which refines a sequence of beats of the \<open>TxnInfo\<close> objects; a transaction type
    that appears while a recording is on makes the end of the recording fail.
  \<^item> \<open>Run_Sites\<close> is the command line, the configuration and \<^verbatim>\<open>get_process_info\<close>: every site is placed once, ports do not collide.
  \<^item> \<open>Run_Server\<close> is \<^verbatim>\<open>ServerController\<close>, \<^verbatim>\<open>pylib/ps.py\<close> and \<^verbatim>\<open>main\<close>; the threads that start servers are the step relation
    \<open>start_step\<close>.  \<open>Run_Heartbeat\<close> has the two processes of a run as the step relations \<open>child_step\<close> and \<open>parent_step\<close> over their
    shared lock and flag: clients start only after the servers are ready, the pair does not deadlock, and an exception
    while the clients run leaves the child running for ever.
  \<^item> \<open>Placement\<close> and \<open>Run_All\<close> are \<^verbatim>\<open>placement_strategy.py\<close> and \<^verbatim>\<open>run_all.py\<close>: a generated configuration is accepted by \<^verbatim>\<open>run.py\<close>,
    and clients are kept off the machines of servers.

  \<^bold>\<open>Compilers.\<close>
  \<^item> \<open>Yapps_Runtime\<close> is \<^verbatim>\<open>yapps/runtime.py\<close> (scanner, lookahead, error reports).
  \<^item> \<open>Rpcgen_Emit\<close> and \<open>Rpcgen_Parser\<close> are \<^verbatim>\<open>simplerpcgen\<close>: the generators for C++ and Python and the generated parser, one
    definition per rule.  \<open>Rpcgen_Emit_Correct\<close> shows that generated headers nest; \<open>Rpcgen_Correct\<close> that the parser ends on every
    input and carries the nesting over to whole compilations.
  \<^item> \<open>Yapps_Parsetree\<close> and \<open>Yapps_Output\<close> are \<^verbatim>\<open>yapps/parsetree.py\<close>: node by node the computation of the empty, first and follow
    sets, and the text of a generated parser; \<open>Yapps_Output_Correct\<close> shows that the tests it writes select the right clause,
    if the chain they form is a Python conditional, and when it is one.
    \<open>Yapps_Grammar\<close> is \<^verbatim>\<open>yapps/grammar.py\<close> and \<^verbatim>\<open>yapps/main.py\<close>.

  \<^bold>\<open>Fuel.\<close>  The generated parsers take fuel; for the RPC compiler two more than the length of the text is always enough
  (\<open>parse_terminates\<close>).  The recursion depth of \<open>write_obj\<close> and \<open>read_obj\<close> is that of the interpreter and part of their behaviour:
  beyond it they raise.  The loops of \<open>calculate\<close> take fuel as well, and \<open>None\<close> is not ending within it.

  \<^bold>\<open>Not modelled.\<close>  The C++ servers and their protocols, which the Python side only starts; the poll loop and sockets under the RPC
  library, except for the bytes and packets; the build files; plots and scripts that only shuffle files or call cloud services; the
  copies of \<^verbatim>\<open>run.py\<close> and \<^verbatim>\<open>run_all.py\<close> kept for single experiments.  Infinite and undefined floats, signals, and the
  terminal colours of reports are left out.
\<close>

end
